(* ===== verification/Modac_Prelude.thy ===== *)
theory Modac_Prelude
  imports Main "HOL-Library.Word"
begin

text \<open>
  The shared vocabulary of the development: the machine integers of the driver (the module is
  built for x86_64, so \<open>int\<close> values whose wrap-around never matters are HOL integers and
  the registers, flags and bytes are words of their width), the kernel's error numbers, results
  that are an error number or a value, byte copies, byte swaps, and the lemmas on words and
  lists that the component theories share.
\<close>

unbundle bit_operations_syntax

named_theorems modac_simps \<open>equations that compute a component's operations\<close>
named_theorems modac_wf \<open>preservation of the well-formedness invariants\<close>

section \<open>Machine integers and addresses\<close>

type_synonym u8 = "8 word"
type_synonym u16 = "16 word"
type_synonym u32 = "32 word"
type_synonym ulong = "64 word"

text \<open>The address of an object from \<open>kmalloc\<close>; a pointer that may be NULL is an option.\<close>

type_synonym ptr = nat

section \<open>Error numbers and results\<close>

datatype errno = ENXIO | EAGAIN | ENOMEM | EACCES | EFAULT | EBUSY | EEXIST | ENODEV | EINVAL
  | EMFILE | ENOTTY | ENOSYS | EADDRINUSE | ERESTARTSYS | ENOTSUPP

fun errno_code :: "errno \<Rightarrow> int" where
  "errno_code ENXIO = 6"
| "errno_code EAGAIN = 11"
| "errno_code ENOMEM = 12"
| "errno_code EACCES = 13"
| "errno_code EFAULT = 14"
| "errno_code EBUSY = 16"
| "errno_code EEXIST = 17"
| "errno_code ENODEV = 19"
| "errno_code EINVAL = 22"
| "errno_code EMFILE = 24"
| "errno_code ENOTTY = 25"
| "errno_code ENOSYS = 38"
| "errno_code EADDRINUSE = 98"
| "errno_code ERESTARTSYS = 512"
| "errno_code ENOTSUPP = 524"

lemma errno_code_pos [simp]: "0 < errno_code e"
  by (cases e) simp_all

lemma errno_code_not_le [simp]: "\<not> errno_code e \<le> 0"
  by (cases e) simp_all

lemma errno_code_inj [simp]: "errno_code e = errno_code f \<longleftrightarrow> e = f"
  by (cases e; cases f) simp_all

text \<open>The errors are ordered by their numbers.\<close>

instantiation errno :: linorder
begin
definition less_eq_errno :: "errno \<Rightarrow> errno \<Rightarrow> bool" where
  "less_eq_errno e f \<longleftrightarrow> errno_code e \<le> errno_code f"
definition less_errno :: "errno \<Rightarrow> errno \<Rightarrow> bool" where
  "less_errno e f \<longleftrightarrow> errno_code e < errno_code f"
instance
  by intro_classes (auto simp: less_eq_errno_def less_errno_def simp flip: errno_code_inj)
end

text \<open>
  A C function that returns \<open>-EXXX\<close> or a value: \<open>Inl\<close> the error, \<open>Inr\<close> the value.
  Where the code looks at the returned number itself, \<open>ret_int\<close> is that number.
\<close>

type_synonym 'a res = "errno + 'a"

definition ret_int :: "int res \<Rightarrow> int" where
  "ret_int r = (case r of Inl e \<Rightarrow> - errno_code e | Inr v \<Rightarrow> v)"

lemma ret_int_simps [simp]:
  "ret_int (Inl e) = - errno_code e"
  "ret_int (Inr v) = v"
  by (simp_all add: ret_int_def)

lemma ret_int_nonneg_D: "0 \<le> ret_int r \<Longrightarrow> \<exists>v. r = Inr v \<and> ret_int r = v"
proof (cases r)
  case (Inl e)
  assume "0 \<le> ret_int r"
  with Inl show ?thesis by simp
qed simp

section \<open>Bytes\<close>

text \<open>\<open>memcpy (dst, src, n)\<close>: the first \<open>n\<close> bytes of \<open>dst\<close> are those of \<open>src\<close>.\<close>

definition memcpy :: "'a list \<Rightarrow> 'a list \<Rightarrow> nat \<Rightarrow> 'a list" where
  "memcpy dst src n = take n src @ drop n dst"

lemma length_memcpy [simp]:
  "n \<le> length src \<Longrightarrow> n \<le> length dst \<Longrightarrow> length (memcpy dst src n) = length dst"
  by (simp add: memcpy_def)

lemma take_memcpy [simp]: "n \<le> length src \<Longrightarrow> take n (memcpy dst src n) = take n src"
  by (simp add: memcpy_def)

text \<open>The bytes of a 16-bit value in the memory of a little-endian machine.\<close>

definition le16_bytes :: "u16 \<Rightarrow> u8 list" where
  "le16_bytes w = [ucast w, ucast (drop_bit 8 w)]"

lemma length_le16_bytes [simp]: "length (le16_bytes w) = 2"
  by (simp add: le16_bytes_def)

definition le32_bytes :: "u32 \<Rightarrow> u8 list" where
  "le32_bytes w = [ucast w, ucast (drop_bit 8 w), ucast (drop_bit 16 w), ucast (drop_bit 24 w)]"

lemma length_le32_bytes [simp]: "length (le32_bytes w) = 4"
  by (simp add: le32_bytes_def)

text \<open>
  The kernel's byte swaps. The EVR's registers are big-endian, the machine is little-endian:
  \<open>be16_to_cpu\<close>, \<open>cpu_to_be16\<close>, \<open>be32_to_cpu\<close> and \<open>cpu_to_be32\<close> are these swaps.
\<close>

definition swab16 :: "u16 \<Rightarrow> u16" where
  "swab16 x = push_bit 8 (x AND 0xFF) OR drop_bit 8 (x AND 0xFF00)"

definition swab32 :: "u32 \<Rightarrow> u32" where
  "swab32 x = push_bit 24 (x AND 0xFF) OR push_bit 8 (x AND 0xFF00)
            OR drop_bit 8 (x AND 0xFF0000) OR drop_bit 24 (x AND 0xFF000000)"

lemma byte_masks:
  "(0xFF::'a::len word) = mask 8"
  "(0xFF00::'a::len word) = push_bit 8 (mask 8)"
  "(0xFF0000::'a::len word) = push_bit 16 (mask 8)"
  "(0xFF000000::'a::len word) = push_bit 24 (mask 8)"
  by (simp_all add: mask_eq_exp_minus_1 push_bit_eq_mult)

lemma bit_swab16: "n < 16 \<Longrightarrow> bit (swab16 x) n = bit x (if n < 8 then n + 8 else n - 8)"
  unfolding swab16_def byte_masks by (auto simp: bit_simps add.commute)

lemma bit_swab32:
  "n < 32 \<Longrightarrow> bit (swab32 x) n = bit x (if n < 8 then n + 24 else if n < 16 then n + 8
      else if n < 24 then n - 8 else n - 24)"
  unfolding swab32_def byte_masks by (auto simp: bit_simps add.commute)

lemma swab16_swab16 [simp]: "swab16 (swab16 x) = x"
  by (rule bit_word_eqI) (auto simp: bit_swab16)

lemma swab32_swab32 [simp]: "swab32 (swab32 x) = x"
  by (rule bit_word_eqI) (auto simp: bit_swab32)

section \<open>Bits of a register\<close>

text \<open>\<open>1 << n\<close> on a 32-bit value.\<close>

definition BIT :: "nat \<Rightarrow> u32" where
  "BIT n = push_bit n 1"

lemma bit_BIT [simp]: "bit (BIT n) m \<longleftrightarrow> m = n \<and> n < 32"
  by (auto simp: BIT_def bit_simps)

lemma and_BIT_eq_0:
  assumes n: "n < 32"
  shows "w AND BIT n = 0 \<longleftrightarrow> \<not> bit w n"
proof
  assume *: "w AND BIT n = 0"
  have "bit (w AND BIT n) n \<longleftrightarrow> bit w n" using n by (simp add: bit_simps)
  with * show "\<not> bit w n" by simp
next
  assume "\<not> bit w n"
  then show "w AND BIT n = 0" by (intro bit_word_eqI) (auto simp: bit_simps)
qed

text \<open>
  \<open>w |= 1 << n\<close> and \<open>w &= ~(1 << n)\<close> under a condition, the form in which the driver
  programs a control bit.
\<close>

definition put_bit :: "nat \<Rightarrow> bool \<Rightarrow> u32 \<Rightarrow> u32" where
  "put_bit n b w = (if b then w OR BIT n else w AND NOT (BIT n))"

lemma bit_put_bit: "m < 32 \<Longrightarrow> bit (put_bit n b w) m \<longleftrightarrow> (if m = n then b else bit w m)"
  by (auto simp: put_bit_def bit_simps)

section \<open>Lists and arrays\<close>

lemma find_upt_Some:
  "find P [0..<n] = Some i \<longleftrightarrow> i < n \<and> P i \<and> (\<forall>j<i. \<not> P j)"
  by (auto simp: find_Some_iff)

lemma find_SomeD: "find P xs = Some x \<Longrightarrow> x \<in> set xs \<and> P x"
  by (auto simp: find_Some_iff)

lemma find_upt_None: "find P [0..<n] = None \<longleftrightarrow> (\<forall>i<n. \<not> P i)"
  by (auto simp: find_None_iff)

lemma distinct_map_filter_keep:
  "distinct (map f xs) \<Longrightarrow> distinct (map f (filter P xs))"
  by (induction xs) auto

end
