(* ===== verification/Event_List.thy ===== *)
theory Event_List
  imports Modac_Prelude
begin

text \<open>
  Event masks and the event dispatch table (src/src/event-list.c, event-list.h). A mask is the
  512-bit bitmap that the kernel's bitmap functions work on. The dispatch table has one row of 31
  subscriber pointers per event code; a row is kept compact (the NULLs are at its end) and free of
  duplicates. \<open>event_dispatch\<close> is the interface the MNG_DEV uses.
\<close>

abbreviation (input) EVENT_LIST_TYPE_MAX_EVENTS :: nat where
  "EVENT_LIST_TYPE_MAX_EVENTS \<equiv> 512"

abbreviation (input) EVENT_DISPATCH_LIST_MAX_SUBSCRIBERS :: nat where
  "EVENT_DISPATCH_LIST_MAX_SUBSCRIBERS \<equiv> 31"

text \<open>\<open>event < 0 || event >= EVENT_LIST_TYPE_MAX_EVENTS\<close> rejects an event code.\<close>

definition event_ok :: "int \<Rightarrow> bool" where
  "event_ok event \<longleftrightarrow> \<not> (event < 0 \<or> event \<ge> int EVENT_LIST_TYPE_MAX_EVENTS)"

section \<open>Event masks\<close>

type_synonym event_list_type = "512 word"

definition event_list_clear :: "event_list_type \<Rightarrow> event_list_type" where
  "event_list_clear event_list = 0"

definition event_list_is_empty :: "event_list_type \<Rightarrow> bool" where
  "event_list_is_empty event_list \<longleftrightarrow> event_list = 0"

definition event_list_test :: "event_list_type \<Rightarrow> int \<Rightarrow> bool" where
  "event_list_test event_list event =
     (if event < 0 \<or> event \<ge> int EVENT_LIST_TYPE_MAX_EVENTS then False
      else bit event_list (nat event))"

definition event_list_add :: "event_list_type \<Rightarrow> int \<Rightarrow> event_list_type" where
  "event_list_add event_list event =
     (if event < 0 \<or> event \<ge> int EVENT_LIST_TYPE_MAX_EVENTS then event_list
      else set_bit (nat event) event_list)"

definition event_list_remove :: "event_list_type \<Rightarrow> int \<Rightarrow> event_list_type" where
  "event_list_remove event_list event =
     (if event < 0 \<or> event \<ge> int EVENT_LIST_TYPE_MAX_EVENTS then event_list
      else unset_bit (nat event) event_list)"

text \<open>The kernel's \<open>find_first_bit\<close>: the size when no bit is set.\<close>

definition find_first_bit :: "event_list_type \<Rightarrow> nat \<Rightarrow> nat" where
  "find_first_bit w sz = (case find (bit w) [0..<sz] of Some i \<Rightarrow> i | None \<Rightarrow> sz)"

definition event_list_extract_one :: "event_list_type \<Rightarrow> int" where
  "event_list_extract_one event_list =
     (let ret = int (find_first_bit event_list EVENT_LIST_TYPE_MAX_EVENTS) in
      if ret < int EVENT_LIST_TYPE_MAX_EVENTS then ret else -1)"

lemma event_list_test_simps [simp]:
  "event_list_test (event_list_clear m) e = False"
  "event_list_test (event_list_add m e) f \<longleftrightarrow> event_list_test m f \<or> (e = f \<and> event_ok e)"
  "event_list_test (event_list_remove m e) f \<longleftrightarrow> event_list_test m f \<and> e \<noteq> f"
  by (auto simp: event_list_test_def event_list_clear_def event_list_add_def event_list_remove_def
      event_ok_def bit_simps)

lemma event_list_test_ok: "event_list_test m e \<Longrightarrow> event_ok e"
  by (auto simp: event_list_test_def event_ok_def split: if_splits)

lemma event_list_eqI: "(\<And>e. event_list_test m e \<longleftrightarrow> event_list_test m' e) \<Longrightarrow> m = m'"
proof (rule bit_word_eqI)
  fix n
  assume *: "\<And>e. event_list_test m e \<longleftrightarrow> event_list_test m' e" and "n < LENGTH(512)"
  then show "bit m n \<longleftrightarrow> bit m' n" using * [of "int n"] by (simp add: event_list_test_def)
qed

lemma event_list_is_empty_iff: "event_list_is_empty m \<longleftrightarrow> (\<forall>e. \<not> event_list_test m e)"
proof
  show "event_list_is_empty m \<Longrightarrow> \<forall>e. \<not> event_list_test m e"
    by (simp add: event_list_is_empty_def event_list_test_def)
next
  assume "\<forall>e. \<not> event_list_test m e"
  then have "m = event_list_clear m" by (intro event_list_eqI) simp
  then show "event_list_is_empty m" by (simp add: event_list_is_empty_def event_list_clear_def)
qed

lemma event_list_extract_one_some:
  assumes "event_list_extract_one m = e" and "0 \<le> e"
  shows "event_list_test m e \<and> (\<forall>f<e. \<not> event_list_test m f)"
proof -
  from assms obtain i where i: "find (bit m) [0..<EVENT_LIST_TYPE_MAX_EVENTS] = Some i" "e = int i"
    by (auto simp: event_list_extract_one_def find_first_bit_def Let_def split: option.splits if_splits)
  then show ?thesis
    by (auto simp: find_upt_Some event_list_test_def split: if_splits)
qed

lemma event_list_extract_one_none:
  "event_list_extract_one m < 0 \<longleftrightarrow> event_list_is_empty m"
proof -
  have "event_list_extract_one m < 0 \<longleftrightarrow> find (bit m) [0..<EVENT_LIST_TYPE_MAX_EVENTS] = None"
    by (auto simp: event_list_extract_one_def find_first_bit_def Let_def find_upt_Some
        split: option.splits)
  also have "\<dots> \<longleftrightarrow> (\<forall>e. \<not> event_list_test m e)"
    unfolding find_upt_None event_list_test_def
    by (metis int_nat_eq nat_int nat_less_iff not_le of_nat_0_le_iff of_nat_less_iff)
  finally show ?thesis by (simp add: event_list_is_empty_iff)
qed

section \<open>The dispatch table\<close>

type_synonym event_dispatch_list = "nat \<Rightarrow> ptr option list"

definition event_dispatch_list_init :: event_dispatch_list where
  "event_dispatch_list_init = (\<lambda>_. replicate EVENT_DISPATCH_LIST_MAX_SUBSCRIBERS None)"

text \<open>The loops over one row, from its first entry.\<close>

fun row_add :: "ptr \<Rightarrow> ptr option list \<Rightarrow> ptr option list option" where
  "row_add subscriber [] = None"
| "row_add subscriber (None # r) = Some (Some subscriber # r)"
| "row_add subscriber (Some x # r) =
     (if x = subscriber then Some (Some x # r)
      else map_option ((#) (Some x)) (row_add subscriber r))"

definition event_dispatch_list_add ::
  "event_dispatch_list \<Rightarrow> ptr \<Rightarrow> int \<Rightarrow> int res \<times> event_dispatch_list" where
  "event_dispatch_list_add l subscriber event =
     (if event < 0 \<or> event \<ge> int EVENT_LIST_TYPE_MAX_EVENTS then (Inl EINVAL, l)
      else case row_add subscriber (l (nat event)) of
        Some r \<Rightarrow> (Inr 0, l(nat event := r))
      | None \<Rightarrow> (Inl ENOMEM, l))"

text \<open>The \<open>memmove\<close> shifts the entries behind the found one; the last one becomes NULL.\<close>

fun row_remove :: "ptr \<Rightarrow> ptr option list \<Rightarrow> ptr option list" where
  "row_remove subscriber [] = []"
| "row_remove subscriber (None # r) = None # r"
| "row_remove subscriber (Some x # r) =
     (if x = subscriber then r @ [None] else Some x # row_remove subscriber r)"

definition event_dispatch_list_remove ::
  "event_dispatch_list \<Rightarrow> ptr \<Rightarrow> int \<Rightarrow> event_dispatch_list" where
  "event_dispatch_list_remove l subscriber event =
     (if event < 0 \<or> event \<ge> int EVENT_LIST_TYPE_MAX_EVENTS then l
      else l(nat event := row_remove subscriber (l (nat event))))"

definition event_dispatch_list_remove_all ::
  "event_dispatch_list \<Rightarrow> ptr \<Rightarrow> event_dispatch_list" where
  "event_dispatch_list_remove_all l subscriber =
     fold (\<lambda>ievent l. event_dispatch_list_remove l subscriber (int ievent))
       [0..<EVENT_LIST_TYPE_MAX_EVENTS] l"

definition event_dispatch_list_add_subscribed_events ::
  "event_dispatch_list \<Rightarrow> event_list_type \<Rightarrow> event_list_type" where
  "event_dispatch_list_add_subscribed_events l all_events =
     fold (\<lambda>ievent m. if l ievent ! 0 \<noteq> None then event_list_add m (int ievent) else m)
       [0..<EVENT_LIST_TYPE_MAX_EVENTS] all_events"

fun row_for_all :: "(ptr \<Rightarrow> 's \<Rightarrow> 's) \<Rightarrow> ptr option list \<Rightarrow> 's \<Rightarrow> 's" where
  "row_for_all callback [] s = s"
| "row_for_all callback (None # r) s = s"
| "row_for_all callback (Some x # r) s = row_for_all callback r (callback x s)"

text \<open>\<open>callback\<close> is the C callback applied to its argument; it changes the state \<open>s\<close>.\<close>

definition event_dispatch_list_for_all_subscribers ::
  "event_dispatch_list \<Rightarrow> int \<Rightarrow> (ptr \<Rightarrow> 's \<Rightarrow> 's) \<Rightarrow> 's \<Rightarrow> 's" where
  "event_dispatch_list_for_all_subscribers l event callback s =
     (if event < 0 \<or> event \<ge> int EVENT_LIST_TYPE_MAX_EVENTS then s
      else row_for_all callback (l (nat event)) s)"

section \<open>Rows as lists of subscribers\<close>

fun row_subs :: "ptr option list \<Rightarrow> ptr list" where
  "row_subs [] = []"
| "row_subs (None # r) = []"
| "row_subs (Some x # r) = x # row_subs r"

definition row_ok :: "ptr option list \<Rightarrow> bool" where
  "row_ok r \<longleftrightarrow> length r = EVENT_DISPATCH_LIST_MAX_SUBSCRIBERS \<and> distinct (row_subs r)
    \<and> r = map Some (row_subs r) @ replicate (EVENT_DISPATCH_LIST_MAX_SUBSCRIBERS - length (row_subs r)) None"

lemma row_subs_append [simp]: "row_subs (map Some xs @ r) = xs @ row_subs r"
  by (induction xs) simp_all

lemma row_subs_NULLs [simp]: "row_subs (replicate n None) = []"
  by (cases n) simp_all

lemma row_subs_map [simp]: "row_subs (map Some xs) = xs"
  using row_subs_append [of xs "[]"] by simp

lemma row_okI:
  "length xs \<le> EVENT_DISPATCH_LIST_MAX_SUBSCRIBERS \<Longrightarrow> distinct xs \<Longrightarrow>
   row_ok (map Some xs @ replicate (EVENT_DISPATCH_LIST_MAX_SUBSCRIBERS - length xs) None)"
  by (simp add: row_ok_def)

lemma row_okE:
  assumes "row_ok r"
  obtains xs where "xs = row_subs r" "distinct xs" "length xs \<le> EVENT_DISPATCH_LIST_MAX_SUBSCRIBERS"
    "r = map Some xs @ replicate (EVENT_DISPATCH_LIST_MAX_SUBSCRIBERS - length xs) None"
proof
  show "length (row_subs r) \<le> EVENT_DISPATCH_LIST_MAX_SUBSCRIBERS"
    using assms unfolding row_ok_def by (metis length_append length_map le_add1)
qed (use assms in \<open>auto simp: row_ok_def\<close>)

lemma row_add_compact:
  "row_add s (map Some xs @ replicate n None) =
     (if s \<in> set xs then Some (map Some xs @ replicate n None)
      else if n = 0 then None
      else Some (map Some (xs @ [s]) @ replicate (n - 1) None))"
proof (induction xs)
  case Nil
  then show ?case by (cases n) simp_all
qed auto

lemma row_remove_compact:
  "row_remove s (map Some xs @ replicate n None) =
     map Some (remove1 s xs) @ replicate (n + (if s \<in> set xs then 1 else 0)) None"
proof (induction xs)
  case Nil
  then show ?case by (cases n) simp_all
qed (auto simp: replicate_append_same)

lemma row_for_all_fold: "row_for_all f r s = fold f (row_subs r) s"
  by (induction f r s rule: row_for_all.induct) simp_all

lemma row_first: "r \<noteq> [] \<Longrightarrow> r ! 0 \<noteq> None \<longleftrightarrow> row_subs r \<noteq> []"
  by (cases r rule: row_subs.cases) auto

section \<open>The table as a subscription relation\<close>

definition subscribers :: "event_dispatch_list \<Rightarrow> int \<Rightarrow> ptr list" where
  "subscribers l event = (if event_ok event then row_subs (l (nat event)) else [])"

definition dispatch_ok :: "event_dispatch_list \<Rightarrow> bool" where
  "dispatch_ok l \<longleftrightarrow> (\<forall>n. row_ok (l n))"

lemma row_ok_add:
  assumes "row_ok r"
  shows "case row_add s r of
      Some r' \<Rightarrow> row_ok r' \<and> (s \<in> set (row_subs r) \<or> length (row_subs r) < EVENT_DISPATCH_LIST_MAX_SUBSCRIBERS)
        \<and> row_subs r' = (if s \<in> set (row_subs r) then row_subs r else row_subs r @ [s])
    | None \<Rightarrow> s \<notin> set (row_subs r) \<and> length (row_subs r) = EVENT_DISPATCH_LIST_MAX_SUBSCRIBERS"
proof -
  obtain xs where xs: "distinct xs" "length xs \<le> EVENT_DISPATCH_LIST_MAX_SUBSCRIBERS"
    "r = map Some xs @ replicate (EVENT_DISPATCH_LIST_MAX_SUBSCRIBERS - length xs) None"
    using assms by (rule row_okE)
  show ?thesis
    using xs(1,2) row_okI [OF xs(2,1)] row_okI [of "xs @ [s]"]
    unfolding xs(3) row_add_compact by (auto simp: Suc_le_eq)
qed

lemma row_ok_remove:
  assumes "row_ok r"
  shows "row_ok (row_remove s r) \<and> row_subs (row_remove s r) = remove1 s (row_subs r)"
proof -
  obtain xs where xs: "distinct xs" "length xs \<le> EVENT_DISPATCH_LIST_MAX_SUBSCRIBERS"
    "r = map Some xs @ replicate (EVENT_DISPATCH_LIST_MAX_SUBSCRIBERS - length xs) None"
    using assms by (rule row_okE)
  have len: "length (remove1 s xs) = length xs - (if s \<in> set xs then 1 else 0)"
    by (simp add: length_remove1)
  have n: "EVENT_DISPATCH_LIST_MAX_SUBSCRIBERS - length xs + (if s \<in> set xs then 1 else 0)
      = EVENT_DISPATCH_LIST_MAX_SUBSCRIBERS - length (remove1 s xs)"
  proof (cases "s \<in> set xs")
    case True
    then have "0 < length xs" by (rule length_pos_if_in_set)
    with True xs(2) len show ?thesis by (simp only: if_True)
  qed (simp add: len)
  have "length (remove1 s xs) \<le> EVENT_DISPATCH_LIST_MAX_SUBSCRIBERS" using len xs(2) by simp
  from row_okI [OF this] xs(1) show ?thesis
    unfolding xs(3) row_remove_compact n by simp
qed

text \<open>
  The subscription interface: who is subscribed to which event, as a relation that
  the three updates change in the obvious way.
\<close>

locale event_dispatch =
  fixes invar :: "'d \<Rightarrow> bool"
    and subs :: "'d \<Rightarrow> int \<Rightarrow> ptr list"
    and add :: "'d \<Rightarrow> ptr \<Rightarrow> int \<Rightarrow> int res \<times> 'd"
    and remove :: "'d \<Rightarrow> ptr \<Rightarrow> int \<Rightarrow> 'd"
    and remove_all :: "'d \<Rightarrow> ptr \<Rightarrow> 'd"
  assumes add_law: "invar d \<Longrightarrow> add d s e = (r, d') \<Longrightarrow> invar d' \<and>
      (if \<not> event_ok e then r = Inl EINVAL \<and> d' = d
       else if s \<notin> set (subs d e) \<and> length (subs d e) = EVENT_DISPATCH_LIST_MAX_SUBSCRIBERS
         then r = Inl ENOMEM \<and> d' = d
       else r = Inr 0 \<and>
         subs d' = (subs d)(e := if s \<in> set (subs d e) then subs d e else subs d e @ [s]))"
    and remove_invar: "invar d \<Longrightarrow> invar (remove d s e)"
    and remove_subs: "invar d \<Longrightarrow> subs (remove d s e) = (subs d)(e := remove1 s (subs d e))"
    and remove_all_invar: "invar d \<Longrightarrow> invar (remove_all d s)"
    and remove_all_subs: "invar d \<Longrightarrow> subs (remove_all d s) = (\<lambda>e. remove1 s (subs d e))"
    and subs_distinct: "invar d \<Longrightarrow> distinct (subs d e)"
begin

lemma add_invar: "invar d \<Longrightarrow> invar (snd (add d s e))"
  using add_law [of d s e "fst (add d s e)" "snd (add d s e)"] by simp

lemma add_within:
  assumes "invar d" and "\<And>f. set (subs d f) \<subseteq> S" and "s \<in> S"
  shows "set (subs (snd (add d s e)) f) \<subseteq> S"
  using add_law [OF assms(1), of s e "fst (add d s e)" "snd (add d s e)"] assms(2) [of f] assms(3)
  by (auto split: if_splits)

lemma add_result: "invar d \<Longrightarrow> add d s e = (r, d') \<Longrightarrow> (\<forall>err. r = Inl err \<longrightarrow> d' = d) \<and> r \<in> {Inl EINVAL, Inl ENOMEM, Inr 0}"
  using add_law [of d s e r d'] by (auto split: if_splits)

lemma remove_within:
  "invar d \<Longrightarrow> set (subs d f) \<subseteq> S \<Longrightarrow> set (subs (remove d s e) f) \<subseteq> S"
  by (auto simp: remove_subs dest: set_mp [OF set_remove1_subset])

lemma remove_all_gone: "invar d \<Longrightarrow> s \<notin> set (subs (remove_all d s) e)"
  by (simp add: remove_all_subs subs_distinct)

lemma remove_all_within:
  "invar d \<Longrightarrow> set (subs d e) \<subseteq> S \<Longrightarrow> set (subs (remove_all d s) e) \<subseteq> S - {s}"
  by (auto simp: remove_all_subs subs_distinct)

end

lemma event_okD: "event_ok e \<Longrightarrow> 0 \<le> e \<and> nat e < EVENT_LIST_TYPE_MAX_EVENTS"
  by (auto simp: event_ok_def)

lemma subscribers_eq: "event_ok e \<Longrightarrow> subscribers l e = row_subs (l (nat e))"
  by (simp add: subscribers_def)

lemma subscribers_upd:
  "event_ok e \<Longrightarrow> subscribers (l(nat e := r)) = (subscribers l)(e := row_subs r)"
  by (auto simp: subscribers_def fun_eq_iff event_ok_def)

lemma remove_ok:
  "dispatch_ok l \<Longrightarrow> dispatch_ok (event_dispatch_list_remove l s e)
   \<and> subscribers (event_dispatch_list_remove l s e) = (subscribers l)(e := remove1 s (subscribers l e))"
  using row_ok_remove
  by (auto simp: event_dispatch_list_remove_def dispatch_ok_def fun_eq_iff subscribers_def event_ok_def)

lemma remove_fold:
  "dispatch_ok l \<Longrightarrow>
   let l' = fold (\<lambda>i l. event_dispatch_list_remove l s (int i)) xs l in
   distinct xs \<longrightarrow> dispatch_ok l' \<and> subscribers l' =
     (\<lambda>e. if e \<in> int ` set xs then remove1 s (subscribers l e) else subscribers l e)"
proof (induction xs arbitrary: l)
  case (Cons x xs)
  from Cons.prems remove_ok Cons.IH [of "event_dispatch_list_remove l s (int x)"]
  show ?case by (auto simp: fun_eq_iff Let_def)
qed simp

lemma remove_all_ok:
  assumes "dispatch_ok l"
  shows "dispatch_ok (event_dispatch_list_remove_all l s)
    \<and> subscribers (event_dispatch_list_remove_all l s) = (\<lambda>e. remove1 s (subscribers l e))"
proof -
  have "e \<notin> int ` set [0..<EVENT_LIST_TYPE_MAX_EVENTS] \<Longrightarrow> subscribers l e = []" for e
    unfolding subscribers_def by (metis atLeastLessThan_iff atLeast_upt event_okD image_eqI
        int_nat_eq lessThan_iff set_upt zero_le)
  with remove_fold [OF assms, of s "[0..<EVENT_LIST_TYPE_MAX_EVENTS]"]
  show ?thesis by (auto simp: event_dispatch_list_remove_all_def Let_def fun_eq_iff)
qed

interpretation edl: event_dispatch dispatch_ok subscribers
  event_dispatch_list_add event_dispatch_list_remove event_dispatch_list_remove_all
proof unfold_locales
  fix d s e r d'
  assume d: "dispatch_ok d" and add: "event_dispatch_list_add d s e = (r, d')"
  have row: "row_ok (d (nat e))" using d by (simp add: dispatch_ok_def)
  show "dispatch_ok d' \<and>
      (if \<not> event_ok e then r = Inl EINVAL \<and> d' = d
       else if s \<notin> set (subscribers d e) \<and> length (subscribers d e) = EVENT_DISPATCH_LIST_MAX_SUBSCRIBERS
         then r = Inl ENOMEM \<and> d' = d
       else r = Inr 0 \<and> subscribers d' = (subscribers d)
         (e := if s \<in> set (subscribers d e) then subscribers d e else subscribers d e @ [s]))"
  proof (cases "event_ok e")
    case False
    with d add show ?thesis by (auto simp: event_dispatch_list_add_def event_ok_def)
  next
    case True
    then show ?thesis
      using d add row_ok_add [OF row, of s] subscribers_upd [OF True, of d]
      unfolding event_dispatch_list_add_def event_ok_def [symmetric] dispatch_ok_def subscribers_eq [OF True]
      by (cases "row_add s (d (nat e))") (auto simp: event_ok_def)
  qed
next
  fix d e
  assume d: "dispatch_ok d"
  have row: "row_ok (d (nat e))" using d by (simp add: dispatch_ok_def)
  show "distinct (subscribers d e)"
    using row by (simp add: subscribers_def row_ok_def)
qed (simp_all add: remove_ok remove_all_ok)

section \<open>The subscribed events\<close>

lemma add_subscribed_fold:
  "dispatch_ok l \<Longrightarrow> set xs \<subseteq> {..<EVENT_LIST_TYPE_MAX_EVENTS} \<Longrightarrow>
   event_list_test (fold (\<lambda>i m. if l i ! 0 \<noteq> None then event_list_add m (int i) else m) xs m) e \<longleftrightarrow>
   event_list_test m e \<or> (e \<in> int ` set xs \<and> subscribers l e \<noteq> [])"
proof (induction xs arbitrary: m)
  case (Cons x xs)
  have "row_ok (l x)" using Cons.prems(1) by (simp add: dispatch_ok_def)
  then have "l x ! 0 \<noteq> None \<longleftrightarrow> row_subs (l x) \<noteq> []"
    by (intro row_first) (auto simp: row_ok_def)
  moreover have "event_ok (int x)" using Cons.prems(2) by (simp add: event_ok_def)
  ultimately show ?case using Cons by (auto simp: subscribers_def)
qed simp

lemma subscribed_events_iff:
  assumes "dispatch_ok l"
  shows "event_list_test (event_dispatch_list_add_subscribed_events l (event_list_clear m)) e \<longleftrightarrow>
    subscribers l e \<noteq> []"
proof -
  have "subscribers l e \<noteq> [] \<Longrightarrow> e \<in> int ` set [0..<EVENT_LIST_TYPE_MAX_EVENTS]"
    by (auto simp: subscribers_def dest!: event_okD split: if_splits intro!: image_eqI [of _ _ "nat e"])
  then show ?thesis
    unfolding event_dispatch_list_add_subscribed_events_def
    by (subst add_subscribed_fold [OF assms]) auto
qed

lemma for_all_subscribers_fold:
  "event_dispatch_list_for_all_subscribers l e f s = fold f (subscribers l e) s"
  by (simp add: event_dispatch_list_for_all_subscribers_def subscribers_def event_ok_def row_for_all_fold)

lemma dispatch_ok_init [simp]: "dispatch_ok event_dispatch_list_init"
  by (simp add: dispatch_ok_def event_dispatch_list_init_def row_ok_def)

lemma subscribers_init [simp]: "subscribers event_dispatch_list_init e = []"
  by (simp add: subscribers_def event_dispatch_list_init_def)

section \<open>Properties\<close>

text \<open>
  Extracting from an event mask returns the lowest event in it, or -1 exactly when the mask is
  empty, and removing that event leaves every other event in place: the reader of a mask sees each
  pending event once, in ascending order.
\<close>
theorem event_list_extract_remove:
  "(event_list_extract_one m < 0 \<longleftrightarrow> (\<forall>e. \<not> event_list_test m e)) \<and>
   (let e = event_list_extract_one m in
    0 \<le> e \<longrightarrow> event_list_test m e \<and> (\<forall>f<e. \<not> event_list_test m f) \<and>
      (\<forall>f. event_list_test (event_list_remove m e) f \<longleftrightarrow> event_list_test m f \<and> f \<noteq> e))"
  using event_list_extract_one_some [of m]
  by (auto simp: event_list_extract_one_none event_list_is_empty_iff Let_def)

lemma event_list_extract_remove_witness:
  "event_list_extract_one (event_list_add (event_list_add 0 9) 4) = 4"
proof -
  let ?m = "event_list_add (event_list_add (event_list_clear 0) 9) 4"
  have m: "event_list_test ?m e \<longleftrightarrow> e = 9 \<or> e = 4" for e
    by (auto simp: event_ok_def)
  define e where "e = event_list_extract_one ?m"
  have "(e < 0) = (\<forall>f. \<not> event_list_test ?m f)"
    and e: "0 \<le> e \<longrightarrow> event_list_test ?m e \<and> (\<forall>f<e. \<not> event_list_test ?m f)"
    using event_list_extract_remove [of ?m] unfolding e_def Let_def by blast+
  then have "0 \<le> e" using m [of 4] by (metis linorder_not_less)
  with e have "e = 9 \<or> e = 4" "\<not> 4 < e" unfolding m by auto
  then have "event_list_extract_one ?m = 4" by (auto simp: e_def)
  then show ?thesis by (simp add: event_list_clear_def)
qed

text \<open>
  C26: The dispatch table is a subscription relation. Every update keeps the rows compact and free of
  duplicates; subscribing fails only for an event code out of range or a full row and otherwise adds
  the subscriber once, at the end; unsubscribing removes that subscriber from that event only; removing
  all removes it from every event and touches no other subscription; an event reaches each of its
  subscribers exactly once, in the order of subscription.
\<close>
theorem event_dispatch_refines_relation:
  assumes "dispatch_ok l"
  shows "(\<forall>s e. case event_dispatch_list_add l s e of (r, l') \<Rightarrow> dispatch_ok l' \<and>
      (if \<not> event_ok e then r = Inl EINVAL \<and> l' = l
       else if s \<notin> set (subscribers l e) \<and> length (subscribers l e) = EVENT_DISPATCH_LIST_MAX_SUBSCRIBERS
         then r = Inl ENOMEM \<and> l' = l
       else r = Inr 0 \<and> subscribers l' = (subscribers l)
         (e := if s \<in> set (subscribers l e) then subscribers l e else subscribers l e @ [s])))
    \<and> (\<forall>s e. dispatch_ok (event_dispatch_list_remove l s e) \<and>
        subscribers (event_dispatch_list_remove l s e) = (subscribers l)(e := remove1 s (subscribers l e)))
    \<and> (\<forall>s. dispatch_ok (event_dispatch_list_remove_all l s) \<and>
        (\<forall>e. set (subscribers (event_dispatch_list_remove_all l s) e) = set (subscribers l e) - {s}))
    \<and> (\<forall>e. distinct (subscribers l e) \<and>
        event_dispatch_list_for_all_subscribers l e (\<lambda>s called. called @ [s]) [] = subscribers l e)"
proof (intro conjI allI)
  fix s e
  show "case event_dispatch_list_add l s e of (r, l') \<Rightarrow> dispatch_ok l' \<and>
      (if \<not> event_ok e then r = Inl EINVAL \<and> l' = l
       else if s \<notin> set (subscribers l e) \<and> length (subscribers l e) = EVENT_DISPATCH_LIST_MAX_SUBSCRIBERS
         then r = Inl ENOMEM \<and> l' = l
       else r = Inr 0 \<and> subscribers l' = (subscribers l)
         (e := if s \<in> set (subscribers l e) then subscribers l e else subscribers l e @ [s]))"
    using edl.add_law [OF assms, of s e] by (cases "event_dispatch_list_add l s e") simp
next
  fix e
  have calls: "fold (\<lambda>s called. called @ [s]) xs ys = ys @ xs" for xs ys :: "ptr list"
    by (induction xs arbitrary: ys) simp_all
  show "event_dispatch_list_for_all_subscribers l e (\<lambda>s called. called @ [s]) [] = subscribers l e"
    by (simp add: for_all_subscribers_fold calls)
qed (simp_all add: assms edl.remove_invar edl.remove_subs edl.remove_all_invar edl.remove_all_subs
    edl.subs_distinct)

lemma event_dispatch_refines_relation_witness:
  "subscribers (event_dispatch_list_remove event_dispatch_list_init 7 3) 3 = []"
  using event_dispatch_refines_relation [OF dispatch_ok_init] by simp

end
