(* ===== verification/Hw_Support.thy ===== *)
theory Hw_Support
  imports Event_List
begin

text \<open>
  The interfaces the parts of the driver share: user memory and \<open>ioctl\<close> numbers, the argument
  structures of linux-modac.h with their layout, the table of operations a hardware support
  provides (hw-support.h), the register access a platform provides and the description of a
  MNG_DEV (mng-dev.h). A hardware support is polymorphic in \<open>'s\<close>, everything its operations read
  and write: its private data and the state of the device behind it.
\<close>

section \<open>User memory\<close>

text \<open>
  The memory behind the argument of a system call, by offset; \<open>None\<close> is an address that faults.
\<close>

type_synonym umem = "nat \<Rightarrow> u8 option"

definition umem_bytes :: "umem \<Rightarrow> nat \<Rightarrow> nat \<Rightarrow> u8 list" where
  "umem_bytes m off n = map (\<lambda>i. the (m i)) [off..<off + n]"

definition copy_from_user :: "umem \<Rightarrow> nat \<Rightarrow> u8 list option" where
  "copy_from_user m n = (if \<forall>i<n. m i \<noteq> None then Some (umem_bytes m 0 n) else None)"

definition copy_to_user :: "umem \<Rightarrow> nat \<Rightarrow> u8 list \<Rightarrow> umem option" where
  "copy_to_user m off bs =
     (if \<forall>i<length bs. m (off + i) \<noteq> None
      then Some (\<lambda>a. if off \<le> a \<and> a < off + length bs then Some (bs ! (a - off)) else m a) else None)"

lemma length_umem_bytes [simp]: "length (umem_bytes m off n) = n"
  by (simp add: umem_bytes_def)

lemma copy_from_user_length: "copy_from_user m n = Some bs \<Longrightarrow> length bs = n"
  by (auto simp: copy_from_user_def split: if_splits)

text \<open>What was copied to a user buffer is what is then read from it.\<close>

lemma copy_to_from_user:
  assumes "copy_to_user m 0 bs = Some m'" and "n = length bs"
  shows "copy_from_user m' n = Some bs"
  using assms
  by (auto simp: copy_to_user_def copy_from_user_def umem_bytes_def intro!: nth_equalityI split: if_splits)

lemma copy_to_user_other:
  "copy_to_user m off bs = Some m' \<Longrightarrow> a < off \<or> off + length bs \<le> a \<Longrightarrow> m' a = m a"
  by (auto simp: copy_to_user_def split: if_splits)

section \<open>Layout of the argument structures\<close>

definition byte_at :: "u8 list \<Rightarrow> nat \<Rightarrow> u8" where
  "byte_at bs off = bs ! off"

definition u32_at :: "u8 list \<Rightarrow> nat \<Rightarrow> u32" where
  "u32_at bs off = ucast (bs ! off) OR push_bit 8 (ucast (bs ! (off + 1)))
     OR push_bit 16 (ucast (bs ! (off + 2))) OR push_bit 24 (ucast (bs ! (off + 3)))"

definition int_at :: "u8 list \<Rightarrow> nat \<Rightarrow> int" where
  "int_at bs off = sint (u32_at bs off)"

definition int_bytes :: "int \<Rightarrow> u8 list" where
  "int_bytes i = le32_bytes (word_of_int i)"

lemma length_int_bytes [simp]: "length (int_bytes i) = 4"
  by (simp add: int_bytes_def)

text \<open>
  A C string in a buffer: the characters before the first NUL. Where a buffer has none, the code's
  string functions run on into the memory behind it; the string here ends with the buffer.
\<close>

definition cstr :: "u8 list \<Rightarrow> u8 list" where
  "cstr bs = takeWhile (\<lambda>b. b \<noteq> 0) bs"

definition STRINGS_EQUAL :: "u8 list \<Rightarrow> u8 list \<Rightarrow> bool" where
  "STRINGS_EQUAL s1 s2 \<longleftrightarrow> cstr s1 = cstr s2"

text \<open>\<open>strncpy (dst, src, n)\<close>: the string, padded with NULs to \<open>n\<close> bytes.\<close>

definition strncpy :: "u8 list \<Rightarrow> nat \<Rightarrow> u8 list" where
  "strncpy src n = take n (cstr src) @ replicate (n - length (cstr src)) 0"

lemma cstr_no_NUL: "b \<in> set (cstr bs) \<Longrightarrow> b \<noteq> 0"
  unfolding cstr_def by (rule set_takeWhileD [THEN conjunct2])

lemma length_cstr: "length (cstr bs) \<le> length bs"
  by (simp add: cstr_def length_takeWhile_le)

lemma cstr_append_NUL: "(\<And>b. b \<in> set xs \<Longrightarrow> b \<noteq> 0) \<Longrightarrow> cstr (xs @ replicate n 0) = xs"
  by (induction xs) (auto simp: cstr_def takeWhile_replicate)

lemma cstr_strncpy: "length bs \<le> n \<Longrightarrow> cstr (strncpy bs n) = cstr bs"
  using cstr_append_NUL [of "cstr bs" "n - length (cstr bs)"] length_cstr [of bs]
  by (simp add: strncpy_def cstr_no_NUL)

abbreviation (input) MODAC_ID_MAX_NAME :: nat where "MODAC_ID_MAX_NAME \<equiv> 31"
abbreviation (input) MODAC_DEVICE_MAX_NAME :: nat where "MODAC_DEVICE_MAX_NAME \<equiv> 31"
abbreviation (input) MODAC_RES_TYPE_NONE :: int where "MODAC_RES_TYPE_NONE \<equiv> -1"

record mngdev_ioctl_hw_header_vres =
  vres_type :: int
  vres_index :: int

definition vres_at :: "u8 list \<Rightarrow> nat \<Rightarrow> mngdev_ioctl_hw_header_vres" where
  "vres_at bs off = \<lparr>vres_type = int_at bs off, vres_index = int_at bs (off + 4)\<rparr>"

record mngdev_ioctl_hw_header =
  hwh_vdev_id :: int
  hwh_vres :: "mngdev_ioctl_hw_header_vres list"

definition get_hw_header :: "u8 list \<Rightarrow> mngdev_ioctl_hw_header" where
  "get_hw_header bs = \<lparr>hwh_vdev_id = int_at bs 0, hwh_vres = [vres_at bs 4, vres_at bs 12]\<rparr>"

record mngdev_ioctl_vdev_ids =
  ids_id :: u8
  ids_name :: "u8 list"

definition get_vdev_ids :: "u8 list \<Rightarrow> mngdev_ioctl_vdev_ids" where
  "get_vdev_ids bs = \<lparr>ids_id = byte_at bs 0, ids_name = take (MODAC_ID_MAX_NAME + 1) (drop 1 bs)\<rparr>"

record mngdev_ioctl_destroy =
  destroy_id :: u8

definition get_destroy :: "u8 list \<Rightarrow> mngdev_ioctl_destroy" where
  "get_destroy bs = \<lparr>destroy_id = byte_at bs 0\<rparr>"

record mngdev_ioctl_res =
  res_id_vdev :: u8
  res_resource_id :: "u8 list"
  res_resource_real_index :: int
  res_arg_filter :: "int list"

text \<open>Three bytes of padding precede the first \<open>int\<close>.\<close>

definition get_ioctl_res :: "u8 list \<Rightarrow> mngdev_ioctl_res" where
  "get_ioctl_res bs = \<lparr>res_id_vdev = byte_at bs 0,
     res_resource_id = take (MODAC_ID_MAX_NAME + 1) (drop 1 bs),
     res_resource_real_index = int_at bs 36,
     res_arg_filter = map (\<lambda>i. int_at bs (40 + 4 * i)) [0..<8]\<rparr>"

record mngdev_config =
  io_memory_length :: int

definition config_bytes :: "mngdev_config \<Rightarrow> u8 list" where
  "config_bytes c = int_bytes (io_memory_length c)"

record vdev_ioctl_subscribe =
  subscribe_event :: int
  subscribe_action :: u8

definition get_subscribe :: "u8 list \<Rightarrow> vdev_ioctl_subscribe" where
  "get_subscribe bs = \<lparr>subscribe_event = int_at bs 0, subscribe_action = byte_at bs 4\<rparr>"

abbreviation (input) VIRT_DEV_IOCTL_SUBSCRIBE_ACTION_SUBSCRIBE :: u8 where
  "VIRT_DEV_IOCTL_SUBSCRIBE_ACTION_SUBSCRIBE \<equiv> 0"
abbreviation (input) VIRT_DEV_IOCTL_SUBSCRIBE_ACTION_UNSUBSCRIBE :: u8 where
  "VIRT_DEV_IOCTL_SUBSCRIBE_ACTION_UNSUBSCRIBE \<equiv> 1"
abbreviation (input) VIRT_DEV_IOCTL_SUBSCRIBE_ACTION_CLEAR :: u8 where
  "VIRT_DEV_IOCTL_SUBSCRIBE_ACTION_CLEAR \<equiv> 2"

record vdev_ioctl_status =
  status_major :: int
  status_minor :: int
  status_name :: "u8 list"

definition status_bytes :: "vdev_ioctl_status \<Rightarrow> u8 list" where
  "status_bytes s = int_bytes (status_major s) @ int_bytes (status_minor s) @ status_name s"

record vdev_ioctl_res_status =
  rs_res_type :: int
  rs_count :: int

definition get_res_status :: "u8 list \<Rightarrow> vdev_ioctl_res_status" where
  "get_res_status bs = \<lparr>rs_res_type = int_at bs 0, rs_count = int_at bs 4\<rparr>"

definition res_status_bytes :: "vdev_ioctl_res_status \<Rightarrow> u8 list" where
  "res_status_bytes r = int_bytes (rs_res_type r) @ int_bytes (rs_count r)"

lemma u32_at_le32_bytes: "u32_at (le32_bytes w @ bs) 0 = w"
proof (rule bit_word_eqI)
  fix n
  assume "n < LENGTH(32)"
  moreover have "n < 8 \<or> (\<exists>k<8. n = 8 + k) \<or> (\<exists>k<8. n = 16 + k) \<or> (\<exists>k. n = 24 + k)"
    by presburger
  ultimately show "bit (u32_at (le32_bytes w @ bs) 0) n \<longleftrightarrow> bit w n"
    by (elim disjE exE conjE) (simp_all add: u32_at_def le32_bytes_def bit_simps)
qed

lemma u32_at_append: "off + 4 \<le> length xs \<Longrightarrow> u32_at (xs @ ys) off = u32_at xs off"
  by (simp add: u32_at_def nth_append)

lemma u32_at_skip: "length xs \<le> off \<Longrightarrow> u32_at (xs @ ys) off = u32_at ys (off - length xs)"
  by (simp add: u32_at_def nth_append Suc_diff_le numeral_2_eq_2 numeral_3_eq_3)

lemma int_at_int_bytes: "- (2 ^ 31) \<le> i \<Longrightarrow> i < 2 ^ 31 \<Longrightarrow> int_at (int_bytes i @ bs) 0 = i"
  by (simp add: int_at_def int_bytes_def u32_at_le32_bytes signed_of_int
      signed_take_bit_int_eq_self)

section \<open>Numbers of \<open>ioctl\<close> commands\<close>

text \<open>The encoding of \<open>asm-generic/ioctl.h\<close>: number, type, size and direction.\<close>

definition IOC :: "u32 \<Rightarrow> u32 \<Rightarrow> u32 \<Rightarrow> u32 \<Rightarrow> u32" where
  "IOC dir typ nr sz = push_bit 30 dir OR push_bit 8 typ OR nr OR push_bit 16 sz"

definition IOC_NR :: "u32 \<Rightarrow> nat" where
  "IOC_NR cmd = unat (cmd AND 0xFF)"

definition IOC_TYPE :: "u32 \<Rightarrow> u32" where
  "IOC_TYPE cmd = drop_bit 8 cmd AND 0xFF"

definition IOC_SIZE :: "u32 \<Rightarrow> nat" where
  "IOC_SIZE cmd = unat (drop_bit 16 cmd AND 0x3FFF)"

definition IOC_DIR :: "u32 \<Rightarrow> u32" where
  "IOC_DIR cmd = drop_bit 30 cmd AND 3"

abbreviation (input) IOC_WRITE :: u32 where "IOC_WRITE \<equiv> 1"
abbreviation (input) IOC_READ :: u32 where "IOC_READ \<equiv> 2"
abbreviation (input) IOW :: "u32 \<Rightarrow> u32 \<Rightarrow> u32 \<Rightarrow> u32" where "IOW \<equiv> IOC IOC_WRITE"
abbreviation (input) IOWR :: "u32 \<Rightarrow> u32 \<Rightarrow> u32 \<Rightarrow> u32" where "IOWR \<equiv> IOC 3"

text \<open>
  The access check both drivers make on the argument; \<open>access_ok\<close> is the kernel's test of the
  argument's address range.
\<close>

definition ioctl_access_denied :: "(nat \<Rightarrow> bool) \<Rightarrow> u32 \<Rightarrow> bool" where
  "ioctl_access_denied access_ok cmd =
     (if IOC_DIR cmd AND IOC_READ \<noteq> 0 then \<not> access_ok (IOC_SIZE cmd)
      else if IOC_DIR cmd AND IOC_WRITE \<noteq> 0 then \<not> access_ok (IOC_SIZE cmd)
      else False)"

abbreviation (input) MNG_DEV_IOC_MAGIC :: u32 where "MNG_DEV_IOC_MAGIC \<equiv> 0xF0"
abbreviation (input) MNG_DEV_IOC_MAX :: nat where "MNG_DEV_IOC_MAX \<equiv> 5"
abbreviation (input) MNG_DEV_HW_IOC_MIN :: nat where "MNG_DEV_HW_IOC_MIN \<equiv> 128"
abbreviation (input) MNG_DEV_HW_IOC_MAX :: nat where "MNG_DEV_HW_IOC_MAX \<equiv> 209"
abbreviation (input) MNG_DEV_DBG_IOC_MIN :: nat where "MNG_DEV_DBG_IOC_MIN \<equiv> 240"
abbreviation (input) MNG_DEV_DBG_IOC_MAX :: nat where "MNG_DEV_DBG_IOC_MAX \<equiv> 240"
abbreviation (input) VIRT_DEV_IOC_MAGIC :: u32 where "VIRT_DEV_IOC_MAGIC \<equiv> 0xF1"
abbreviation (input) VIRT_DEV_IOC_MAX :: nat where "VIRT_DEV_IOC_MAX \<equiv> 3"
abbreviation (input) VIRT_DEV_HW_IOC_MIN :: nat where "VIRT_DEV_HW_IOC_MIN \<equiv> 128"
abbreviation (input) VIRT_DEV_HW_IOC_MAX :: nat where "VIRT_DEV_HW_IOC_MAX \<equiv> 239"
abbreviation (input) VIRT_DEV_HW_DIRECT_IOC_MIN :: nat where "VIRT_DEV_HW_DIRECT_IOC_MIN \<equiv> 210"
abbreviation (input) VIRT_DEV_HW_DIRECT_IOC_MAX :: nat where "VIRT_DEV_HW_DIRECT_IOC_MAX \<equiv> 239"
abbreviation (input) VIRT_DEV_DBG_IOC_MIN :: nat where "VIRT_DEV_DBG_IOC_MIN \<equiv> 240"
abbreviation (input) VIRT_DEV_DBG_IOC_MAX :: nat where "VIRT_DEV_DBG_IOC_MAX \<equiv> 0"

definition MNG_DEV_IOC_CREATE :: u32 where "MNG_DEV_IOC_CREATE = IOW MNG_DEV_IOC_MAGIC 1 33"
definition MNG_DEV_IOC_DESTROY :: u32 where "MNG_DEV_IOC_DESTROY = IOW MNG_DEV_IOC_MAGIC 2 1"
definition MNG_DEV_IOC_ALLOC :: u32 where "MNG_DEV_IOC_ALLOC = IOW MNG_DEV_IOC_MAGIC 3 72"
definition MNG_DEV_IOC_VIRT_DEV_FIND :: u32 where
  "MNG_DEV_IOC_VIRT_DEV_FIND = IOWR MNG_DEV_IOC_MAGIC 4 33"
definition MNG_DEV_IOC_CONFIG :: u32 where "MNG_DEV_IOC_CONFIG = IOWR MNG_DEV_IOC_MAGIC 5 4"
definition VIRT_DEV_IOC_SUBSCRIBE :: u32 where "VIRT_DEV_IOC_SUBSCRIBE = IOW VIRT_DEV_IOC_MAGIC 1 8"
definition VIRT_DEV_IOC_STATUS_GET :: u32 where "VIRT_DEV_IOC_STATUS_GET = IOWR VIRT_DEV_IOC_MAGIC 2 40"
definition VIRT_DEV_IOC_RES_STATUS_GET :: u32 where
  "VIRT_DEV_IOC_RES_STATUS_GET = IOWR VIRT_DEV_IOC_MAGIC 3 8"

lemmas ioc_defs = MNG_DEV_IOC_CREATE_def MNG_DEV_IOC_DESTROY_def MNG_DEV_IOC_ALLOC_def
  MNG_DEV_IOC_VIRT_DEV_FIND_def MNG_DEV_IOC_CONFIG_def VIRT_DEV_IOC_SUBSCRIBE_def
  VIRT_DEV_IOC_STATUS_GET_def VIRT_DEV_IOC_RES_STATUS_GET_def

lemma mng_cmds:
  "MNG_DEV_IOC_CREATE = 0x4021F001" "MNG_DEV_IOC_DESTROY = 0x4001F002"
  "MNG_DEV_IOC_ALLOC = 0x4048F003" "MNG_DEV_IOC_VIRT_DEV_FIND = 0xC021F004"
  "MNG_DEV_IOC_CONFIG = 0xC004F005" "VIRT_DEV_IOC_SUBSCRIBE = 0x4008F101"
  "VIRT_DEV_IOC_STATUS_GET = 0xC028F102" "VIRT_DEV_IOC_RES_STATUS_GET = 0xC008F103"
  by (simp_all add: ioc_defs IOC_def)

section \<open>Hardware support\<close>

record modac_rm_vres_desc =
  vd_type :: int
  vd_index :: int

text \<open>
  What a hardware support reports from an interrupt: a call of \<open>modac_mngdev_put_event\<close> or of
  \<open>modac_mngdev_notify\<close>.
\<close>

datatype hw_event = Put_Event int "u8 list" | Notify int

abbreviation (input) MODAC_RES_FLAG_EXCLUSIVE :: u32 where "MODAC_RES_FLAG_EXCLUSIVE \<equiv> 1"

record 's modac_hw_res_def =
  rd_name :: "u8 list"
  rd_type :: int
  rd_count :: nat
  rd_flags :: u32
  rd_suits :: "'s \<Rightarrow> int \<Rightarrow> int list \<Rightarrow> int"

text \<open>
  The operations of a hardware support; the ones the code allows to be NULL are options. \<open>hw_init\<close>
  gets the successive results of \<open>kmalloc\<close> and returns the table of resource definitions;
  \<open>hw_ioctl\<close> gets the resources, the command and the user memory; \<open>hw_isr\<close> returns the calls it
  makes, in their order. The pointer to the VIRT_DEV that \<open>ioctl\<close> gets is read by no
  implementation. The operations that print for debugging are not here.
\<close>

record 's modac_hw_support_def =
  hw_init :: "(nat \<Rightarrow> bool) \<Rightarrow> 's \<Rightarrow> int res \<times> 's modac_hw_res_def list \<times> 's"
  hw_end :: "'s \<Rightarrow> 's"
  hw_on_subscribe_change :: "'s \<Rightarrow> event_list_type \<Rightarrow> int res \<times> 's"
  hw_init_res :: "'s \<Rightarrow> int \<Rightarrow> int \<Rightarrow> int res \<times> 's"
  hw_isr :: "'s \<Rightarrow> hw_event list \<times> 's"
  hw_ioctl :: "('s \<Rightarrow> modac_rm_vres_desc list \<Rightarrow> u32 \<Rightarrow> umem \<Rightarrow> int res \<times> umem \<times> 's) option"
  hw_direct_ioctl :: "('s \<Rightarrow> u32 \<Rightarrow> umem \<Rightarrow> int res \<times> umem \<times> 's) option"
  hw_vdev_mmap_ro :: "('s \<Rightarrow> ulong \<Rightarrow> ulong \<Rightarrow> ulong res) option"

section \<open>Register access\<close>

text \<open>The functions a platform gives to access the registers; \<open>'h\<close> is the state of the device.\<close>

record 'h modac_io_rw_plugin =
  io_read_u16 :: "'h \<Rightarrow> u32 \<Rightarrow> u16 \<times> 'h"
  io_write_u16 :: "'h \<Rightarrow> u32 \<Rightarrow> u16 \<Rightarrow> 'h"
  io_read_u32 :: "'h \<Rightarrow> u32 \<Rightarrow> u32 \<times> 'h"
  io_write_u32 :: "'h \<Rightarrow> u32 \<Rightarrow> u32 \<Rightarrow> 'h"

text \<open>
  Any device, by what it answers: \<open>dev16\<close> and \<open>dev32\<close> give the value of a read from the
  history of all the accesses before it. The state of the device is that history, the latest access
  first; the raw (big-endian) values are on the bus.
\<close>

datatype bus_op = R16 u32 | W16 u32 u16 | R32 u32 | W32 u32 u32

definition bus_plugin ::
  "(bus_op list \<Rightarrow> u32 \<Rightarrow> u16) \<Rightarrow> (bus_op list \<Rightarrow> u32 \<Rightarrow> u32) \<Rightarrow> bus_op list modac_io_rw_plugin" where
  "bus_plugin dev16 dev32 = \<lparr>
     io_read_u16 = (\<lambda>h off. (dev16 h off, R16 off # h)),
     io_write_u16 = (\<lambda>h off v. W16 off v # h),
     io_read_u32 = (\<lambda>h off. (dev32 h off, R32 off # h)),
     io_write_u32 = (\<lambda>h off v. W32 off v # h)\<rparr>"

section \<open>The description of a MNG_DEV\<close>

text \<open>The members that are the same for every platform; \<open>io_start\<close> is NULL for the simulation.\<close>

record modac_mngdev_des =
  md_major :: int
  md_minor :: int
  md_io_start :: "ptr option"
  md_io_start_phys :: u32
  md_io_size :: ulong
  md_name :: "u8 list"
  md_hw_support_hint1 :: int

end
