(* ===== verification/Evr_Regs.thy ===== *)
theory Evr_Regs
  imports Hw_Support "HOL-Library.State_Monad"
begin

text \<open>
  The EVR's registers and data: the register map (linux-evr-regs.h), the argument structures and
  the events (linux-evrma.h), the private data of the hardware support (evr-internal.h) and the
  accesses to the registers (src/src/evr.c). An operation of the EVR is a computation in the state
  monad over the private data and the device behind the register access of the platform.
\<close>

section \<open>Registers\<close>

abbreviation (input) EVR_REG_CTRL :: u32 where "EVR_REG_CTRL \<equiv> 0x0004"
abbreviation (input) EVR_REG_IRQFLAG :: u32 where "EVR_REG_IRQFLAG \<equiv> 0x0008"
abbreviation (input) EVR_REG_IRQEN :: u32 where "EVR_REG_IRQEN \<equiv> 0x000C"
abbreviation (input) EVR_REG_DATA_BUF_CTRL :: u32 where "EVR_REG_DATA_BUF_CTRL \<equiv> 0x0020"
abbreviation (input) EVR_REG_FW_VERSION :: u32 where "EVR_REG_FW_VERSION \<equiv> 0x002C"
abbreviation (input) EVR_REG_SECONDS_SHIFT :: u32 where "EVR_REG_SECONDS_SHIFT \<equiv> 0x005C"
abbreviation (input) EVR_REG_TIMESTAMP_LATCH :: u32 where "EVR_REG_TIMESTAMP_LATCH \<equiv> 0x006C"
abbreviation (input) EVR_REG_FIFO_SECONDS :: u32 where "EVR_REG_FIFO_SECONDS \<equiv> 0x0070"
abbreviation (input) EVR_REG_FIFO_TIMESTAMP :: u32 where "EVR_REG_FIFO_TIMESTAMP \<equiv> 0x0074"
abbreviation (input) EVR_REG_FIFO_EVENT :: u32 where "EVR_REG_FIFO_EVENT \<equiv> 0x0078"
abbreviation (input) EVR_REG_PULSES :: u32 where "EVR_REG_PULSES \<equiv> 0x0200"
abbreviation (input) EVR_REG_DATA_BUF :: u32 where "EVR_REG_DATA_BUF \<equiv> 0x0800"
abbreviation (input) EVR_REG_MAPRAM1 :: u32 where "EVR_REG_MAPRAM1 \<equiv> 0x4000"
abbreviation (input) EVR_REG_MAPRAM2 :: u32 where "EVR_REG_MAPRAM2 \<equiv> 0x5000"
abbreviation (input) AXIXADC_REG_TEMPERATURE :: u32 where "AXIXADC_REG_TEMPERATURE \<equiv> 0x00030200"
abbreviation (input) AXIXADC_REG_MAXTEMPERATURE :: u32 where "AXIXADC_REG_MAXTEMPERATURE \<equiv> 0x00030280"

abbreviation (input) C_EVR_CTRL_OUTEN :: nat where "C_EVR_CTRL_OUTEN \<equiv> 27"
abbreviation (input) C_EVR_CTRL_LATCH_TIMESTAMP :: nat where "C_EVR_CTRL_LATCH_TIMESTAMP \<equiv> 10"
abbreviation (input) C_EVR_CTRL_MAP_RAM_ENABLE :: nat where "C_EVR_CTRL_MAP_RAM_ENABLE \<equiv> 9"
abbreviation (input) C_EVR_CTRL_MAP_RAM_SELECT :: nat where "C_EVR_CTRL_MAP_RAM_SELECT \<equiv> 8"
abbreviation (input) C_EVR_CTRL_RESET_EVENTFIFO :: nat where "C_EVR_CTRL_RESET_EVENTFIFO \<equiv> 3"

abbreviation (input) C_EVR_IRQ_PCIEE :: nat where "C_EVR_IRQ_PCIEE \<equiv> 30"
abbreviation (input) EVR_IRQ_MASTER_ENABLE :: u32 where "EVR_IRQ_MASTER_ENABLE \<equiv> BIT 31"
abbreviation (input) EVR_IRQFLAG_DATABUF :: u32 where "EVR_IRQFLAG_DATABUF \<equiv> BIT 5"
abbreviation (input) EVR_IRQFLAG_PULSE :: u32 where "EVR_IRQFLAG_PULSE \<equiv> BIT 4"
abbreviation (input) EVR_IRQFLAG_EVENT :: u32 where "EVR_IRQFLAG_EVENT \<equiv> BIT 3"
abbreviation (input) EVR_IRQFLAG_HEARTBEAT :: u32 where "EVR_IRQFLAG_HEARTBEAT \<equiv> BIT 2"
abbreviation (input) EVR_IRQFLAG_FIFOFULL :: u32 where "EVR_IRQFLAG_FIFOFULL \<equiv> BIT 1"
abbreviation (input) EVR_IRQFLAG_VIOLATION :: u32 where "EVR_IRQFLAG_VIOLATION \<equiv> BIT 0"

abbreviation (input) C_EVR_DATABUF_LOAD :: nat where "C_EVR_DATABUF_LOAD \<equiv> 15"
abbreviation (input) C_EVR_DATABUF_STOP :: nat where "C_EVR_DATABUF_STOP \<equiv> 14"
abbreviation (input) C_EVR_DATABUF_CHECKSUM :: nat where "C_EVR_DATABUF_CHECKSUM \<equiv> 13"
abbreviation (input) C_EVR_DATABUF_MODE :: nat where "C_EVR_DATABUF_MODE \<equiv> 12"
abbreviation (input) C_EVR_DATABUF_RXSIZE_MASK :: u32 where "C_EVR_DATABUF_RXSIZE_MASK \<equiv> 0xFFF"

abbreviation (input) C_EVR_PULSE_POLARITY :: nat where "C_EVR_PULSE_POLARITY \<equiv> 4"
abbreviation (input) C_EVR_PULSE_MAP_RESET_ENA :: nat where "C_EVR_PULSE_MAP_RESET_ENA \<equiv> 3"
abbreviation (input) C_EVR_PULSE_MAP_SET_ENA :: nat where "C_EVR_PULSE_MAP_SET_ENA \<equiv> 2"
abbreviation (input) C_EVR_PULSE_MAP_TRIG_ENA :: nat where "C_EVR_PULSE_MAP_TRIG_ENA \<equiv> 1"
abbreviation (input) C_EVR_PULSE_ENA :: nat where "C_EVR_PULSE_ENA \<equiv> 0"

abbreviation (input) EVR_REG_PULSE_SLOT_SIZE :: u32 where "EVR_REG_PULSE_SLOT_SIZE \<equiv> 16"
abbreviation (input) EVR_REG_PULSE_CTRL_OFFSET :: u32 where "EVR_REG_PULSE_CTRL_OFFSET \<equiv> 0"
abbreviation (input) EVR_REG_PULSE_PRESC_OFFSET :: u32 where "EVR_REG_PULSE_PRESC_OFFSET \<equiv> 4"
abbreviation (input) EVR_REG_PULSE_DELAY_OFFSET :: u32 where "EVR_REG_PULSE_DELAY_OFFSET \<equiv> 8"
abbreviation (input) EVR_REG_PULSE_WIDTH_OFFSET :: u32 where "EVR_REG_PULSE_WIDTH_OFFSET \<equiv> 12"
abbreviation (input) EVR_REG_FIRST_OUTPUT_FP_TTL :: u32 where "EVR_REG_FIRST_OUTPUT_FP_TTL \<equiv> 0x400"
abbreviation (input) EVR_REG_FIRST_OUTPUT_FP_UNIV :: u32 where "EVR_REG_FIRST_OUTPUT_FP_UNIV \<equiv> 0x440"
abbreviation (input) EVR_REG_FIRST_OUTPUT_TB :: u32 where "EVR_REG_FIRST_OUTPUT_TB \<equiv> 0x480"
abbreviation (input) EVR_REG_OUTPUT_SLOT_SIZE :: u32 where "EVR_REG_OUTPUT_SLOT_SIZE \<equiv> 2"
abbreviation (input) EVR_REG_MAPRAM_CLEAR_OFFSET :: u32 where "EVR_REG_MAPRAM_CLEAR_OFFSET \<equiv> 12"
abbreviation (input) EVR_REG_MAPRAM_SET_OFFSET :: u32 where "EVR_REG_MAPRAM_SET_OFFSET \<equiv> 8"
abbreviation (input) EVR_REG_MAPRAM_TRIGGET_OFFSET :: u32 where "EVR_REG_MAPRAM_TRIGGET_OFFSET \<equiv> 4"
abbreviation (input) EVR_REG_MAPRAM_INT_FUNC_OFFSET :: u32 where "EVR_REG_MAPRAM_INT_FUNC_OFFSET \<equiv> 0"
abbreviation (input) EVR_REG_MAPRAM_SLOT_SIZE :: u32 where "EVR_REG_MAPRAM_SLOT_SIZE \<equiv> 16"
abbreviation (input) C_EVR_MAP_SAVE_EVENT :: nat where "C_EVR_MAP_SAVE_EVENT \<equiv> 31"

section \<open>Events and constants of the driver\<close>

abbreviation (input) EVR_RES_TYPE_PULSEGEN :: int where "EVR_RES_TYPE_PULSEGEN \<equiv> 0"
abbreviation (input) EVR_RES_TYPE_OUTPUT :: int where "EVR_RES_TYPE_OUTPUT \<equiv> 1"
abbreviation (input) EVR_EVENT_CODES :: nat where "EVR_EVENT_CODES \<equiv> 256"
abbreviation (input) EVRMA_EVENT_ERROR_TAXI :: int where "EVRMA_EVENT_ERROR_TAXI \<equiv> 0x100"
abbreviation (input) EVRMA_EVENT_ERROR_LOST :: int where "EVRMA_EVENT_ERROR_LOST \<equiv> 0x101"
abbreviation (input) EVRMA_EVENT_ERROR_HEART :: int where "EVRMA_EVENT_ERROR_HEART \<equiv> 0x102"
abbreviation (input) EVRMA_EVENT_DELAYED_IRQ :: int where "EVRMA_EVENT_DELAYED_IRQ \<equiv> 0x104"
abbreviation (input) EVRMA_EVENT_DBUF_DATA :: int where "EVRMA_EVENT_DBUF_DATA \<equiv> 0x105"
abbreviation (input) EVR_FIFO_EVENT_LIMIT :: nat where "EVR_FIFO_EVENT_LIMIT \<equiv> 256"
abbreviation (input) EVR_MAX_PULSEGEN_COUNT :: nat where "EVR_MAX_PULSEGEN_COUNT \<equiv> 16"
abbreviation (input) OUTPUT_REG_MAPPING_FORCE_LOW :: u16 where "OUTPUT_REG_MAPPING_FORCE_LOW \<equiv> 63"
abbreviation (input) EVR_MAPRAM_EVENT_CODES :: nat where "EVR_MAPRAM_EVENT_CODES \<equiv> 256"
abbreviation (input) EVR_PULSE_CFG_BIT_CLEAR :: nat where "EVR_PULSE_CFG_BIT_CLEAR \<equiv> 0"
abbreviation (input) EVR_PULSE_CFG_BIT_SET :: nat where "EVR_PULSE_CFG_BIT_SET \<equiv> 1"
abbreviation (input) EVR_PULSE_CFG_BIT_TRIGGER :: nat where "EVR_PULSE_CFG_BIT_TRIGGER \<equiv> 2"
text \<open>\<open>1 << n\<close> on a byte.\<close>

definition CFG_BIT :: "nat \<Rightarrow> u8" where
  "CFG_BIT n = push_bit n 1"

lemma bit_CFG_BIT [simp]: "bit (CFG_BIT n) m \<longleftrightarrow> m = n \<and> n < 8"
  by (auto simp: CFG_BIT_def bit_simps)

lemma and_CFG_BIT: "n < 8 \<Longrightarrow> w AND CFG_BIT n = 0 \<longleftrightarrow> \<not> bit w n"
proof
  assume n: "n < 8" and *: "w AND CFG_BIT n = 0"
  have "bit (w AND CFG_BIT n) n \<longleftrightarrow> bit w n" using n by (simp add: bit_simps)
  with * show "\<not> bit w n" by simp
qed (auto intro!: bit_word_eqI simp: bit_simps)

lemma bit_seven: "bit (7::u8) n \<longleftrightarrow> n < 3"
proof -
  have m: "(7::u8) = mask 3" by (simp add: mask_eq_exp_minus_1)
  show ?thesis unfolding m by (auto simp only: bit_mask_iff) simp
qed

abbreviation (input) PAGE_SIZE :: ulong where "PAGE_SIZE \<equiv> 4096"

section \<open>Argument structures\<close>

text \<open>The header of a VIRT_DEV's call is the one resource it names.\<close>

record mngdev_evr_output_set =
  os_header :: mngdev_ioctl_hw_header
  os_misc_func :: int

definition get_output_set :: "u8 list \<Rightarrow> mngdev_evr_output_set" where
  "get_output_set bs = \<lparr>os_header = get_hw_header bs, os_misc_func = int_at bs 20\<rparr>"

text \<open>The structures keep the eight bytes of the header as they are; padding follows the bytes.\<close>

record vevr_ioctl_pulse_param =
  pp_header :: "u8 list"
  pp_prescaler :: u32
  pp_delay :: u32
  pp_width :: u32

definition get_pulse_param :: "u8 list \<Rightarrow> vevr_ioctl_pulse_param" where
  "get_pulse_param bs = \<lparr>pp_header = take 8 bs, pp_prescaler = u32_at bs 8, pp_delay = u32_at bs 12,
     pp_width = u32_at bs 16\<rparr>"

definition pulse_param_bytes :: "vevr_ioctl_pulse_param \<Rightarrow> u8 list" where
  "pulse_param_bytes p = pp_header p @ le32_bytes (pp_prescaler p) @ le32_bytes (pp_delay p) @ le32_bytes (pp_width p)"

record vevr_ioctl_pulse_properties =
  pr_header :: "u8 list"
  pr_enable :: u8
  pr_polarity :: u8
  pr_pulse_cfg_bits :: u8
  pr_pad :: "u8 list"

definition get_pulse_properties :: "u8 list \<Rightarrow> vevr_ioctl_pulse_properties" where
  "get_pulse_properties bs = \<lparr>pr_header = take 8 bs, pr_enable = byte_at bs 8, pr_polarity = byte_at bs 9,
     pr_pulse_cfg_bits = byte_at bs 10, pr_pad = take 1 (drop 11 bs)\<rparr>"

definition pulse_properties_bytes :: "vevr_ioctl_pulse_properties \<Rightarrow> u8 list" where
  "pulse_properties_bytes p = pr_header p @ [pr_enable p, pr_polarity p, pr_pulse_cfg_bits p] @ pr_pad p"

record vevr_ioctl_pulse_map_ram =
  mr_header :: "u8 list"
  mr_map :: "u8 list"

definition get_pulse_map_ram :: "u8 list \<Rightarrow> vevr_ioctl_pulse_map_ram" where
  "get_pulse_map_ram bs = \<lparr>mr_header = take 8 bs, mr_map = take EVR_EVENT_CODES (drop 8 bs)\<rparr>"

definition pulse_map_ram_bytes :: "vevr_ioctl_pulse_map_ram \<Rightarrow> u8 list" where
  "pulse_map_ram_bytes p = mr_header p @ mr_map p"

record vevr_ioctl_pulse_map_ram_for_event =
  me_header :: "u8 list"
  me_event_code :: u8
  me_map :: u8
  me_pad :: "u8 list"

definition get_pulse_map_ram_for_event :: "u8 list \<Rightarrow> vevr_ioctl_pulse_map_ram_for_event" where
  "get_pulse_map_ram_for_event bs = \<lparr>me_header = take 8 bs, me_event_code = byte_at bs 8, me_map = byte_at bs 9,
     me_pad = take 2 (drop 10 bs)\<rparr>"

definition pulse_map_ram_for_event_bytes :: "vevr_ioctl_pulse_map_ram_for_event \<Rightarrow> u8 list" where
  "pulse_map_ram_for_event_bytes p = me_header p @ [me_event_code p, me_map p] @ me_pad p"

record vevr_status =
  st_fpga_version :: u32
  st_irq_flags :: u32
  st_seconds_shift :: u32

definition vevr_status_bytes :: "vevr_status \<Rightarrow> u8 list" where
  "vevr_status_bytes s = le32_bytes (st_fpga_version s) @ le32_bytes (st_irq_flags s) @ le32_bytes (st_seconds_shift s)"

record evr_data_fifo_event =
  fe_seconds :: u32
  fe_timestamp :: u32

definition fifo_event_bytes :: "evr_data_fifo_event \<Rightarrow> u8 list" where
  "fifo_event_bytes e = le32_bytes (fe_seconds e) @ le32_bytes (fe_timestamp e)"

section \<open>Command numbers\<close>

definition MNG_DEV_EVR_IOC_INIT :: u32 where "MNG_DEV_EVR_IOC_INIT = IOW MNG_DEV_IOC_MAGIC 128 20"
definition MNG_DEV_EVR_IOC_OUTSET :: u32 where "MNG_DEV_EVR_IOC_OUTSET = IOW MNG_DEV_IOC_MAGIC 129 24"
definition VEVR_IOC_PULSE_PARAM_SET :: u32 where "VEVR_IOC_PULSE_PARAM_SET = IOW VIRT_DEV_IOC_MAGIC 128 20"
definition VEVR_IOC_PULSE_PROP_SET :: u32 where "VEVR_IOC_PULSE_PROP_SET = IOW VIRT_DEV_IOC_MAGIC 129 12"
definition VEVR_IOC_PULSE_PARAM_GET :: u32 where "VEVR_IOC_PULSE_PARAM_GET = IOWR VIRT_DEV_IOC_MAGIC 130 20"
definition VEVR_IOC_PULSE_PROP_GET :: u32 where "VEVR_IOC_PULSE_PROP_GET = IOWR VIRT_DEV_IOC_MAGIC 131 12"
definition VEVR_IOC_PULSE_MAP_RAM_SET :: u32 where "VEVR_IOC_PULSE_MAP_RAM_SET = IOW VIRT_DEV_IOC_MAGIC 132 264"
definition VEVR_IOC_PULSE_MAP_RAM_SET_FOR_EVENT :: u32 where
  "VEVR_IOC_PULSE_MAP_RAM_SET_FOR_EVENT = IOW VIRT_DEV_IOC_MAGIC 133 12"
definition VEVR_IOC_PULSE_MAP_RAM_GET :: u32 where "VEVR_IOC_PULSE_MAP_RAM_GET = IOWR VIRT_DEV_IOC_MAGIC 134 264"
definition VEVR_IOC_PULSE_MAP_RAM_GET_FOR_EVENT :: u32 where
  "VEVR_IOC_PULSE_MAP_RAM_GET_FOR_EVENT = IOWR VIRT_DEV_IOC_MAGIC 135 12"
definition VEVR_IOC_STATUS_GET :: u32 where "VEVR_IOC_STATUS_GET = IOWR VIRT_DEV_IOC_MAGIC 136 20"
definition VEVR_IOC_LATCHED_TIMESTAMP_GET :: u32 where
  "VEVR_IOC_LATCHED_TIMESTAMP_GET = IOWR VIRT_DEV_IOC_MAGIC 210 4"
definition VEVR_IOC_AXIXADC_TEMPERATURE_GET :: u32 where
  "VEVR_IOC_AXIXADC_TEMPERATURE_GET = IOWR VIRT_DEV_IOC_MAGIC 211 4"
definition VEVR_IOC_AXIXADC_MAXTEMPERATURE_GET :: u32 where
  "VEVR_IOC_AXIXADC_MAXTEMPERATURE_GET = IOWR VIRT_DEV_IOC_MAGIC 212 4"

lemmas evr_ioc_defs = MNG_DEV_EVR_IOC_INIT_def MNG_DEV_EVR_IOC_OUTSET_def VEVR_IOC_PULSE_PARAM_SET_def
  VEVR_IOC_PULSE_PROP_SET_def VEVR_IOC_PULSE_PARAM_GET_def VEVR_IOC_PULSE_PROP_GET_def
  VEVR_IOC_PULSE_MAP_RAM_SET_def VEVR_IOC_PULSE_MAP_RAM_SET_FOR_EVENT_def VEVR_IOC_PULSE_MAP_RAM_GET_def
  VEVR_IOC_PULSE_MAP_RAM_GET_FOR_EVENT_def VEVR_IOC_STATUS_GET_def VEVR_IOC_LATCHED_TIMESTAMP_GET_def
  VEVR_IOC_AXIXADC_TEMPERATURE_GET_def VEVR_IOC_AXIXADC_MAXTEMPERATURE_GET_def

lemma evr_cmds:
  "MNG_DEV_EVR_IOC_INIT = 0x4014F080" "MNG_DEV_EVR_IOC_OUTSET = 0x4018F081"
  "VEVR_IOC_PULSE_PARAM_SET = 0x4014F180" "VEVR_IOC_PULSE_PROP_SET = 0x400CF181"
  "VEVR_IOC_PULSE_PARAM_GET = 0xC014F182" "VEVR_IOC_PULSE_PROP_GET = 0xC00CF183"
  "VEVR_IOC_PULSE_MAP_RAM_SET = 0x4108F184" "VEVR_IOC_PULSE_MAP_RAM_SET_FOR_EVENT = 0x400CF185"
  "VEVR_IOC_PULSE_MAP_RAM_GET = 0xC108F186" "VEVR_IOC_PULSE_MAP_RAM_GET_FOR_EVENT = 0xC00CF187"
  "VEVR_IOC_STATUS_GET = 0xC014F188" "VEVR_IOC_LATCHED_TIMESTAMP_GET = 0xC004F1D2"
  "VEVR_IOC_AXIXADC_TEMPERATURE_GET = 0xC004F1D3" "VEVR_IOC_AXIXADC_MAXTEMPERATURE_GET = 0xC004F1D4"
  by (simp_all add: evr_ioc_defs IOC_def)

section \<open>The private data\<close>

record evr_pulsegen_bit_info =
  prescaler_bits :: int
  delay_bits :: int
  width_bits :: int

record evr_map_ram_item =
  int_event :: u32
  pulse_trigger :: u32
  pulse_set :: u32
  pulse_clear :: u32

record evr_type_data =
  td_name :: string
  pulsegen_count :: int
  pulsegen_data :: "evr_pulsegen_bit_info list"
  input_count :: int
  output_count :: int
  cml :: int
  univ_io :: int
  univ_io_slots :: int
  univ_gpio :: int
  univ_gpio_slots :: int
  tb_outputs :: int
  tb_inputs :: int
  td_prescalers :: int
  td_prescalers_length :: int

record evr_hw_data_out_cfg =
  res_start :: int
  res_count :: int
  evr_map_reg_start :: u32

text \<open>The simulation's data (evr-sim.c).\<close>

record pulsegen_params =
  ps_prescaler :: u32
  ps_delay :: u32
  ps_width :: u32

record evr_sim_data =
  sim_prescaler_lengths :: "int list"
  sim_pulsegen_params :: "pulsegen_params list"
  sim_output_src :: "int list"

text \<open>
  The slot for the DataBuf in the memory that the VIRT_DEVs map. \<open>slot_data\<close> is the array of 512
  words and, from index 512 on, the memory behind it.
\<close>

record evr_data_buff_slot_data =
  slot_status :: u32
  slot_size32 :: u32
  slot_data :: "nat \<Rightarrow> u32"

abbreviation (input) DATA_BUFF_WORDS :: nat where "DATA_BUFF_WORDS \<equiv> 512"

text \<open>\<open>mmap_mem\<close> is an address; \<open>map_ram\<close> and \<open>out_cfg\<close> are the arrays of 256 and 3 entries.\<close>

record evr_hw_data =
  mmap_mem :: ulong
  mmap_p :: ulong
  mmap_p_final_size :: int
  mmap_slot :: evr_data_buff_slot_data
  hd_type_data :: evr_type_data
  fw_version :: u32
  out_res_count :: int
  out_cfg :: "evr_hw_data_out_cfg list"
  map_ram :: "nat \<Rightarrow> evr_map_ram_item"
  sim :: "evr_sim_data option"

text \<open>
  The state: the private data, the counts in the resource definitions of the hardware support
  and the device with the platform's part.
\<close>

record 'h evr_state =
  ev_hw :: evr_hw_data
  ev_res_count :: "int \<Rightarrow> int"
  ev_dev :: 'h

section \<open>Register accesses\<close>

type_synonym ('h, 'a) evr = "('h evr_state, 'a) state"

definition evr_read16 :: "'h modac_io_rw_plugin \<Rightarrow> u32 \<Rightarrow> ('h, u16) evr" where
  "evr_read16 io reg = State (\<lambda>s. case io_read_u16 io (ev_dev s) reg of (v, h) \<Rightarrow> (swab16 v, s\<lparr>ev_dev := h\<rparr>))"

definition evr_write16 :: "'h modac_io_rw_plugin \<Rightarrow> u32 \<Rightarrow> u16 \<Rightarrow> ('h, unit) evr" where
  "evr_write16 io reg val = State (\<lambda>s. ((), s\<lparr>ev_dev := io_write_u16 io (ev_dev s) reg (swab16 val)\<rparr>))"

definition evr_read32 :: "'h modac_io_rw_plugin \<Rightarrow> u32 \<Rightarrow> ('h, u32) evr" where
  "evr_read32 io reg = State (\<lambda>s. case io_read_u32 io (ev_dev s) reg of (v, h) \<Rightarrow> (swab32 v, s\<lparr>ev_dev := h\<rparr>))"

definition evr_write32 :: "'h modac_io_rw_plugin \<Rightarrow> u32 \<Rightarrow> u32 \<Rightarrow> ('h, unit) evr" where
  "evr_write32 io reg val = State (\<lambda>s. ((), s\<lparr>ev_dev := io_write_u32 io (ev_dev s) reg (swab32 val)\<rparr>))"

definition get_hw :: "('h, evr_hw_data) evr" where
  "get_hw = State (\<lambda>s. (ev_hw s, s))"

definition upd_hw :: "(evr_hw_data \<Rightarrow> evr_hw_data) \<Rightarrow> ('h, unit) evr" where
  "upd_hw f = State (\<lambda>s. ((), s\<lparr>ev_hw := f (ev_hw s)\<rparr>))"

definition get_res_count :: "int \<Rightarrow> ('h, int) evr" where
  "get_res_count t = State (\<lambda>s. (ev_res_count s t, s))"

text \<open>A loop of the code over a range, with a body for its effect.\<close>

fun for_each :: "('a \<Rightarrow> ('s, unit) state) \<Rightarrow> 'a list \<Rightarrow> ('s, unit) state" where
  "for_each f [] = State_Monad.return ()"
| "for_each f (x # xs) = do { f x; for_each f xs }"

lemma run_get_hw [simp]: "run_state get_hw s = (ev_hw s, s)"
  by (simp add: get_hw_def)

lemma run_upd_hw [simp]: "run_state (upd_hw f) s = ((), s\<lparr>ev_hw := f (ev_hw s)\<rparr>)"
  by (simp add: upd_hw_def)

lemma run_get_res_count [simp]: "run_state (get_res_count t) s = (ev_res_count s t, s)"
  by (simp add: get_res_count_def)

lemma run_when_if: "run_state (if b then m1 else m2) s = (if b then run_state m1 s else run_state m2 s)"
  by simp

text \<open>On a bus: the accesses are recorded, latest first.\<close>

lemma bus_accesses [simp]:
  "run_state (evr_read16 (bus_plugin d16 d32) reg) s = (swab16 (d16 (ev_dev s) reg), s\<lparr>ev_dev := R16 reg # ev_dev s\<rparr>)"
  "run_state (evr_write16 (bus_plugin d16 d32) reg x) s = ((), s\<lparr>ev_dev := W16 reg (swab16 x) # ev_dev s\<rparr>)"
  "run_state (evr_read32 (bus_plugin d16 d32) reg) s = (swab32 (d32 (ev_dev s) reg), s\<lparr>ev_dev := R32 reg # ev_dev s\<rparr>)"
  "run_state (evr_write32 (bus_plugin d16 d32) reg y) s = ((), s\<lparr>ev_dev := W32 reg (swab32 y) # ev_dev s\<rparr>)"
  by (simp_all add: evr_read16_def evr_write16_def evr_read32_def evr_write32_def bus_plugin_def)

lemma for_each_append: "run_state (for_each f (xs @ ys)) s = run_state (for_each f ys) (snd (run_state (for_each f xs) s))"
  by (induction xs arbitrary: s) (simp_all split: prod.split)

text \<open>A loop whose body only writes to the bus.\<close>

lemma for_each_bus:
  assumes "\<And>x s. x \<in> set xs \<Longrightarrow> run_state (f x) s = ((), s\<lparr>ev_dev := g x @ ev_dev s\<rparr>)"
  shows "run_state (for_each f xs) s = ((), s\<lparr>ev_dev := concat (rev (map g xs)) @ ev_dev s\<rparr>)"
  using assms by (induction xs arbitrary: s) simp_all

lemma for_each_upd:
  assumes "\<And>x s. x \<in> set xs \<Longrightarrow> run_state (f x) s = ((), s\<lparr>ev_hw := g x (ev_hw s)\<rparr>)"
  shows "run_state (for_each f xs) s = ((), s\<lparr>ev_hw := fold g xs (ev_hw s)\<rparr>)"
  using assms by (induction xs arbitrary: s) simp_all

end
