(* ===== verification/Evr_Map_Ram.thy ===== *)
theory Evr_Map_Ram
  imports Evr_Regs
begin

text \<open>
  The Map RAM of the EVR (src/src/evr.c): for each of the 256 event codes the pulse generators it
  clears, sets and triggers and the internal functions it has. The driver keeps a copy and writes all of it
  to the one of the two banks that the hardware does not use, before it switches to it.
\<close>

section \<open>Operations\<close>

definition save_map_ram :: "'h modac_io_rw_plugin \<Rightarrow> u32 \<Rightarrow> ('h, unit) evr" where
  "save_map_ram io address = for_each (\<lambda>i. do {
     hw_data \<leftarrow> get_hw;
     evr_write32 io (address + of_nat i * EVR_REG_MAPRAM_SLOT_SIZE + EVR_REG_MAPRAM_CLEAR_OFFSET) (pulse_clear (map_ram hw_data i));
     evr_write32 io (address + of_nat i * EVR_REG_MAPRAM_SLOT_SIZE + EVR_REG_MAPRAM_SET_OFFSET) (pulse_set (map_ram hw_data i));
     evr_write32 io (address + of_nat i * EVR_REG_MAPRAM_SLOT_SIZE + EVR_REG_MAPRAM_TRIGGET_OFFSET) (pulse_trigger (map_ram hw_data i));
     evr_write32 io (address + of_nat i * EVR_REG_MAPRAM_SLOT_SIZE + EVR_REG_MAPRAM_INT_FUNC_OFFSET) (int_event (map_ram hw_data i))
   }) [0..<EVR_MAPRAM_EVENT_CODES]"

definition evr_ram_map_change_flush :: "'h modac_io_rw_plugin \<Rightarrow> ('h, unit) evr" where
  "evr_ram_map_change_flush io = do {
     ctrl \<leftarrow> evr_read32 io EVR_REG_CTRL;
     let newram_offset = (if drop_bit C_EVR_CTRL_MAP_RAM_SELECT ctrl AND 1 \<noteq> 0 then EVR_REG_MAPRAM1 else EVR_REG_MAPRAM2);
     save_map_ram io newram_offset;
     let ctrl = ctrl AND NOT (BIT C_EVR_CTRL_MAP_RAM_ENABLE OR BIT C_EVR_CTRL_MAP_RAM_SELECT);
     let ctrl = ctrl OR BIT C_EVR_CTRL_MAP_RAM_ENABLE;
     let ctrl = (if newram_offset = EVR_REG_MAPRAM2 then ctrl OR BIT C_EVR_CTRL_MAP_RAM_SELECT else ctrl);
     evr_write32 io EVR_REG_CTRL ctrl
   }"

definition zero_item :: evr_map_ram_item where
  "zero_item = \<lparr>int_event = 0, pulse_trigger = 0, pulse_set = 0, pulse_clear = 0\<rparr>"

text \<open>The internal functions of the events that the EVR needs, the same as in the older driver.\<close>

definition initial_map_ram :: "nat \<Rightarrow> evr_map_ram_item" where
  "initial_map_ram = (\<lambda>_. zero_item)
     (0x70 := zero_item\<lparr>int_event := BIT 0\<rparr>,
      0x71 := zero_item\<lparr>int_event := BIT 1\<rparr>,
      0x7a := zero_item\<lparr>int_event := BIT 5\<rparr>,
      0x7b := zero_item\<lparr>int_event := BIT 4\<rparr>,
      0x7c := zero_item\<lparr>int_event := BIT 2\<rparr>,
      0x7d := zero_item\<lparr>int_event := BIT 3\<rparr>)"

definition evr_ram_map_init :: "'h modac_io_rw_plugin \<Rightarrow> ('h, unit) evr" where
  "evr_ram_map_init io = do {
     upd_hw (\<lambda>hw. hw\<lparr>map_ram := initial_map_ram\<rparr>);
     evr_ram_map_change_flush io
   }"

text \<open>The loops that change the entries of the copy for a range of event codes.\<close>

definition ram_mapped :: "nat \<Rightarrow> nat \<Rightarrow> (nat \<Rightarrow> evr_map_ram_item \<Rightarrow> evr_map_ram_item) \<Rightarrow>
    (nat \<Rightarrow> evr_map_ram_item) \<Rightarrow> nat \<Rightarrow> evr_map_ram_item" where
  "ram_mapped first n g ram e = (if first \<le> e \<and> e < first + n then g (e - first) (ram e) else ram e)"

lemma fold_map_ram:
  "fold (\<lambda>i hw. hw\<lparr>map_ram := (map_ram hw)(first + i := g i (map_ram hw (first + i)))\<rparr>) [0..<n] hw
   = hw\<lparr>map_ram := ram_mapped first n g (map_ram hw)\<rparr>"
proof (induction n)
  case 0
  have "ram_mapped first 0 g ram = ram" for ram by (auto simp: ram_mapped_def fun_eq_iff)
  then show ?case by simp
next
  case (Suc n)
  have "(ram_mapped first n g ram)(first + n := g n (ram_mapped first n g ram (first + n))) = ram_mapped first (Suc n) g ram" for ram
    by (auto simp: ram_mapped_def fun_eq_iff)
  then show ?case by (simp add: Suc.IH del: fun_upd_apply)
qed

lemma run_map_ram_loop:
  "run_state (for_each (\<lambda>i. upd_hw (\<lambda>hw. hw\<lparr>map_ram := (map_ram hw)(first + i := g i (map_ram hw (first + i)))\<rparr>)) [0..<n]) s
   = ((), s\<lparr>ev_hw := (ev_hw s)\<lparr>map_ram := ram_mapped first n g (map_ram (ev_hw s))\<rparr>\<rparr>)"
  unfolding fold_map_ram [symmetric] by (rule for_each_upd) simp

section \<open>What is written to the bus\<close>

text \<open>The value of a register after the accesses, as the driver wrote it last.\<close>

fun written :: "bus_op list \<Rightarrow> u32 \<Rightarrow> u32 option" where
  "written [] a = None"
| "written (W32 b v # ops) a = (if a = b then Some (swab32 v) else written ops a)"
| "written (_ # ops) a = written ops a"

fun write_addrs :: "bus_op list \<Rightarrow> u32 list" where
  "write_addrs [] = []"
| "write_addrs (W32 b v # ops) = b # write_addrs ops"
| "write_addrs (_ # ops) = write_addrs ops"

lemma written_append: "written (xs @ ys) a = (case written xs a of Some v \<Rightarrow> Some v | None \<Rightarrow> written ys a)"
  by (induction xs a rule: written.induct) auto

lemma write_addrs_append [simp]: "write_addrs (xs @ ys) = write_addrs xs @ write_addrs ys"
  by (induction xs rule: write_addrs.induct) auto

lemma written_None: "a \<notin> set (write_addrs ops) \<Longrightarrow> written ops a = None"
  by (induction ops rule: write_addrs.induct) auto

lemma write_addrs_in: "a \<in> set (write_addrs ops) \<Longrightarrow> \<exists>v. W32 a v \<in> set ops"
  by (induction ops rule: write_addrs.induct) auto

lemma written_concat:
  assumes "x \<in> set xs" and "\<And>y. y \<in> set xs \<Longrightarrow> y \<noteq> x \<Longrightarrow> a \<notin> set (write_addrs (g y))" and "written (g x) a = Some v"
  shows "written (concat (map g xs)) a = Some v"
  using assms
proof (induction xs)
  case (Cons y xs)
  show ?case
  proof (cases "x \<in> set xs")
    case True
    with Cons.IH Cons.prems(2) assms(3) have "written (concat (map g xs)) a = Some v" by simp
    moreover have "y \<noteq> x \<Longrightarrow> written (g y) a = None" using Cons.prems(2) [of y] by (intro written_None) simp
    ultimately show ?thesis using assms(3) by (cases "y = x") (simp_all add: written_append)
  qed (use Cons.prems in \<open>simp add: written_append\<close>)
qed simp

text \<open>The writes of one event code, latest first.\<close>

definition slot_writes :: "u32 \<Rightarrow> (nat \<Rightarrow> evr_map_ram_item) \<Rightarrow> nat \<Rightarrow> bus_op list" where
  "slot_writes address ram i =
     [W32 (address + of_nat i * 16) (swab32 (int_event (ram i))),
      W32 (address + of_nat i * 16 + 4) (swab32 (pulse_trigger (ram i))),
      W32 (address + of_nat i * 16 + 8) (swab32 (pulse_set (ram i))),
      W32 (address + of_nat i * 16 + 12) (swab32 (pulse_clear (ram i)))]"

definition bank_writes :: "u32 \<Rightarrow> (nat \<Rightarrow> evr_map_ram_item) \<Rightarrow> bus_op list" where
  "bank_writes address ram = concat (map (slot_writes address ram) (rev [0..<256]))"

lemma run_save_map_ram:
  "run_state (save_map_ram (bus_plugin d16 d32) address) s =
     ((), s\<lparr>ev_dev := bank_writes address (map_ram (ev_hw s)) @ ev_dev s\<rparr>)"
proof -
  have "run_state (for_each f xs) s = ((), s\<lparr>ev_dev := concat (map (slot_writes address (map_ram (ev_hw s))) (rev xs)) @ ev_dev s\<rparr>)"
    if f: "\<And>i s. run_state (f i) s = ((), s\<lparr>ev_dev := slot_writes address (map_ram (ev_hw s)) i @ ev_dev s\<rparr>)"
    for f :: "nat \<Rightarrow> (bus_op list, unit) evr" and xs
    by (induction xs arbitrary: s) (simp_all add: f)
  then show ?thesis unfolding save_map_ram_def bank_writes_def by (simp add: slot_writes_def)
qed

text \<open>The register of a field of an event code in a bank, \<open>k\<close> counting the words of the entry.\<close>

definition ram_reg :: "u32 \<Rightarrow> nat \<Rightarrow> nat \<Rightarrow> u32" where
  "ram_reg address i k = address + of_nat (16 * i + 4 * k)"

definition ram_field :: "evr_map_ram_item \<Rightarrow> nat \<Rightarrow> u32" where
  "ram_field item k = [int_event item, pulse_trigger item, pulse_set item, pulse_clear item] ! k"

abbreviation (input) is_bank :: "u32 \<Rightarrow> bool" where
  "is_bank address \<equiv> address = EVR_REG_MAPRAM1 \<or> address = EVR_REG_MAPRAM2"

lemma slot_writes_regs:
  "slot_writes address ram i = map (\<lambda>k. W32 (ram_reg address i k) (swab32 (ram_field (ram i) k))) [0..<4]"
  by (simp add: slot_writes_def ram_reg_def ram_field_def upt_rec algebra_simps)

lemma unat_bank_add:
  assumes "is_bank address" and "n < 4096"
  shows "unat (address + of_nat n) = unat address + n"
proof -
  have n: "unat (of_nat n :: u32) = n" using assms(2) by (simp only: unsigned_of_nat) (simp add: take_bit_nat_eq_self_iff)
  have "unat address + unat (of_nat n :: u32) < 2 ^ LENGTH(32)" unfolding n using assms by auto
  then have "unat (address + of_nat n) = unat address + unat (of_nat n :: u32)" by (rule unat_add_lem [THEN iffD1])
  then show ?thesis unfolding n .
qed

lemma unat_ram_reg: "is_bank address \<Longrightarrow> i < 256 \<Longrightarrow> k < 4 \<Longrightarrow> unat (ram_reg address i k) = unat address + (16 * i + 4 * k)"
  unfolding ram_reg_def by (rule unat_bank_add) simp_all

lemma ram_reg_inj:
  assumes "is_bank a" "i < 256" "k < 4" "j < 256" "l < 4"
  shows "ram_reg a i k = ram_reg a j l \<longleftrightarrow> i = j \<and> k = l"
proof
  assume "ram_reg a i k = ram_reg a j l"
  then have "unat (ram_reg a i k) = unat (ram_reg a j l)" by simp
  then have "16 * i + 4 * k = 16 * j + 4 * l" using assms by (simp add: unat_ram_reg)
  with assms(3,5) show "i = j \<and> k = l" by presburger
qed simp

lemma write_addrs_slot: "set (write_addrs (slot_writes address ram i)) = ram_reg address i ` {..<4}"
proof -
  have "write_addrs (map (\<lambda>k. W32 (f k) (g k)) ks) = map f ks" for f g and ks :: "nat list"
    by (induction ks) simp_all
  then show ?thesis unfolding slot_writes_regs by (simp add: atLeast0LessThan)
qed

lemma written_slot:
  assumes "is_bank address" "i < 256" "k < 4"
  shows "written (slot_writes address ram i) (ram_reg address i k) = Some (ram_field (ram i) k)"
proof -
  have "written (map (\<lambda>l. W32 (ram_reg address i l) (swab32 (ram_field (ram i) l))) ks) (ram_reg address i k)
    = Some (ram_field (ram i) k)" if "k \<in> set ks" "set ks \<subseteq> {..<4}" for ks
    using that by (induction ks) (auto simp: ram_reg_inj assms)
  from this [of "[0..<4]"] assms(3) show ?thesis unfolding slot_writes_regs by (simp add: lessThan_atLeast0)
qed

text \<open>A bank holds the copy after it was written, and only its own addresses were written.\<close>

lemma written_bank:
  assumes "is_bank address" "i < 256" "k < 4"
  shows "written (bank_writes address ram) (ram_reg address i k) = Some (ram_field (ram i) k)"
  unfolding bank_writes_def
  by (rule written_concat [of i]) (use assms in \<open>auto simp: write_addrs_slot ram_reg_inj written_slot\<close>)

lemma bank_writes_within:
  assumes "is_bank address" "op \<in> set (bank_writes address ram)"
  shows "\<exists>a v. op = W32 a v \<and> address \<le> a \<and> a < address + 0x1000"
proof -
  from assms(2) obtain i k where ik: "i < 256" "k < 4" "op = W32 (ram_reg address i k) (swab32 (ram_field (ram i) k))"
    by (auto simp: bank_writes_def slot_writes_regs)
  have "unat (address + 0x1000) = unat address + 0x1000" using assms(1) by auto
  then have "address \<le> ram_reg address i k \<and> ram_reg address i k < address + 0x1000"
    using unat_ram_reg [OF assms(1) ik(1,2)] ik by (simp add: word_le_nat_alt word_less_nat_alt)
  with ik show ?thesis by blast
qed

section \<open>Property\<close>

text \<open>The values of the control register that the switch writes.\<close>

definition ctrl_switched :: "u32 \<Rightarrow> u32" where
  "ctrl_switched ctrl = put_bit C_EVR_CTRL_MAP_RAM_SELECT (\<not> bit ctrl C_EVR_CTRL_MAP_RAM_SELECT)
     (put_bit C_EVR_CTRL_MAP_RAM_ENABLE True ctrl)"

lemma run_flush:
  "run_state (evr_ram_map_change_flush (bus_plugin d16 d32)) s =
    (let ctrl = swab32 (d32 (ev_dev s) EVR_REG_CTRL);
         bank = (if bit ctrl C_EVR_CTRL_MAP_RAM_SELECT then EVR_REG_MAPRAM1 else EVR_REG_MAPRAM2)
     in ((), s\<lparr>ev_dev := W32 EVR_REG_CTRL (swab32 (ctrl_switched ctrl)) # bank_writes bank (map_ram (ev_hw s))
           @ R32 EVR_REG_CTRL # ev_dev s\<rparr>))"
proof -
  let ?ctrl = "swab32 (d32 (ev_dev s) EVR_REG_CTRL)"
  have sel: "drop_bit 8 c AND 1 \<noteq> 0 \<longleftrightarrow> bit c 8" for c :: u32
    by (simp add: and_one_eq bit_iff_odd_drop_bit odd_iff_mod_2_eq_one mod2_eq_if)
  have new: "(if b then EVR_REG_MAPRAM1 else EVR_REG_MAPRAM2) = EVR_REG_MAPRAM2 \<longleftrightarrow> \<not> b" for b by simp
  have c: "\<not> bit c 8 \<Longrightarrow> ((c AND NOT (BIT 9) AND NOT (BIT 8)) OR BIT 9) OR BIT 8 = ctrl_switched c"
    "bit c 8 \<Longrightarrow> (c AND NOT (BIT 9) AND NOT (BIT 8)) OR BIT 9 = ctrl_switched c" for c
    by (rule bit_word_eqI; auto simp: ctrl_switched_def bit_put_bit bit_simps)+
  show ?thesis
    by (simp add: evr_ram_map_change_flush_def run_save_map_ram sel Let_def c)
qed

text \<open>The flush only writes to the two banks and to the control register.\<close>

lemma flush_ops:
  "\<exists>ops. run_state (evr_ram_map_change_flush (bus_plugin d16 d32)) s = ((), s\<lparr>ev_dev := ops @ ev_dev s\<rparr>)
    \<and> EVR_REG_IRQEN \<notin> set (write_addrs ops)"
proof -
  define bank where "bank = (if bit (swab32 (d32 (ev_dev s) EVR_REG_CTRL)) C_EVR_CTRL_MAP_RAM_SELECT then EVR_REG_MAPRAM1 else EVR_REG_MAPRAM2)"
  have bank: "is_bank bank" by (simp add: bank_def)
  have "EVR_REG_IRQEN \<notin> set (write_addrs (bank_writes bank ram))" for ram
  proof
    assume "EVR_REG_IRQEN \<in> set (write_addrs (bank_writes bank ram))"
    then obtain v where "W32 EVR_REG_IRQEN v \<in> set (bank_writes bank ram)" by (auto dest: write_addrs_in)
    with bank_writes_within [OF bank] have "bank \<le> EVR_REG_IRQEN" by blast
    with bank show False by auto
  qed
  then show ?thesis
    by (intro exI [of _ "W32 EVR_REG_CTRL (swab32 (ctrl_switched (swab32 (d32 (ev_dev s) EVR_REG_CTRL))))
        # bank_writes bank (map_ram (ev_hw s)) @ [R32 EVR_REG_CTRL]"])
      (simp add: run_flush Let_def bank_def [symmetric])
qed

text \<open>
  C28: A change of the Map RAM is double-buffered: the driver reads which bank is in use, writes the
  whole copy, all four words of all 256 event codes, to the other bank only, and then selects that
  bank with one write of the control register, which changes no other bit but the enable bit that it
  sets. The hardware never uses a half-written bank, whatever the device answers.
\<close>
theorem map_ram_flush_double_buffer:
  assumes "run_state (evr_ram_map_change_flush (bus_plugin d16 d32)) s = ((), s1)"
    and "swab32 (d32 (ev_dev s) EVR_REG_CTRL) = ctrl"
    and "bank = (if bit ctrl C_EVR_CTRL_MAP_RAM_SELECT then EVR_REG_MAPRAM1 else EVR_REG_MAPRAM2)"
  shows "ev_hw s1 = ev_hw s \<and> (\<exists>ctrl1 ws. ev_dev s1 = W32 EVR_REG_CTRL (swab32 ctrl1) # ws @ R32 EVR_REG_CTRL # ev_dev s
     \<and> (\<forall>op\<in>set ws. \<exists>a v. op = W32 a v \<and> bank \<le> a \<and> a < bank + 0x1000)
     \<and> (\<forall>i<256. \<forall>k<4. written ws (ram_reg bank i k) = Some (ram_field (map_ram (ev_hw s) i) k))
     \<and> (\<forall>n<32. bit ctrl1 n \<longleftrightarrow> (if n = C_EVR_CTRL_MAP_RAM_SELECT then \<not> bit ctrl n
          else n = C_EVR_CTRL_MAP_RAM_ENABLE \<or> bit ctrl n)))"
proof -
  have bank: "is_bank bank" using assms(3) by simp
  have "s1 = s\<lparr>ev_dev := W32 EVR_REG_CTRL (swab32 (ctrl_switched ctrl)) # bank_writes bank (map_ram (ev_hw s))
      @ R32 EVR_REG_CTRL # ev_dev s\<rparr>"
    using assms by (simp add: run_flush Let_def)
  moreover have "\<forall>n<32. bit (ctrl_switched ctrl) n \<longleftrightarrow> (if n = C_EVR_CTRL_MAP_RAM_SELECT then \<not> bit ctrl n
      else n = C_EVR_CTRL_MAP_RAM_ENABLE \<or> bit ctrl n)"
    by (auto simp: ctrl_switched_def bit_put_bit)
  ultimately show ?thesis
    using bank_writes_within [OF bank] written_bank [OF bank] by (intro conjI exI) auto
qed

text \<open>
  \<open>kzalloc\<close> of the private data: zeros at the address \<open>addr\<close>, and the memory behind the mapped slot.
\<close>

definition zero_hw_data :: "ulong \<Rightarrow> (nat \<Rightarrow> u32) \<Rightarrow> evr_hw_data" where
  "zero_hw_data addr behind = \<lparr>mmap_mem = addr, mmap_p = 0, mmap_p_final_size = 0,
     mmap_slot = \<lparr>slot_status = 0, slot_size32 = 0, slot_data = (\<lambda>i. if i < DATA_BUFF_WORDS then 0 else behind i)\<rparr>,
     hd_type_data = \<lparr>td_name = [], pulsegen_count = 0, pulsegen_data = [], input_count = 0, output_count = 0,
       cml = 0, univ_io = 0, univ_io_slots = 0, univ_gpio = 0, univ_gpio_slots = 0, tb_outputs = 0, tb_inputs = 0,
       td_prescalers = 0, td_prescalers_length = 0\<rparr>,
     fw_version = 0, out_res_count = 0, out_cfg = replicate 3 \<lparr>res_start = 0, res_count = 0, evr_map_reg_start = 0\<rparr>,
     map_ram = (\<lambda>_. zero_item), sim = None\<rparr>"

text \<open>An EVR for the witnesses: no pulse generators yet, all zero, at some address.\<close>

definition hw_ex :: evr_hw_data where
  "hw_ex = (zero_hw_data 0xFFFF888000001000 (\<lambda>_. 0))\<lparr>map_ram := initial_map_ram\<rparr>"

definition evr_ex :: "bus_op list evr_state" where
  "evr_ex = \<lparr>ev_hw = hw_ex, ev_res_count = (\<lambda>_. 0), ev_dev = []\<rparr>"

text \<open>A device that answers 0 to every read.\<close>

abbreviation (input) io_ex :: "bus_op list modac_io_rw_plugin" where
  "io_ex \<equiv> bus_plugin (\<lambda>_ _. 0) (\<lambda>_ _. 0)"

lemma map_ram_flush_double_buffer_witness:
  "\<exists>ctrl ws. ev_dev (snd (run_state (evr_ram_map_change_flush io_ex) evr_ex)) = W32 EVR_REG_CTRL ctrl # ws @ [R32 EVR_REG_CTRL]
     \<and> written ws (ram_reg EVR_REG_MAPRAM2 0x70 0) = Some (BIT 0)"
proof -
  obtain s1 where run: "run_state (evr_ram_map_change_flush io_ex) evr_ex = ((), s1)"
    by (cases "run_state (evr_ram_map_change_flush io_ex) evr_ex") auto
  have 0: "swab32 0 = 0" by (simp add: swab32_def)
  from map_ram_flush_double_buffer [OF run 0 refl]
  obtain ctrl ws where dev: "ev_dev s1 = W32 EVR_REG_CTRL (swab32 ctrl) # ws @ [R32 EVR_REG_CTRL]"
    and ws: "\<forall>i<256. \<forall>k<4. written ws (ram_reg EVR_REG_MAPRAM2 i k) = Some (ram_field (map_ram hw_ex i) k)"
    by (auto simp: evr_ex_def)
  from ws [rule_format, of "0x70" 0] dev run show ?thesis
    by (auto simp: ram_field_def hw_ex_def initial_map_ram_def)
qed

end
