(* ===== verification/Evr_Core.thy ===== *)
theory Evr_Core
  imports Evr_Map_Ram
begin

text \<open>
  The hardware support of the EVR (src/src/evr.c) up to its \<open>ioctl\<close>: the tables of the EVR types, the
  start and the end, how well a pulse generator suits an allocation, the mapping of outputs, the
  reset of a resource, the calls that bypass the lock, and the memory the VIRT_DEVs map.
\<close>

section \<open>Types of EVRs\<close>

definition bits_info :: "int \<Rightarrow> int \<Rightarrow> int \<Rightarrow> evr_pulsegen_bit_info" where
  "bits_info p d w = \<lparr>prescaler_bits = p, delay_bits = d, width_bits = w\<rparr>"

text \<open>The numbers after the pulse generators, in the order of the members.\<close>

definition type_data :: "string \<Rightarrow> int \<Rightarrow> evr_pulsegen_bit_info list \<Rightarrow> int list \<Rightarrow> evr_type_data" where
  "type_data name count pulses ns = \<lparr>td_name = name, pulsegen_count = count,
     pulsegen_data = take EVR_MAX_PULSEGEN_COUNT (pulses @ replicate EVR_MAX_PULSEGEN_COUNT (bits_info 0 0 0)),
     input_count = ns ! 0, output_count = ns ! 1, cml = ns ! 2, univ_io = ns ! 3, univ_io_slots = ns ! 4,
     univ_gpio = ns ! 5, univ_gpio_slots = ns ! 6, tb_outputs = ns ! 7, tb_inputs = ns ! 8,
     td_prescalers = ns ! 9, td_prescalers_length = ns ! 10\<rparr>"

abbreviation (input) EVR_TYPE_DOCD_COUNT :: int where "EVR_TYPE_DOCD_COUNT \<equiv> 10"

definition documented_evr_type_data_table :: "evr_type_data list" where
  "documented_evr_type_data_table = [
     type_data ''cPCI-EVR-230'' 10 (replicate 4 (bits_info 16 32 32) @ replicate 6 (bits_info 0 32 16))
       [2, 0, 0, 4, 2, 8, 2, 0, 0, 3, 32],
     type_data ''PMC-EVR-230'' 10 (replicate 2 (bits_info 16 32 32) @ replicate 2 (bits_info 8 32 16) @ replicate 6 (bits_info 0 32 16))
       [1, 3, 0, 0, 0, 0, 0, 10, 0, 3, 16],
     type_data ''VME-EVR-230'' 16 (replicate 4 (bits_info 16 32 24) @ replicate 12 (bits_info 0 32 24))
       [2, 8, 0, 4, 2, 8, 2, 16, 16, 3, 32],
     type_data ''VME-EVR-230RF'' 16 (replicate 4 (bits_info 8 32 16) @ replicate 12 (bits_info 0 32 16))
       [2, 4, 3, 4, 2, 8, 2, 16, 16, 3, 16],
     type_data ''cPCI-EVRTG-300'' 10 (replicate 4 (bits_info 16 32 32) @ replicate 6 (bits_info 0 32 16))
       [0, 0, 8, 4, 2, 8, 2, 0, 0, 3, 32],
     type_data ''cPCI-EVR-300'' 14 (replicate 4 (bits_info 16 32 32) @ replicate 10 (bits_info 0 32 16))
       [2, 0, 0, 12, 6, 8, 2, 0, 0, 3, 32],
     type_data ''cRIO-EVR-300'' 8 (replicate 4 (bits_info 16 32 32) @ replicate 4 (bits_info 0 32 16))
       [0, 0, 0, 4, 0, 0, 0, 0, 0, 3, 16],
     type_data ''PCIe-EVR-300'' 16 (replicate 4 (bits_info 16 32 32) @ replicate 12 (bits_info 0 32 16))
       [0, 0, 0, 16, 8, 0, 0, 0, 0, 3, 16],
     type_data ''PXIe-EVR-300I'' 16 (replicate 4 (bits_info 16 32 32) @ replicate 12 (bits_info 0 32 16))
       [2, 0, 0, 16, 8, 0, 0, 58, 42, 4, 32],
     type_data ''PXIe-EVR-300U'' 16 (replicate 4 (bits_info 16 32 32) @ replicate 12 (bits_info 0 32 16))
       [2, 0, 0, 4, 2, 8, 2, 58, 42, 4, 32]]"

abbreviation (input) EVR_TYPE_ADHOC_SLAC_FW_VERSION :: u32 where "EVR_TYPE_ADHOC_SLAC_FW_VERSION \<equiv> 0x1f000000"
abbreviation (input) EVR_TYPE_ADHOC_SLAC_FW_VERSION_MASK :: u32 where "EVR_TYPE_ADHOC_SLAC_FW_VERSION_MASK \<equiv> 0xFF000000"
abbreviation (input) EVR_TYPE_EMCOR_FW_VERSION :: u32 where "EVR_TYPE_EMCOR_FW_VERSION \<equiv> 0x1f000003"

definition adhoc_evr_type_slac_general :: evr_type_data where
  "adhoc_evr_type_slac_general = type_data ''EVR-SLAC-GENERAL'' 12 (replicate 12 (bits_info 32 32 32))
     [0, 0, 0, 12, 0, 0, 0, 0, 0, 0, 0]"

definition adhoc_evr_type_emcor :: evr_type_data where
  "adhoc_evr_type_emcor = type_data ''EMCOR'' 0 [] [0, 0, 0, 0, 0, 0, 0, 0, 0, 0, 0]"

definition evr_card_is_slac :: "u32 \<Rightarrow> bool" where
  "evr_card_is_slac fw = (drop_bit 24 fw = 0x1f)"

section \<open>Allocation of pulse generators and outputs\<close>

definition pulsegen_property_suitability :: "int \<Rightarrow> int \<Rightarrow> int" where
  "pulsegen_property_suitability tested wanted = (if tested < wanted then 0 else 32 + wanted - tested + 1)"

definition pulsegen_suits :: "'h evr_state \<Rightarrow> int \<Rightarrow> int list \<Rightarrow> int" where
  "pulsegen_suits s index arg_filters =
     (let td = hd_type_data (ev_hw s);
          prescaler_length = arg_filters ! 0; delay_length = arg_filters ! 1; width_length = arg_filters ! 2
      in if index < 0 \<or> index \<ge> pulsegen_count td then 0
         else
           let info = pulsegen_data td ! nat index;
               s1 = pulsegen_property_suitability (prescaler_bits info) prescaler_length
           in if s1 < 1 then 0
              else let s2 = pulsegen_property_suitability (delay_bits info) delay_length
              in if s2 < 1 then 0
                 else let s3 = pulsegen_property_suitability (width_bits info) width_length
                 in if s3 < 1 then 0 else s1 + s2 + s3)"

definition output_suits :: "'h evr_state \<Rightarrow> int \<Rightarrow> int list \<Rightarrow> int" where
  "output_suits s index arg_filters = 0"

section \<open>Outputs\<close>

definition evr_output_enable :: "'h modac_io_rw_plugin \<Rightarrow> bool \<Rightarrow> ('h, unit) evr" where
  "evr_output_enable io enable = do {
     ctrl \<leftarrow> evr_read32 io EVR_REG_CTRL;
     evr_write32 io EVR_REG_CTRL (if enable then ctrl OR BIT C_EVR_CTRL_OUTEN else ctrl AND NOT (BIT C_EVR_CTRL_OUTEN));
     _ \<leftarrow> evr_read32 io EVR_REG_CTRL;
     State_Monad.return ()
   }"

text \<open>The configuration that holds the output and the output's index in it.\<close>

definition find_out_cfg :: "evr_hw_data \<Rightarrow> int \<Rightarrow> (evr_hw_data_out_cfg \<times> int) option" where
  "find_out_cfg hw res_output_index =
     map_option (\<lambda>cfg. (cfg, res_output_index - res_start cfg))
       (find (\<lambda>cfg. res_output_index \<ge> res_start cfg \<and> res_output_index < res_start cfg + res_count cfg) (out_cfg hw))"

definition out_map_reg :: "evr_hw_data_out_cfg \<Rightarrow> int \<Rightarrow> u32" where
  "out_map_reg cfg rel_index = evr_map_reg_start cfg + of_int rel_index * EVR_REG_OUTPUT_SLOT_SIZE"

definition evr_set_out_map :: "'h modac_io_rw_plugin \<Rightarrow> int \<Rightarrow> int \<Rightarrow> ('h, int res) evr" where
  "evr_set_out_map io res_output_index func = do {
     hw_data \<leftarrow> get_hw;
     evr_output_count \<leftarrow> get_res_count EVR_RES_TYPE_OUTPUT;
     if res_output_index < 0 \<or> res_output_index \<ge> evr_output_count then State_Monad.return (Inl EINVAL)
     else case find_out_cfg hw_data res_output_index of
       None \<Rightarrow> State_Monad.return (Inl EINVAL)
     | Some (cfg, rel_index) \<Rightarrow> do {
         evr_write16 io (out_map_reg cfg rel_index) (of_int func);
         State_Monad.return (Inr 0)
       }
   }"

definition internal_evr_get_out_map :: "'h modac_io_rw_plugin \<Rightarrow> int \<Rightarrow> ('h, int res) evr" where
  "internal_evr_get_out_map io res_output_index = do {
     hw_data \<leftarrow> get_hw;
     evr_output_count \<leftarrow> get_res_count EVR_RES_TYPE_OUTPUT;
     if res_output_index < 0 \<or> res_output_index \<ge> evr_output_count then State_Monad.return (Inl EINVAL)
     else case find_out_cfg hw_data res_output_index of
       None \<Rightarrow> State_Monad.return (Inl EINVAL)
     | Some (cfg, rel_index) \<Rightarrow> do {
         v \<leftarrow> evr_read16 io (out_map_reg cfg rel_index);
         State_Monad.return (Inr (uint v))
       }
   }"

definition set_pulse_params :: "'h modac_io_rw_plugin \<Rightarrow> u32 \<Rightarrow> u32 \<Rightarrow> u32 \<Rightarrow> u32 \<Rightarrow> ('h, unit) evr" where
  "set_pulse_params io pulse_start_reg prescaler delay width = do {
     evr_write32 io (pulse_start_reg + EVR_REG_PULSE_PRESC_OFFSET) prescaler;
     evr_write32 io (pulse_start_reg + EVR_REG_PULSE_DELAY_OFFSET) delay;
     evr_write32 io (pulse_start_reg + EVR_REG_PULSE_WIDTH_OFFSET) width
   }"

text \<open>\<open>EVR_REG_PULSES + EVR_REG_PULSE_SLOT_SIZE * index\<close>\<close>

definition pulse_reg :: "int \<Rightarrow> u32" where
  "pulse_reg index = EVR_REG_PULSES + EVR_REG_PULSE_SLOT_SIZE * of_int index"

section \<open>The simulation\<close>

text \<open>
  The simulated EVR (src/src/evr-sim.c) that a MNG_DEV without IO memory has: its resources, the parameters
  of its pulse generators, and the test pattern in the memory that is mapped. Its accesses answer with
  counters.
\<close>

abbreviation (input) EVRSIM_PULSEGEN_COUNT :: nat where "EVRSIM_PULSEGEN_COUNT \<equiv> 16"
abbreviation (input) EVRSIM_OUTPUT_COUNT :: nat where "EVRSIM_OUTPUT_COUNT \<equiv> 10"

text \<open>The static counters of the reads: seconds, timestamps and reads of the flags.\<close>

record evr_sim_device =
  sim_secs :: u32
  sim_ec :: u32
  sim_count :: u32

definition evr_sim_device_init :: evr_sim_device where
  "evr_sim_device_init = \<lparr>sim_secs = 10, sim_ec = 300, sim_count = 0\<rparr>"

definition sim_read_u32 :: "evr_sim_device \<Rightarrow> u32 \<Rightarrow> u32 \<times> evr_sim_device" where
  "sim_read_u32 h offset =
     (if offset = EVR_REG_FIFO_SECONDS then (sim_secs h + 1, h\<lparr>sim_secs := sim_secs h + 1\<rparr>)
      else if offset = EVR_REG_FIFO_TIMESTAMP then (sim_ec h + 1, h\<lparr>sim_ec := sim_ec h + 1\<rparr>)
      else if offset = EVR_REG_FIFO_EVENT then (1, h)
      else if offset = EVR_REG_IRQFLAG then
        (if (sim_count h + 1) mod 4 \<noteq> 0 then EVR_IRQFLAG_EVENT else 0, h\<lparr>sim_count := sim_count h + 1\<rparr>)
      else (0, h))"

definition evr_sim_rw_plugin :: "evr_sim_device modac_io_rw_plugin" where
  "evr_sim_rw_plugin = \<lparr>io_read_u16 = (\<lambda>h off. (0, h)), io_write_u16 = (\<lambda>h off v. h),
     io_read_u32 = sim_read_u32, io_write_u32 = (\<lambda>h off v. h)\<rparr>"

definition sim_pulsegen_suits :: "'h evr_state \<Rightarrow> int \<Rightarrow> int list \<Rightarrow> int" where
  "sim_pulsegen_suits s index arg_filters =
     (let prescaler_length = arg_filters ! 0; lengths = sim_prescaler_lengths (the (sim (ev_hw s))) in
      if index < 0 \<or> index \<ge> int EVRSIM_PULSEGEN_COUNT then 0
      else if lengths ! nat index < prescaler_length then 0
      else 32 + prescaler_length - lengths ! nat index + 1)"

definition res_name :: "string \<Rightarrow> u8 list" where
  "res_name s = map of_char s @ [0]"

text \<open>The types of the definitions are filled in by the resource manager.\<close>

definition default_res_defs :: "'h evr_state modac_hw_res_def list" where
  "default_res_defs = [
     \<lparr>rd_name = res_name ''pulsegen'', rd_type = 0, rd_count = EVRSIM_PULSEGEN_COUNT,
      rd_flags = MODAC_RES_FLAG_EXCLUSIVE, rd_suits = sim_pulsegen_suits\<rparr>,
     \<lparr>rd_name = res_name ''output'', rd_type = 0, rd_count = EVRSIM_OUTPUT_COUNT,
      rd_flags = MODAC_RES_FLAG_EXCLUSIVE, rd_suits = output_suits\<rparr>]"

text \<open>The bytes 0, 1, 2 and so on in the mapped memory, up to its last byte.\<close>

definition pattern_word :: "nat \<Rightarrow> u32" where
  "pattern_word i = u32_at (map (\<lambda>k. of_nat ((i + k) mod 256)) [0..<4]) 0"

definition init_hw_data :: "evr_hw_data \<Rightarrow> evr_hw_data" where
  "init_hw_data hw = hw\<lparr>
     sim := Some ((the (sim hw))\<lparr>sim_prescaler_lengths := [16, 16, 32, 32, 8, 8, 8, 8, 0, 0, 0, 0, 0, 0, 0, 0]\<rparr>),
     mmap_slot := \<lparr>slot_status = pattern_word 0, slot_size32 = pattern_word 4,
       slot_data = (\<lambda>i. if i < DATA_BUFF_WORDS then pattern_word (8 + 4 * i) else slot_data (mmap_slot hw) i)\<rparr>\<rparr>"

definition evr_sim_init :: "bool \<Rightarrow> evr_hw_data \<Rightarrow> int res \<times> evr_hw_data" where
  "evr_sim_init kzalloc_ok hw =
     (if \<not> kzalloc_ok then (Inl ENOMEM, hw)
      else (Inr 0, init_hw_data (hw\<lparr>sim := Some \<lparr>sim_prescaler_lengths = replicate EVRSIM_PULSEGEN_COUNT 0,
        sim_pulsegen_params = replicate EVRSIM_PULSEGEN_COUNT \<lparr>ps_prescaler = 0, ps_delay = 0, ps_width = 0\<rparr>,
        sim_output_src = replicate EVRSIM_OUTPUT_COUNT 0\<rparr>\<rparr>)))"

definition upd_sim :: "(evr_sim_data \<Rightarrow> evr_sim_data) \<Rightarrow> evr_hw_data \<Rightarrow> evr_hw_data" where
  "upd_sim f hw = hw\<lparr>sim := map_option f (sim hw)\<rparr>"

text \<open>An output from the resource manager is in range.\<close>

definition evr_sim_set_output_to_pulsegen :: "evr_hw_data \<Rightarrow> int \<Rightarrow> int \<Rightarrow> int res \<times> evr_hw_data" where
  "evr_sim_set_output_to_pulsegen hw index_output index_pulsegen =
     (Inr 0, upd_sim (\<lambda>d. d\<lparr>sim_output_src := (sim_output_src d)[nat index_output := index_pulsegen]\<rparr>) hw)"

definition evr_sim_set_output_to_misc_func :: "evr_hw_data \<Rightarrow> int \<Rightarrow> int \<Rightarrow> int res \<times> evr_hw_data" where
  "evr_sim_set_output_to_misc_func hw index_output misc_func =
     (Inr 0, upd_sim (\<lambda>d. d\<lparr>sim_output_src := (sim_output_src d)[nat index_output := misc_func]\<rparr>) hw)"

definition evr_sim_get_pulsegen_param :: "evr_hw_data \<Rightarrow> int \<Rightarrow> pulsegen_params res" where
  "evr_sim_get_pulsegen_param hw index =
     (if index \<ge> 0 \<and> index < int EVRSIM_PULSEGEN_COUNT then Inr (sim_pulsegen_params (the (sim hw)) ! nat index)
      else Inl EINVAL)"

definition evr_sim_set_pulsegen_param :: "evr_hw_data \<Rightarrow> int \<Rightarrow> pulsegen_params \<Rightarrow> int res \<times> evr_hw_data" where
  "evr_sim_set_pulsegen_param hw index p =
     (if index \<ge> 0 \<and> index < int EVRSIM_PULSEGEN_COUNT
      then (Inr 0, upd_sim (\<lambda>d. d\<lparr>sim_pulsegen_params := (sim_pulsegen_params d)[nat index := p]\<rparr>) hw)
      else (Inl EINVAL, hw))"

definition evr_sim_init_res :: "evr_hw_data \<Rightarrow> int \<Rightarrow> int \<Rightarrow> int res \<times> evr_hw_data" where
  "evr_sim_init_res hw res_type res_index =
     (if res_type = EVR_RES_TYPE_PULSEGEN then
        evr_sim_set_pulsegen_param hw res_index \<lparr>ps_prescaler = 0, ps_delay = 0, ps_width = 0\<rparr>
      else if res_type = EVR_RES_TYPE_OUTPUT then (Inr 0, hw)
      else (Inl ENOSYS, hw))"

section \<open>Start and end\<close>

abbreviation (input) sizeof_vevr_mmap_data :: nat where "sizeof_vevr_mmap_data \<equiv> 2056"

definition align_mmap :: "evr_hw_data \<Rightarrow> evr_hw_data" where
  "align_mmap hw =
     (let p = (mmap_mem hw + PAGE_SIZE - 1) AND NOT (PAGE_SIZE - 1)
      in hw\<lparr>mmap_p := p,
           mmap_p_final_size := sint (mmap_mem hw + of_nat sizeof_vevr_mmap_data + PAGE_SIZE - p)\<rparr>)"

text \<open>The outputs of the three types follow each other in the list of the output resources.\<close>

definition init_out_cfg :: "evr_hw_data \<Rightarrow> evr_hw_data" where
  "init_out_cfg hw =
     (let td = hd_type_data hw;
          cnts = [(output_count td, EVR_REG_FIRST_OUTPUT_FP_TTL), (univ_io td, EVR_REG_FIRST_OUTPUT_FP_UNIV),
                  (tb_outputs td, EVR_REG_FIRST_OUTPUT_TB)];
          (cfgs, n) = fold (\<lambda>(cnt, reg) (cfgs, n). (cfgs @ [\<lparr>res_start = n, res_count = cnt, evr_map_reg_start = reg\<rparr>], n + cnt))
            cnts ([], 0)
      in hw\<lparr>out_cfg := cfgs, out_res_count := n\<rparr>)"

definition evr_type_of :: "int \<Rightarrow> u32 \<Rightarrow> evr_type_data option" where
  "evr_type_of evr_type_docd fw =
     (if evr_type_docd \<ge> 0 \<and> evr_type_docd < EVR_TYPE_DOCD_COUNT
      then Some (documented_evr_type_data_table ! nat evr_type_docd)
      else if fw AND EVR_TYPE_ADHOC_SLAC_FW_VERSION_MASK = EVR_TYPE_ADHOC_SLAC_FW_VERSION
      then Some adhoc_evr_type_slac_general
      else if fw = EVR_TYPE_EMCOR_FW_VERSION then Some adhoc_evr_type_emcor
      else None)"

definition evr_res_defs :: "evr_hw_data \<Rightarrow> 'h evr_state modac_hw_res_def list" where
  "evr_res_defs hw = [
     \<lparr>rd_name = res_name ''pulsegen'', rd_type = 0, rd_count = nat (pulsegen_count (hd_type_data hw)),
      rd_flags = MODAC_RES_FLAG_EXCLUSIVE, rd_suits = pulsegen_suits\<rparr>,
     \<lparr>rd_name = res_name ''output'', rd_type = 0, rd_count = nat (out_res_count hw),
      rd_flags = MODAC_RES_FLAG_EXCLUSIVE, rd_suits = output_suits\<rparr>]"

definition set_res_defs :: "'h evr_state modac_hw_res_def list \<Rightarrow> 'h evr_state \<Rightarrow> 'h evr_state" where
  "set_res_defs defs s = s\<lparr>ev_res_count := (\<lambda>t. if 0 \<le> t \<and> t < int (length defs) then int (rd_count (defs ! nat t)) else 0)\<rparr>"

text \<open>The allocations are those of the definitions, of the private data and of the simulation.\<close>

definition hw_support_evr_init :: "'h modac_io_rw_plugin \<Rightarrow> modac_mngdev_des \<Rightarrow> (nat \<Rightarrow> bool) \<Rightarrow> 'h evr_state \<Rightarrow>
    int res \<times> 'h evr_state modac_hw_res_def list \<times> 'h evr_state" where
  "hw_support_evr_init io des kmalloc_ok s =
     (if \<not> kmalloc_ok 0 then (Inl ENOMEM, [], s)
      else if \<not> kmalloc_ok 1 then (Inl ENOMEM, [], s)
      else
        let s = s\<lparr>ev_hw := align_mmap (zero_hw_data (mmap_mem (ev_hw s)) (slot_data (mmap_slot (ev_hw s))))\<rparr> in
        if md_io_start des = None then
          (case evr_sim_init (kmalloc_ok 2) (ev_hw s) of
             (Inl e, hw) \<Rightarrow> (Inl e, [], s\<lparr>ev_hw := hw\<rparr>)
           | (Inr v, hw) \<Rightarrow> (Inr v, default_res_defs, set_res_defs default_res_defs (s\<lparr>ev_hw := hw\<rparr>)))
        else case run_state (evr_read32 io EVR_REG_FW_VERSION) s of
          (fw, s) \<Rightarrow>
            (case evr_type_of (md_hw_support_hint1 des) fw of
               None \<Rightarrow> (Inl ENOSYS, [], s)
             | Some td \<Rightarrow>
                 let s = s\<lparr>ev_hw := init_out_cfg ((ev_hw s)\<lparr>fw_version := fw, hd_type_data := td\<rparr>)\<rparr>;
                     defs = evr_res_defs (ev_hw s)
                 in (Inr 0, defs, snd (run_state (evr_ram_map_init io) (set_res_defs defs s)))))"

text \<open>The memory is freed; nothing is written to the device.\<close>

definition hw_support_evr_end :: "'h evr_state \<Rightarrow> 'h evr_state" where
  "hw_support_evr_end s = s\<lparr>ev_hw := (ev_hw s)\<lparr>sim := None\<rparr>\<rparr>"

section \<open>Direct calls, mapping, reset of a resource\<close>

definition copy_u32 :: "umem \<Rightarrow> u32 \<Rightarrow> int res \<times> umem" where
  "copy_u32 m val = (case copy_to_user m 0 (le32_bytes val) of None \<Rightarrow> (Inl EFAULT, m) | Some m' \<Rightarrow> (Inr 0, m'))"

text \<open>The temperature registers are little-endian, hence the second swap.\<close>

definition axixadc_value :: "'h modac_io_rw_plugin \<Rightarrow> u32 \<Rightarrow> ('h, u32) evr" where
  "axixadc_value io reg = do {
     hw_data \<leftarrow> get_hw;
     if evr_card_is_slac (fw_version hw_data)
     then do { val \<leftarrow> evr_read32 io reg; State_Monad.return (drop_bit 4 (swab32 val) AND 0xfff) }
     else State_Monad.return 0
   }"

definition hw_support_evr_direct_ioctl :: "'h modac_io_rw_plugin \<Rightarrow> u32 \<Rightarrow> umem \<Rightarrow> ('h, int res \<times> umem) evr" where
  "hw_support_evr_direct_ioctl io cmd m =
     (if cmd = VEVR_IOC_LATCHED_TIMESTAMP_GET then do {
        val \<leftarrow> evr_read32 io EVR_REG_CTRL;
        evr_write32 io EVR_REG_CTRL (val OR BIT C_EVR_CTRL_LATCH_TIMESTAMP);
        val \<leftarrow> evr_read32 io EVR_REG_TIMESTAMP_LATCH;
        State_Monad.return (copy_u32 m val)
      }
      else if cmd = VEVR_IOC_AXIXADC_TEMPERATURE_GET then do {
        val \<leftarrow> axixadc_value io AXIXADC_REG_TEMPERATURE;
        State_Monad.return (copy_u32 m val)
      }
      else if cmd = VEVR_IOC_AXIXADC_MAXTEMPERATURE_GET then do {
        val \<leftarrow> axixadc_value io AXIXADC_REG_MAXTEMPERATURE;
        State_Monad.return (copy_u32 m val)
      }
      else State_Monad.return (Inl ENOSYS, m))"

text \<open>The physical address; the size is compared as an unsigned one.\<close>

definition hw_support_evr_vdev_mmap_ro :: "'h evr_state \<Rightarrow> ulong \<Rightarrow> ulong \<Rightarrow> ulong res" where
  "hw_support_evr_vdev_mmap_ro s offset vsize =
     (if vsize > of_int (mmap_p_final_size (ev_hw s)) then Inl EINVAL else Inr (mmap_p (ev_hw s)))"

text \<open>A pulse generator's bit is cleared in all event codes.\<close>

definition clear_pulse_bits :: "u32 \<Rightarrow> evr_map_ram_item \<Rightarrow> evr_map_ram_item" where
  "clear_pulse_bits pulse_inv_mask item = item\<lparr>pulse_clear := pulse_clear item AND pulse_inv_mask,
     pulse_set := pulse_set item AND pulse_inv_mask, pulse_trigger := pulse_trigger item AND pulse_inv_mask\<rparr>"

definition hw_support_evr_init_res :: "'h modac_io_rw_plugin \<Rightarrow> int \<Rightarrow> int \<Rightarrow> ('h, int res) evr" where
  "hw_support_evr_init_res io res_type res_index = do {
     hw_data \<leftarrow> get_hw;
     if sim hw_data \<noteq> None then
       (case evr_sim_init_res hw_data res_type res_index of
          (r, hw) \<Rightarrow> do { upd_hw (\<lambda>_. hw); State_Monad.return r })
     else if res_type = EVR_RES_TYPE_PULSEGEN then do {
       set_pulse_params io (pulse_reg res_index) 0 0 0;
       evr_write32 io (pulse_reg res_index + EVR_REG_PULSE_CTRL_OFFSET) 0;
       for_each (\<lambda>i. upd_hw (\<lambda>hw. hw\<lparr>map_ram := (map_ram hw)(i :=
           clear_pulse_bits (NOT (BIT (nat res_index))) (map_ram hw i))\<rparr>)) [0..<EVR_EVENT_CODES];
       evr_ram_map_change_flush io;
       State_Monad.return (Inr 0)
     }
     else if res_type = EVR_RES_TYPE_OUTPUT then State_Monad.return (Inr 0)
     else State_Monad.return (Inl ENOSYS)
   }"

section \<open>Properties\<close>

definition evr_types :: "evr_type_data list" where
  "evr_types = documented_evr_type_data_table @ [adhoc_evr_type_slac_general, adhoc_evr_type_emcor]"

lemma evr_type_of_types: "evr_type_of docd fw = Some td \<Longrightarrow> td \<in> set evr_types"
proof -
  have "length documented_evr_type_data_table = 10" by (simp add: documented_evr_type_data_table_def)
  then show "evr_type_of docd fw = Some td \<Longrightarrow> td \<in> set evr_types"
    by (auto simp: evr_type_of_def evr_types_def split: if_splits)
qed

text \<open>What the tables say: at most 16 pulse generators with fields of 0 to 32 bits, and few enough outputs.\<close>

definition bits_ok :: "evr_pulsegen_bit_info \<Rightarrow> bool" where
  "bits_ok info \<longleftrightarrow> 0 \<le> prescaler_bits info \<and> prescaler_bits info \<le> 32 \<and> 0 \<le> delay_bits info \<and> delay_bits info \<le> 32
     \<and> 0 \<le> width_bits info \<and> width_bits info \<le> 32"

definition type_ok :: "evr_type_data \<Rightarrow> bool" where
  "type_ok td \<longleftrightarrow> 0 \<le> pulsegen_count td \<and> pulsegen_count td \<le> 16 \<and> length (pulsegen_data td) = 16
     \<and> list_all bits_ok (pulsegen_data td)
     \<and> 0 \<le> output_count td \<and> output_count td \<le> 32 \<and> 0 \<le> univ_io td \<and> univ_io td \<le> 32
     \<and> 0 \<le> tb_outputs td \<and> tb_outputs td \<le> 64"

lemma type_ok_data:
  assumes "0 \<le> count" "count \<le> 16" "length pulses \<le> 16" "list_all bits_ok pulses"
    and "0 \<le> ns ! 1" "ns ! 1 \<le> 32" "0 \<le> ns ! 3" "ns ! 3 \<le> 32" "0 \<le> ns ! 7" "ns ! 7 \<le> 64"
  shows "type_ok (type_data name count pulses ns)"
proof -
  have "list_all bits_ok (pulses @ replicate 16 (bits_info 0 0 0))"
    using assms(4) by (auto simp: list_all_iff bits_ok_def bits_info_def)
  then have "list_all bits_ok (take 16 (pulses @ replicate 16 (bits_info 0 0 0)))"
    unfolding list_all_iff by (auto dest: in_set_takeD)
  with assms show ?thesis by (simp add: type_ok_def type_data_def del: take_append)
qed

lemma bits_ok_info: "0 \<le> p \<Longrightarrow> p \<le> 32 \<Longrightarrow> 0 \<le> d \<Longrightarrow> d \<le> 32 \<Longrightarrow> 0 \<le> w \<Longrightarrow> w \<le> 32 \<Longrightarrow> bits_ok (bits_info p d w)"
  by (simp add: bits_ok_def bits_info_def)

lemma evr_types_ok: "list_all type_ok evr_types"
  unfolding evr_types_def documented_evr_type_data_table_def adhoc_evr_type_slac_general_def adhoc_evr_type_emcor_def
  by (simp only: append_Cons append_Nil list.pred_inject, intro conjI TrueI type_ok_data)
    (auto simp: list_all_iff intro!: bits_ok_info)

text \<open>
  A pulse generator suits an allocation exactly when each of its three fields has at least the wanted number
  of bits; the suitability is then 99 less the number of bits in excess and never below 3, so the
  resource manager picks the generator that wastes the fewest bits, and an exact match gives 99.
\<close>
theorem pulsegen_suits_fit:
  assumes "evr_type_of docd fw = Some (hd_type_data (ev_hw s))" and "0 \<le> p" and "0 \<le> d" and "0 \<le> w"
    and "pulsegen_data (hd_type_data (ev_hw s)) ! nat i = info"
  shows "pulsegen_suits s i (p # d # w # rest) =
      (if 0 \<le> i \<and> i < pulsegen_count (hd_type_data (ev_hw s))
          \<and> p \<le> prescaler_bits info \<and> d \<le> delay_bits info \<and> w \<le> width_bits info
       then 99 - (prescaler_bits info - p) - (delay_bits info - d) - (width_bits info - w) else 0)
    \<and> (0 < pulsegen_suits s i (p # d # w # rest) \<longrightarrow> 3 \<le> pulsegen_suits s i (p # d # w # rest))"
proof (cases "0 \<le> i \<and> i < pulsegen_count (hd_type_data (ev_hw s))")
  case True
  have "type_ok (hd_type_data (ev_hw s))"
    using evr_types_ok evr_type_of_types [OF assms(1)] by (simp add: list_all_iff)
  then have "bits_ok info" using True assms(5) by (auto simp: type_ok_def list_all_iff intro!: nth_mem)
  with True assms show ?thesis
    by (auto simp: pulsegen_suits_def Let_def pulsegen_property_suitability_def bits_ok_def)
qed (auto simp: pulsegen_suits_def Let_def)

text \<open>The private data of a cPCI-EVR-230.\<close>

definition evr_cpci :: "bus_op list evr_state" where
  "evr_cpci = evr_ex\<lparr>ev_hw := init_out_cfg (hw_ex\<lparr>hd_type_data := documented_evr_type_data_table ! 0\<rparr>),
     ev_res_count := (\<lambda>t. if t = 0 then 10 else if t = 1 then 4 else 0)\<rparr>"

lemma evr_cpci_type: "evr_type_of 0 0 = Some (hd_type_data (ev_hw evr_cpci))"
  by (simp add: evr_type_of_def evr_cpci_def init_out_cfg_def Let_def documented_evr_type_data_table_def)

lemma evr_cpci_pulses: "pulsegen_data (hd_type_data (ev_hw evr_cpci)) ! 0 = bits_info 16 32 32"
  "pulsegen_count (hd_type_data (ev_hw evr_cpci)) = 10"
  by (simp_all add: evr_cpci_def init_out_cfg_def Let_def documented_evr_type_data_table_def type_data_def nth_append)

lemma pulsegen_suits_fit_witness: "pulsegen_suits evr_cpci 0 [16, 32, 30] = 97"
  using pulsegen_suits_fit [OF evr_cpci_type, of 16 32 30 0 "bits_info 16 32 32" "[]"]
  by (simp add: evr_cpci_pulses bits_info_def)

text \<open>
  The entry for the EMCOR card is never used: its firmware version has the mark of a SLAC card,
  which is tested before it.
\<close>
theorem emcor_never_selected:
  assumes "evr_type_of docd fw = Some td"
  shows "td \<noteq> adhoc_evr_type_emcor"
proof -
  have "td_name (documented_evr_type_data_table ! i) \<noteq> ''EMCOR''" if "i < 10" for i
  proof -
    from that have "documented_evr_type_data_table ! i \<in> set documented_evr_type_data_table"
      by (intro nth_mem) (simp add: documented_evr_type_data_table_def)
    moreover have "\<forall>td\<in>set documented_evr_type_data_table. td_name td \<noteq> ''EMCOR''"
      by (simp add: documented_evr_type_data_table_def type_data_def)
    ultimately show ?thesis by blast
  qed
  moreover have "td_name adhoc_evr_type_emcor = ''EMCOR''" "td_name adhoc_evr_type_slac_general \<noteq> ''EMCOR''"
    by (simp_all add: adhoc_evr_type_emcor_def adhoc_evr_type_slac_general_def type_data_def)
  moreover have "td = documented_evr_type_data_table ! nat docd \<and> nat docd < 10 \<or> td = adhoc_evr_type_slac_general"
    using assms by (auto simp: evr_type_of_def split: if_splits)
  ultimately show ?thesis by metis
qed

lemma emcor_never_selected_witness:
  "evr_type_of (-1) EVR_TYPE_EMCOR_FW_VERSION = Some adhoc_evr_type_slac_general \<and> adhoc_evr_type_slac_general \<noteq> adhoc_evr_type_emcor"
  using emcor_never_selected [of "-1" EVR_TYPE_EMCOR_FW_VERSION adhoc_evr_type_slac_general] by (simp add: evr_type_of_def)

text \<open>The register of an output.\<close>

definition out_reg :: "evr_hw_data \<Rightarrow> int \<Rightarrow> u32 option" where
  "out_reg hw i = map_option (\<lambda>(cfg, rel). out_map_reg cfg rel) (find_out_cfg hw i)"

lemma uint_out_reg:
  assumes "0 \<le> n" "n < 64" "a = 0x400 \<or> a = 0x440 \<or> a = (0x480::u32)"
  shows "uint (a + of_int n * 2) = uint a + 2 * n"
proof -
  have "uint (of_int (2 * n) :: u32) = 2 * n"
    using assms(1,2) by (simp only: unsigned_of_int) (simp add: take_bit_int_eq_self_iff)
  moreover have "uint a + 2 * n < 2 ^ LENGTH(32)" using assms by auto
  ultimately have "uint (a + of_int (2 * n)) = uint a + 2 * n"
    using uint_add_lem [of a "of_int (2 * n)"] by simp
  then show ?thesis by (simp add: mult.commute)
qed

lemma out_reg_eq:
  assumes td: "type_ok (hd_type_data hw)" and i: "0 \<le> i" "i < out_res_count (init_out_cfg hw)"
  shows "\<exists>r. out_reg (init_out_cfg hw) i = Some r \<and> uint r =
    (let td = hd_type_data hw in
     if i < output_count td then 0x400 + 2 * i
     else if i < output_count td + univ_io td then 0x440 + 2 * (i - output_count td)
     else 0x480 + 2 * (i - output_count td - univ_io td))"
proof -
  have "find_out_cfg (init_out_cfg hw) i = Some (let td = hd_type_data hw in
     if i < output_count td then (\<lparr>res_start = 0, res_count = output_count td, evr_map_reg_start = 0x400\<rparr>, i)
     else if i < output_count td + univ_io td
     then (\<lparr>res_start = output_count td, res_count = univ_io td, evr_map_reg_start = 0x440\<rparr>, i - output_count td)
     else (\<lparr>res_start = output_count td + univ_io td, res_count = tb_outputs td, evr_map_reg_start = 0x480\<rparr>,
       i - output_count td - univ_io td))"
    using td i by (auto simp: find_out_cfg_def init_out_cfg_def Let_def type_ok_def)
  then show ?thesis
    using td i uint_out_reg [of "i"] uint_out_reg [of "i - output_count (hd_type_data hw)"]
      uint_out_reg [of "i - output_count (hd_type_data hw) - univ_io (hd_type_data hw)"]
    by (auto simp: out_reg_def out_map_reg_def Let_def type_ok_def init_out_cfg_def)
qed

text \<open>
  C39: For every EVR type, each output resource has a mapping register, all of them are within the output
  registers 0x400 to 0x4ff, and two outputs never share a register: mapping one output to a source
  changes no other.
\<close>
theorem evr_outputs_disjoint:
  assumes "evr_type_of docd fw = Some (hd_type_data hw)"
    and "0 \<le> i" and "i < out_res_count (init_out_cfg hw)" and "0 \<le> j" and "j < out_res_count (init_out_cfg hw)"
  shows "\<exists>r q. out_reg (init_out_cfg hw) i = Some r \<and> out_reg (init_out_cfg hw) j = Some q
    \<and> 0x400 \<le> uint r \<and> uint r + 2 \<le> 0x500 \<and> (i \<noteq> j \<longrightarrow> uint r + 2 \<le> uint q \<or> uint q + 2 \<le> uint r)"
proof -
  have td: "type_ok (hd_type_data hw)"
    using evr_types_ok evr_type_of_types [OF assms(1)] by (simp add: list_all_iff)
  from out_reg_eq [OF td assms(2,3)] obtain r where r: "out_reg (init_out_cfg hw) i = Some r" and ur: "uint r =
    (let td = hd_type_data hw in
     if i < output_count td then 0x400 + 2 * i
     else if i < output_count td + univ_io td then 0x440 + 2 * (i - output_count td)
     else 0x480 + 2 * (i - output_count td - univ_io td))" by blast
  from out_reg_eq [OF td assms(4,5)] obtain q where q: "out_reg (init_out_cfg hw) j = Some q" and uq: "uint q =
    (let td = hd_type_data hw in
     if j < output_count td then 0x400 + 2 * j
     else if j < output_count td + univ_io td then 0x440 + 2 * (j - output_count td)
     else 0x480 + 2 * (j - output_count td - univ_io td))" by blast
  have "out_res_count (init_out_cfg hw) = output_count (hd_type_data hw) + univ_io (hd_type_data hw) + tb_outputs (hd_type_data hw)"
    by (simp add: init_out_cfg_def Let_def)
  with td assms ur uq show ?thesis
    unfolding r q by (auto simp: Let_def type_ok_def)
qed

lemma evr_outputs_disjoint_witness:
  "\<exists>r q. out_reg (ev_hw evr_cpci) 0 = Some r \<and> out_reg (ev_hw evr_cpci) 3 = Some q \<and> r \<noteq> q"
proof -
  let ?hw = "hw_ex\<lparr>hd_type_data := documented_evr_type_data_table ! 0\<rparr>"
  have "evr_type_of 0 0 = Some (hd_type_data ?hw)" by (simp add: evr_type_of_def)
  moreover have "out_res_count (init_out_cfg ?hw) = 4"
    by (simp add: init_out_cfg_def Let_def documented_evr_type_data_table_def type_data_def)
  ultimately obtain r q where "out_reg (init_out_cfg ?hw) 0 = Some r" "out_reg (init_out_cfg ?hw) 3 = Some q"
    "uint r + 2 \<le> uint q \<or> uint q + 2 \<le> uint r"
    using evr_outputs_disjoint [of 0 0 ?hw 0 3] by auto
  moreover have "ev_hw evr_cpci = init_out_cfg ?hw" by (simp add: evr_cpci_def)
  ultimately show ?thesis by auto
qed

text \<open>The Map RAM with the pulse generator \<open>p\<close> taken out of every event code.\<close>

definition ram_without :: "nat \<Rightarrow> (nat \<Rightarrow> evr_map_ram_item) \<Rightarrow> nat \<Rightarrow> evr_map_ram_item" where
  "ram_without p ram i = (if i < 256 then clear_pulse_bits (NOT (BIT p)) (ram i) else ram i)"

lemma run_clear_pulse:
  "run_state (for_each (\<lambda>i. upd_hw (\<lambda>hw. hw\<lparr>map_ram := (map_ram hw)(i := clear_pulse_bits (NOT (BIT p)) (map_ram hw i))\<rparr>)) [0..<256]) s
   = ((), s\<lparr>ev_hw := (ev_hw s)\<lparr>map_ram := ram_without p (map_ram (ev_hw s))\<rparr>\<rparr>)"
proof -
  have "ram_mapped 0 256 (\<lambda>_. clear_pulse_bits (NOT (BIT p))) ram = ram_without p ram" for ram
    by (simp add: fun_eq_iff ram_mapped_def ram_without_def)
  then show ?thesis using run_map_ram_loop [of 0 "\<lambda>_. clear_pulse_bits (NOT (BIT p))" 256 s] by simp
qed

text \<open>
  Bringing a pulse generator to its idle state clears its three parameters and its control register, takes it
  out of the clear, set and trigger masks of every event code, and writes the result to the
  hardware. No other pulse generator's bit and no internal function of an event changes.
\<close>
theorem evr_init_res_pulsegen:
  assumes "sim (ev_hw s) = None" and "0 \<le> p" and "p < 16"
    and "run_state (hw_support_evr_init_res (bus_plugin d16 d32) EVR_RES_TYPE_PULSEGEN p) s = (r, s1)"
  shows "r = Inr 0
    \<and> (\<exists>s0. run_state (evr_ram_map_change_flush (bus_plugin d16 d32)) s0 = ((), s1)
         \<and> ev_dev s0 = [W32 (pulse_reg p) 0, W32 (pulse_reg p + 12) 0, W32 (pulse_reg p + 8) 0, W32 (pulse_reg p + 4) 0] @ ev_dev s)
    \<and> (\<forall>i<256. int_event (map_ram (ev_hw s1) i) = int_event (map_ram (ev_hw s) i) \<and> (\<forall>n<32.
         (bit (pulse_clear (map_ram (ev_hw s1) i)) n \<longleftrightarrow> n \<noteq> nat p \<and> bit (pulse_clear (map_ram (ev_hw s) i)) n)
       \<and> (bit (pulse_set (map_ram (ev_hw s1) i)) n \<longleftrightarrow> n \<noteq> nat p \<and> bit (pulse_set (map_ram (ev_hw s) i)) n)
       \<and> (bit (pulse_trigger (map_ram (ev_hw s1) i)) n \<longleftrightarrow> n \<noteq> nat p \<and> bit (pulse_trigger (map_ram (ev_hw s) i)) n)))"
proof -
  have swab0: "swab32 0 = 0" by (simp add: swab32_def)
  let ?s0 = "s\<lparr>ev_dev := [W32 (pulse_reg p) 0, W32 (pulse_reg p + 12) 0, W32 (pulse_reg p + 8) 0, W32 (pulse_reg p + 4) 0] @ ev_dev s,
    ev_hw := (ev_hw s)\<lparr>map_ram := ram_without (nat p) (map_ram (ev_hw s))\<rparr>\<rparr>"
  have run: "run_state (hw_support_evr_init_res (bus_plugin d16 d32) EVR_RES_TYPE_PULSEGEN p) s
      = (Inr 0, snd (run_state (evr_ram_map_change_flush (bus_plugin d16 d32)) ?s0))"
    using assms(1) by (simp add: hw_support_evr_init_res_def set_pulse_params_def run_clear_pulse swab0 split: prod.split)
  have flush: "ev_hw (snd (run_state (evr_ram_map_change_flush (bus_plugin d16 d32)) ?s0)) = ev_hw ?s0"
    by (simp add: run_flush Let_def)
  have s1: "s1 = snd (run_state (evr_ram_map_change_flush (bus_plugin d16 d32)) ?s0)" "r = Inr 0" using assms(4) run by simp_all
  have "map_ram (ev_hw s1) = ram_without (nat p) (map_ram (ev_hw s))" using s1(1) flush by simp
  moreover have "run_state (evr_ram_map_change_flush (bus_plugin d16 d32)) ?s0 = ((), s1)" using s1(1) by (intro prod_eqI) simp_all
  ultimately show ?thesis
    using s1(2) by (intro conjI exI [of _ ?s0]) (auto simp: ram_without_def clear_pulse_bits_def bit_simps)
qed

lemma evr_init_res_pulsegen_witness:
  "\<not> bit (pulse_trigger (map_ram (ev_hw (snd (run_state (hw_support_evr_init_res io_ex EVR_RES_TYPE_PULSEGEN 3)
      (evr_cpci\<lparr>ev_hw := (ev_hw evr_cpci)\<lparr>map_ram := (\<lambda>_. zero_item\<lparr>pulse_trigger := BIT 3\<rparr>)\<rparr>\<rparr>)))) 7)) 3"
proof -
  let ?s = "evr_cpci\<lparr>ev_hw := (ev_hw evr_cpci)\<lparr>map_ram := (\<lambda>_. zero_item\<lparr>pulse_trigger := BIT 3\<rparr>)\<rparr>\<rparr>"
  obtain r s1 where run: "run_state (hw_support_evr_init_res io_ex EVR_RES_TYPE_PULSEGEN 3) ?s = (r, s1)"
    by (cases "run_state (hw_support_evr_init_res io_ex EVR_RES_TYPE_PULSEGEN 3) ?s")
  have "sim (ev_hw ?s) = None" by (simp add: evr_cpci_def init_out_cfg_def Let_def hw_ex_def zero_hw_data_def)
  from evr_init_res_pulsegen [OF this _ _ run] run show ?thesis by simp
qed

lemma align_page:
  fixes x :: ulong
  assumes "unat x + 4096 < 2 ^ 64"
  shows "\<exists>k. unat ((x + PAGE_SIZE - 1) AND NOT (PAGE_SIZE - 1)) = 4096 * k \<and> unat x \<le> 4096 * k \<and> 4096 * k < unat x + 4096"
proof -
  let ?y = "x + 4095"
  have y: "unat ?y = unat x + 4095"
    using assms unat_add_lem [of x 4095] by simp
  have m: "(4095::ulong) = mask 12" by (simp add: mask_eq_exp_minus_1)
  have t: "take_bit 64 (unat ?y) = unat ?y"
    using unsigned_less [of ?y] by (simp add: take_bit_nat_eq_self_iff)
  have "?y AND NOT (mask 12) = push_bit 12 (drop_bit 12 ?y)"
    by (rule bit_word_eqI) (auto simp: bit_simps)
  then have "unat (?y AND NOT 4095) = take_bit 64 (push_bit 12 (drop_bit 12 (unat ?y)))"
    using t unfolding m by (simp only: unsigned_push_bit_eq unsigned_drop_bit_eq) simp
  also have "push_bit 12 (drop_bit 12 (unat ?y)) = 4096 * (unat ?y div 4096)"
    by (simp only: push_bit_eq_mult drop_bit_eq_div) simp
  also have "take_bit 64 (4096 * (unat ?y div 4096)) = 4096 * (unat ?y div 4096)"
  proof -
    have "4096 * (unat ?y div 4096) \<le> unat ?y" by simp
    also have "\<dots> < 2 ^ 64" using unsigned_less [of ?y] by simp
    finally show ?thesis by (simp only: take_bit_nat_eq_self_iff)
  qed
  finally have "unat ((x + PAGE_SIZE - 1) AND NOT (PAGE_SIZE - 1)) = 4096 * (unat ?y div 4096)" by (simp add: add.commute)
  moreover have "unat x \<le> 4096 * (unat ?y div 4096)" "4096 * (unat ?y div 4096) < unat x + 4096"
    unfolding y by linarith+
  ultimately show ?thesis by blast
qed

lemma sint_small:
  fixes x :: ulong
  assumes "unat x < 2 ^ 63"
  shows "sint x = int (unat x)"
proof -
  have "unat x < 9223372036854775808" using assms by simp
  then have "int (unat x) < 9223372036854775808" by linarith
  then have "uint x < 2 ^ 63" by simp
  moreover have "- (2 ^ 63) \<le> uint x" using uint_ge_0 [of x] by (intro order_trans [OF _ uint_ge_0]) simp
  ultimately show ?thesis by (simp add: sint_uint signed_take_bit_int_eq_self)
qed

text \<open>
  The memory that the VIRT_DEVs map starts on a page boundary, lies within what was allocated and has
  room for the DataBuf slot; a mapping is granted exactly when it does not reach over the end of
  the allocated memory.
\<close>
theorem evr_mmap_region:
  assumes "unat (mmap_mem hw) + 8192 < 2 ^ 64" and "align_mmap hw = hw1"
  shows "4096 dvd unat (mmap_p hw1) \<and> unat (mmap_mem hw) \<le> unat (mmap_p hw1)
    \<and> int (unat (mmap_p hw1)) + mmap_p_final_size hw1 = int (unat (mmap_mem hw)) + 6152
    \<and> int sizeof_vevr_mmap_data < mmap_p_final_size hw1
    \<and> hw_support_evr_vdev_mmap_ro \<lparr>ev_hw = hw1, ev_res_count = cnt, ev_dev = d\<rparr> offset vsize =
       (if int (unat (mmap_p hw1)) + uint vsize \<le> int (unat (mmap_mem hw)) + 6152 then Inr (mmap_p hw1) else Inl EINVAL)"
proof -
  let ?x = "mmap_mem hw"
  from align_page [of ?x] assms(1) obtain k where k: "unat ((?x + PAGE_SIZE - 1) AND NOT (PAGE_SIZE - 1)) = 4096 * k"
    "unat ?x \<le> 4096 * k" "4096 * k < unat ?x + 4096" by auto
  define p where "p = (?x + PAGE_SIZE - 1) AND NOT (PAGE_SIZE - 1)"
  have p: "mmap_p hw1 = p" "unat p = 4096 * k" and sz: "mmap_p_final_size hw1 = sint (?x + 6152 - p)"
    using assms(2) k(1) by (auto simp: align_mmap_def p_def Let_def add.commute)
  have "unat (?x + 6152) = unat ?x + 6152" using assms(1) unat_add_lem [of ?x 6152] by simp
  then have "unat (?x + 6152 - p) = unat ?x + 6152 - 4096 * k"
    using unat_sub [of p "?x + 6152"] k p(2) by (simp add: word_le_nat_alt)
  moreover have "unat ?x + 6152 - 4096 * k < 2 ^ 63" using k(2) by simp
  ultimately have "sint (?x + 6152 - p) = int (unat ?x + 6152 - 4096 * k)"
    using sint_small [of "?x + 6152 - p"] by simp
  with k sz have size: "mmap_p_final_size hw1 = int (unat ?x) + 6152 - 4096 * int k" by simp
  have "unat ?x + 8192 < 18446744073709551616" using assms(1) by simp
  then have ints: "int (unat ?x) \<le> 4096 * int k" "4096 * int k < int (unat ?x) + 4096" "int (unat ?x) + 8192 < 18446744073709551616"
    using k(2,3) by linarith+
  have "vsize > of_int (mmap_p_final_size hw1) \<longleftrightarrow> uint vsize > mmap_p_final_size hw1"
  proof -
    have "0 \<le> mmap_p_final_size hw1" "mmap_p_final_size hw1 < 2 ^ 64" unfolding size using ints by simp_all
    then have "uint (of_int (mmap_p_final_size hw1) :: ulong) = mmap_p_final_size hw1"
      by (simp add: unsigned_of_int take_bit_int_eq_self_iff)
    then show ?thesis by (simp add: word_less_def)
  qed
  then have "hw_support_evr_vdev_mmap_ro \<lparr>ev_hw = hw1, ev_res_count = cnt, ev_dev = d\<rparr> offset vsize =
      (if mmap_p_final_size hw1 < uint vsize then Inl EINVAL else Inr (mmap_p hw1))"
    by (simp add: hw_support_evr_vdev_mmap_ro_def)
  with size ints show ?thesis unfolding p using k(2) by auto
qed

lemma evr_mmap_region_witness:
  "4096 dvd unat (mmap_p (align_mmap hw_ex)) \<and> 2056 < mmap_p_final_size (align_mmap hw_ex)"
proof -
  have "unat (mmap_mem hw_ex) + 8192 < 2 ^ 64" by (simp add: hw_ex_def zero_hw_data_def)
  from evr_mmap_region [OF this refl, of "\<lambda>_. 0" "()" 0 0] show ?thesis by simp
qed

end
