(* ===== verification/Evr_Ioctl.thy ===== *)
theory Evr_Ioctl
  imports Evr_Core
begin

text \<open>
  The \<open>ioctl\<close> of the EVR's hardware support (src/src/evr.c): the calls on a MNG_DEV that initialize the
  EVR and map outputs, and the calls on a VIRT_DEV that read the status and program its pulse
  generators. Each case is a definition of its own. \<open>stk\<close> is what the memory of the local argument
  structures held before; a structure that is only filled in partly is copied out with it.
\<close>

section \<open>Calls on the MNG_DEV\<close>

definition evr_ioc_init :: "'h modac_io_rw_plugin \<Rightarrow> ('h, int res) evr" where
  "evr_ioc_init io = do {
     hw_data \<leftarrow> get_hw;
     evr_pulsegen_count \<leftarrow> get_res_count EVR_RES_TYPE_PULSEGEN;
     for_each (\<lambda>cfg. for_each (\<lambda>i. evr_write16 io (out_map_reg cfg i) OUTPUT_REG_MAPPING_FORCE_LOW)
       [0..res_count cfg - 1]) (out_cfg hw_data);
     for_each (\<lambda>ipulse. do {
         set_pulse_params io (pulse_reg ipulse) 0 0 0;
         evr_write32 io (pulse_reg ipulse + EVR_REG_PULSE_CTRL_OFFSET) 0
       }) [0..evr_pulsegen_count - 1];
     evr_ram_map_init io;
     evr_output_enable io True;
     State_Monad.return (Inr 0)
   }"

abbreviation (input) EVR_OUTPUT_SOURCE_PULSEGEN_FIRST :: int where "EVR_OUTPUT_SOURCE_PULSEGEN_FIRST \<equiv> 0"
abbreviation (input) EVR_OUTPUT_SOURCE_PULSEGEN_COUNT :: int where "EVR_OUTPUT_SOURCE_PULSEGEN_COUNT \<equiv> 32"

definition is_pulsegen_source :: "int \<Rightarrow> bool" where
  "is_pulsegen_source func \<longleftrightarrow> func \<ge> EVR_OUTPUT_SOURCE_PULSEGEN_FIRST
     \<and> func < EVR_OUTPUT_SOURCE_PULSEGEN_FIRST + EVR_OUTPUT_SOURCE_PULSEGEN_COUNT"

text \<open>A function of the simulation on the private data, as a computation.\<close>

definition run_sim :: "(evr_hw_data \<Rightarrow> int res \<times> evr_hw_data) \<Rightarrow> ('h, int res) evr" where
  "run_sim f = do {
     hw_data \<leftarrow> get_hw;
     case f hw_data of (ret, hw) \<Rightarrow> do { upd_hw (\<lambda>_. hw); State_Monad.return ret }
   }"

definition evr_ioc_outset :: "'h modac_io_rw_plugin \<Rightarrow> modac_rm_vres_desc list \<Rightarrow> umem \<Rightarrow> ('h, int res) evr" where
  "evr_ioc_outset io resources m = do {
     hw_data \<leftarrow> get_hw;
     evr_pulsegen_count \<leftarrow> get_res_count EVR_RES_TYPE_PULSEGEN;
     let res_output = resources ! 0;
     let res_pulsegen = resources ! 1;
     if vd_type res_output \<noteq> EVR_RES_TYPE_OUTPUT then State_Monad.return (Inl EINVAL)
     else case copy_from_user m 24 of
       None \<Rightarrow> State_Monad.return (Inl EFAULT)
     | Some bs \<Rightarrow>
         let misc_func = os_misc_func (get_output_set bs) in
         if vd_type res_pulsegen = EVR_RES_TYPE_PULSEGEN then
           (if \<not> is_pulsegen_source (vd_index res_pulsegen) then State_Monad.return (Inl EINVAL)
            else if sim hw_data \<noteq> None
            then run_sim (\<lambda>hw. evr_sim_set_output_to_pulsegen hw (vd_index res_output) (vd_index res_pulsegen))
            else if vd_index res_pulsegen < 0 \<or> vd_index res_pulsegen \<ge> evr_pulsegen_count
            then State_Monad.return (Inl EINVAL)
            else evr_set_out_map io (vd_index res_output) (0 + vd_index res_pulsegen))
         else if vd_type res_pulsegen = MODAC_RES_TYPE_NONE then
           (if is_pulsegen_source misc_func then State_Monad.return (Inl EINVAL)
            else if sim hw_data \<noteq> None
            then run_sim (\<lambda>hw. evr_sim_set_output_to_misc_func hw (vd_index res_output) misc_func)
            else evr_set_out_map io (vd_index res_output) misc_func)
         else State_Monad.return (Inl EINVAL)
   }"

section \<open>Calls on a VIRT_DEV\<close>

definition copy_out :: "umem \<Rightarrow> u8 list \<Rightarrow> int res \<times> umem" where
  "copy_out m bs = (case copy_to_user m 0 bs of None \<Rightarrow> (Inl EFAULT, m) | Some m' \<Rightarrow> (Inr 0, m'))"

definition vevr_ioc_status_get :: "'h modac_io_rw_plugin \<Rightarrow> u8 list \<Rightarrow> umem \<Rightarrow> ('h, int res \<times> umem) evr" where
  "vevr_ioc_status_get io stk m = do {
     v \<leftarrow> evr_read32 io EVR_REG_FW_VERSION;
     f \<leftarrow> evr_read32 io EVR_REG_IRQFLAG;
     ss \<leftarrow> evr_read32 io EVR_REG_SECONDS_SHIFT;
     State_Monad.return (copy_out m
       (take 8 stk @ vevr_status_bytes \<lparr>st_fpga_version = v, st_irq_flags = f, st_seconds_shift = ss\<rparr>))
   }"

text \<open>The largest value of a field; a field without bits can still be set to 1.\<close>

definition MAX_FOR_BIT_INFO :: "int \<Rightarrow> u32" where
  "MAX_FOR_BIT_INFO bits = (if bits = 0 then 1 else ucast (push_bit (nat bits) (1::ulong) - 1))"

definition pulse_param_refused :: "evr_pulsegen_bit_info \<Rightarrow> vevr_ioctl_pulse_param \<Rightarrow> bool" where
  "pulse_param_refused info p \<longleftrightarrow> pp_prescaler p > MAX_FOR_BIT_INFO (prescaler_bits info)
     \<or> pp_delay p > MAX_FOR_BIT_INFO (delay_bits info) \<or> pp_width p > MAX_FOR_BIT_INFO (width_bits info)"

text \<open>The result of the simulation is not passed on.\<close>

definition vevr_ioc_pulse_param_set :: "'h modac_io_rw_plugin \<Rightarrow> modac_rm_vres_desc list \<Rightarrow> umem \<Rightarrow>
    ('h, int res \<times> umem) evr" where
  "vevr_ioc_pulse_param_set io resources m = do {
     hw_data \<leftarrow> get_hw;
     evr_pulsegen_count \<leftarrow> get_res_count EVR_RES_TYPE_PULSEGEN;
     let res_pulsegen = resources ! 0;
     if vd_type res_pulsegen \<noteq> EVR_RES_TYPE_PULSEGEN then State_Monad.return (Inl EINVAL, m)
     else case copy_from_user m 20 of
       None \<Rightarrow> State_Monad.return (Inl EFAULT, m)
     | Some bs \<Rightarrow>
         let args = get_pulse_param bs in
         if sim hw_data \<noteq> None then do {
           _ \<leftarrow> run_sim (\<lambda>hw. evr_sim_set_pulsegen_param hw (vd_index res_pulsegen)
             \<lparr>ps_prescaler = pp_prescaler args, ps_delay = pp_delay args, ps_width = pp_width args\<rparr>);
           State_Monad.return (Inr 0, m)
         }
         else if vd_index res_pulsegen < 0 \<or> vd_index res_pulsegen \<ge> evr_pulsegen_count
         then State_Monad.return (Inl EINVAL, m)
         else if pulse_param_refused (pulsegen_data (hd_type_data hw_data) ! nat (vd_index res_pulsegen)) args
         then State_Monad.return (Inl EINVAL, m)
         else do {
           set_pulse_params io (pulse_reg (vd_index res_pulsegen)) (pp_prescaler args) (pp_delay args) (pp_width args);
           State_Monad.return (Inr 0, m)
         }
   }"

definition vevr_ioc_pulse_param_get :: "'h modac_io_rw_plugin \<Rightarrow> u8 list \<Rightarrow> modac_rm_vres_desc list \<Rightarrow> umem \<Rightarrow>
    ('h, int res \<times> umem) evr" where
  "vevr_ioc_pulse_param_get io stk resources m = do {
     hw_data \<leftarrow> get_hw;
     evr_pulsegen_count \<leftarrow> get_res_count EVR_RES_TYPE_PULSEGEN;
     let res_pulsegen = resources ! 0;
     let args = get_pulse_param stk;
     if vd_type res_pulsegen \<noteq> EVR_RES_TYPE_PULSEGEN then State_Monad.return (Inl EINVAL, m)
     else if sim hw_data \<noteq> None then
       State_Monad.return (copy_out m (pulse_param_bytes
         (case evr_sim_get_pulsegen_param hw_data (vd_index res_pulsegen) of
            Inl e \<Rightarrow> args
          | Inr p \<Rightarrow> args\<lparr>pp_prescaler := ps_prescaler p, pp_delay := ps_delay p, pp_width := ps_width p\<rparr>)))
     else if vd_index res_pulsegen < 0 \<or> vd_index res_pulsegen \<ge> evr_pulsegen_count
     then State_Monad.return (Inl EINVAL, m)
     else do {
       p \<leftarrow> evr_read32 io (pulse_reg (vd_index res_pulsegen) + EVR_REG_PULSE_PRESC_OFFSET);
       d \<leftarrow> evr_read32 io (pulse_reg (vd_index res_pulsegen) + EVR_REG_PULSE_DELAY_OFFSET);
       w \<leftarrow> evr_read32 io (pulse_reg (vd_index res_pulsegen) + EVR_REG_PULSE_WIDTH_OFFSET);
       State_Monad.return (copy_out m (pulse_param_bytes (args\<lparr>pp_prescaler := p, pp_delay := d, pp_width := w\<rparr>)))
     }
   }"

section \<open>Properties of a pulse generator\<close>

text \<open>The masks of the enable bit and of the polarity are complemented.\<close>

definition pctrl_properties :: "u32 \<Rightarrow> vevr_ioctl_pulse_properties \<Rightarrow> vevr_ioctl_pulse_properties" where
  "pctrl_properties pctrl args = args\<lparr>
     pr_enable := (if pctrl AND NOT (BIT C_EVR_PULSE_ENA) \<noteq> 0 then 1 else 0),
     pr_polarity := (if pctrl AND NOT (BIT C_EVR_PULSE_POLARITY) \<noteq> 0 then 1 else 0),
     pr_pulse_cfg_bits :=
       (if pctrl AND BIT C_EVR_PULSE_MAP_RESET_ENA \<noteq> 0 then CFG_BIT EVR_PULSE_CFG_BIT_CLEAR else 0)
       OR (if pctrl AND BIT C_EVR_PULSE_MAP_SET_ENA \<noteq> 0 then CFG_BIT EVR_PULSE_CFG_BIT_SET else 0)
       OR (if pctrl AND BIT C_EVR_PULSE_MAP_TRIG_ENA \<noteq> 0 then CFG_BIT EVR_PULSE_CFG_BIT_TRIGGER else 0)\<rparr>"

definition properties_pctrl :: "vevr_ioctl_pulse_properties \<Rightarrow> u32 \<Rightarrow> u32" where
  "properties_pctrl args pctrl =
     put_bit C_EVR_PULSE_MAP_TRIG_ENA (pr_pulse_cfg_bits args AND CFG_BIT EVR_PULSE_CFG_BIT_TRIGGER \<noteq> 0)
     (put_bit C_EVR_PULSE_MAP_SET_ENA (pr_pulse_cfg_bits args AND CFG_BIT EVR_PULSE_CFG_BIT_SET \<noteq> 0)
     (put_bit C_EVR_PULSE_MAP_RESET_ENA (pr_pulse_cfg_bits args AND CFG_BIT EVR_PULSE_CFG_BIT_CLEAR \<noteq> 0)
     (put_bit C_EVR_PULSE_POLARITY (pr_polarity args \<noteq> 0)
     (put_bit C_EVR_PULSE_ENA (pr_enable args \<noteq> 0) pctrl))))"

definition vevr_ioc_pulse_prop :: "'h modac_io_rw_plugin \<Rightarrow> u8 list \<Rightarrow> bool \<Rightarrow> modac_rm_vres_desc list \<Rightarrow> umem \<Rightarrow>
    ('h, int res \<times> umem) evr" where
  "vevr_ioc_pulse_prop io stk reading resources m = do {
     hw_data \<leftarrow> get_hw;
     evr_pulsegen_count \<leftarrow> get_res_count EVR_RES_TYPE_PULSEGEN;
     let res_pulsegen = resources ! 0;
     let ctrl_reg = pulse_reg (vd_index res_pulsegen) + EVR_REG_PULSE_CTRL_OFFSET;
     if vd_type res_pulsegen \<noteq> EVR_RES_TYPE_PULSEGEN then State_Monad.return (Inl EINVAL, m)
     else if sim hw_data \<noteq> None then State_Monad.return (Inl ENOSYS, m)
     else if vd_index res_pulsegen < 0 \<or> vd_index res_pulsegen \<ge> evr_pulsegen_count
     then State_Monad.return (Inl EINVAL, m)
     else if reading then do {
       pctrl \<leftarrow> evr_read32 io ctrl_reg;
       State_Monad.return (copy_out m (pulse_properties_bytes (pctrl_properties pctrl (get_pulse_properties stk))))
     }
     else case copy_from_user m 12 of
       None \<Rightarrow> State_Monad.return (Inl EFAULT, m)
     | Some bs \<Rightarrow> do {
         pctrl \<leftarrow> evr_read32 io ctrl_reg;
         evr_write32 io ctrl_reg (properties_pctrl (get_pulse_properties bs) pctrl);
         State_Monad.return (Inr 0, m)
       }
   }"

section \<open>Map RAM of a pulse generator\<close>

definition get_map_item :: "u32 \<Rightarrow> evr_map_ram_item \<Rightarrow> u8" where
  "get_map_item pulse_mask item =
     (if pulse_clear item AND pulse_mask \<noteq> 0 then CFG_BIT EVR_PULSE_CFG_BIT_CLEAR else 0)
     OR (if pulse_set item AND pulse_mask \<noteq> 0 then CFG_BIT EVR_PULSE_CFG_BIT_SET else 0)
     OR (if pulse_trigger item AND pulse_mask \<noteq> 0 then CFG_BIT EVR_PULSE_CFG_BIT_TRIGGER else 0)"

definition set_map_item :: "u32 \<Rightarrow> u8 \<Rightarrow> evr_map_ram_item \<Rightarrow> evr_map_ram_item" where
  "set_map_item pulse_mask b item = item\<lparr>
     pulse_clear := (if b AND CFG_BIT EVR_PULSE_CFG_BIT_CLEAR \<noteq> 0 then pulse_clear item OR pulse_mask
                     else pulse_clear item AND NOT pulse_mask),
     pulse_set := (if b AND CFG_BIT EVR_PULSE_CFG_BIT_SET \<noteq> 0 then pulse_set item OR pulse_mask
                   else pulse_set item AND NOT pulse_mask),
     pulse_trigger := (if b AND CFG_BIT EVR_PULSE_CFG_BIT_TRIGGER \<noteq> 0 then pulse_trigger item OR pulse_mask
                       else pulse_trigger item AND NOT pulse_mask)\<rparr>"

text \<open>The loop over the events; \<open>bs\<close> is the array \<open>map\<close>.\<close>

definition write_map :: "u32 \<Rightarrow> nat \<Rightarrow> nat \<Rightarrow> u8 list \<Rightarrow> ('h, unit) evr" where
  "write_map pulse_mask event_first event_count bs =
     for_each (\<lambda>i. upd_hw (\<lambda>hw. hw\<lparr>map_ram := (map_ram hw)(event_first + i :=
       set_map_item pulse_mask (bs ! i) (map_ram hw (event_first + i)))\<rparr>)) [0..<event_count]"

text \<open>What the call has read of its argument: the structure for all events, the one for one event, or a fault.\<close>

datatype map_ram_args = All_Events vevr_ioctl_pulse_map_ram | One_Event vevr_ioctl_pulse_map_ram_for_event

definition map_ram_args :: "bool \<Rightarrow> bool \<Rightarrow> u8 list \<Rightarrow> umem \<Rightarrow> map_ram_args option" where
  "map_ram_args all reading stk m =
     (if \<not> all then map_option (\<lambda>bs. One_Event (get_pulse_map_ram_for_event bs)) (copy_from_user m 12)
      else if \<not> reading then map_option (\<lambda>bs. All_Events (get_pulse_map_ram bs)) (copy_from_user m 264)
      else Some (All_Events (get_pulse_map_ram stk)))"

definition vevr_ioc_pulse_map_ram :: "'h modac_io_rw_plugin \<Rightarrow> u8 list \<Rightarrow> bool \<Rightarrow> bool \<Rightarrow>
    modac_rm_vres_desc list \<Rightarrow> umem \<Rightarrow> ('h, int res \<times> umem) evr" where
  "vevr_ioc_pulse_map_ram io stk all reading resources m = do {
     hw_data \<leftarrow> get_hw;
     evr_pulsegen_count \<leftarrow> get_res_count EVR_RES_TYPE_PULSEGEN;
     let res_pulsegen = resources ! 0;
     if vd_type res_pulsegen \<noteq> EVR_RES_TYPE_PULSEGEN then State_Monad.return (Inl EINVAL, m)
     else if sim hw_data \<noteq> None then State_Monad.return (Inl ENOSYS, m)
     else case map_ram_args all reading stk m of
       None \<Rightarrow> State_Monad.return (Inl EFAULT, m)
     | Some args \<Rightarrow>
         if vd_index res_pulsegen < 0 \<or> vd_index res_pulsegen \<ge> evr_pulsegen_count
         then State_Monad.return (Inl EINVAL, m)
         else
           let pulse_mask = BIT (nat (vd_index res_pulsegen)) in
           case args of
             All_Events a \<Rightarrow>
               if reading
               then State_Monad.return (copy_out m (pulse_map_ram_bytes
                 (a\<lparr>mr_map := map (\<lambda>i. get_map_item pulse_mask (map_ram hw_data i)) [0..<EVR_EVENT_CODES]\<rparr>)))
               else do {
                 write_map pulse_mask 0 EVR_EVENT_CODES (mr_map a);
                 evr_ram_map_change_flush io;
                 State_Monad.return (Inr 0, m)
               }
           | One_Event a \<Rightarrow>
               if reading
               then State_Monad.return (copy_out m (pulse_map_ram_for_event_bytes
                 (a\<lparr>me_map := get_map_item pulse_mask (map_ram hw_data (unat (me_event_code a)))\<rparr>)))
               else do {
                 write_map pulse_mask (unat (me_event_code a)) 1 [me_map a];
                 evr_ram_map_change_flush io;
                 State_Monad.return (Inr 0, m)
               }
   }"

section \<open>The dispatch\<close>

definition no_out :: "umem \<Rightarrow> ('h, int res) evr \<Rightarrow> ('h, int res \<times> umem) evr" where
  "no_out m f = do { ret \<leftarrow> f; State_Monad.return (ret, m) }"

definition hw_support_evr_ioctl :: "'h modac_io_rw_plugin \<Rightarrow> u8 list \<Rightarrow> modac_rm_vres_desc list \<Rightarrow> u32 \<Rightarrow> umem \<Rightarrow>
    ('h, int res \<times> umem) evr" where
  "hw_support_evr_ioctl io stk resources cmd m =
     (if cmd = MNG_DEV_EVR_IOC_INIT then no_out m (evr_ioc_init io)
      else if cmd = MNG_DEV_EVR_IOC_OUTSET then no_out m (evr_ioc_outset io resources m)
      else if cmd = VEVR_IOC_STATUS_GET then vevr_ioc_status_get io stk m
      else if cmd = VEVR_IOC_PULSE_PARAM_SET then vevr_ioc_pulse_param_set io resources m
      else if cmd = VEVR_IOC_PULSE_PARAM_GET then vevr_ioc_pulse_param_get io stk resources m
      else if cmd = VEVR_IOC_PULSE_PROP_SET then vevr_ioc_pulse_prop io stk False resources m
      else if cmd = VEVR_IOC_PULSE_PROP_GET then vevr_ioc_pulse_prop io stk True resources m
      else if cmd = VEVR_IOC_PULSE_MAP_RAM_SET then vevr_ioc_pulse_map_ram io stk True False resources m
      else if cmd = VEVR_IOC_PULSE_MAP_RAM_SET_FOR_EVENT then vevr_ioc_pulse_map_ram io stk False False resources m
      else if cmd = VEVR_IOC_PULSE_MAP_RAM_GET then vevr_ioc_pulse_map_ram io stk True True resources m
      else if cmd = VEVR_IOC_PULSE_MAP_RAM_GET_FOR_EVENT then vevr_ioc_pulse_map_ram io stk False True resources m
      else State_Monad.return (Inl ENOSYS, m))"

section \<open>Lemmas on the parts\<close>

text \<open>Setting and getting one event's actions of a pulse generator.\<close>

lemma and_BIT: "n < 32 \<Longrightarrow> w AND BIT n \<noteq> 0 \<longleftrightarrow> bit w n"
  by (simp add: and_BIT_eq_0)

lemma set_map_item_bits:
  assumes "p < 32" and "n < 32"
  shows "bit (pulse_clear (set_map_item (BIT p) b item)) n \<longleftrightarrow> (if n = p then bit b 0 else bit (pulse_clear item) n)"
    "bit (pulse_set (set_map_item (BIT p) b item)) n \<longleftrightarrow> (if n = p then bit b 1 else bit (pulse_set item) n)"
    "bit (pulse_trigger (set_map_item (BIT p) b item)) n \<longleftrightarrow> (if n = p then bit b 2 else bit (pulse_trigger item) n)"
  using assms by (auto simp: set_map_item_def bit_simps and_CFG_BIT)

lemma set_map_item_int_event [simp]: "int_event (set_map_item pulse_mask b item) = int_event item"
  by (simp add: set_map_item_def)

lemma get_set_map_item: "p < 32 \<Longrightarrow> get_map_item (BIT p) (set_map_item (BIT p) b item) = b AND 7"
proof -
  assume p: "p < 32"
  have "get_map_item (BIT p) (set_map_item (BIT p) b item)
    = (if bit b 0 then CFG_BIT 0 else 0) OR (if bit b 1 then CFG_BIT 1 else 0) OR (if bit b 2 then CFG_BIT 2 else 0)"
    unfolding get_map_item_def and_BIT [OF p] set_map_item_bits [OF p p] by simp
  moreover have "(if bit b 0 then CFG_BIT 0 else 0) OR (if bit b 1 then CFG_BIT 1 else 0)
      OR (if bit b 2 then CFG_BIT 2 else 0) = b AND 7"
  proof (rule bit_word_eqI)
    fix n assume "n < LENGTH(8)"
    have 7: "bit (b AND 7) n \<longleftrightarrow> bit b n \<and> n < 3" by (simp only: bit_and_iff bit_seven)
    show "bit ((if bit b 0 then CFG_BIT 0 else 0) OR (if bit b 1 then CFG_BIT 1 else 0)
        OR (if bit b 2 then CFG_BIT 2 else 0)) n = bit (b AND 7) n"
    proof (cases "n < 3")
      case True
      then have "n = 0 \<or> n = 1 \<or> n = 2" by linarith
      then show ?thesis unfolding 7 by (elim disjE) (simp_all add: bit_or_iff)
    qed (simp add: 7 bit_or_iff)
  qed
  ultimately show ?thesis by (rule trans)
qed

lemma get_other_map_item: "p < 32 \<Longrightarrow> q < 32 \<Longrightarrow> p \<noteq> q \<Longrightarrow>
    get_map_item (BIT q) (set_map_item (BIT p) b item) = get_map_item (BIT q) item"
  unfolding get_map_item_def by (simp only: and_BIT set_map_item_bits) simp


text \<open>The copy of the Map RAM after the loop.\<close>

definition ram_written :: "u32 \<Rightarrow> nat \<Rightarrow> nat \<Rightarrow> u8 list \<Rightarrow> (nat \<Rightarrow> evr_map_ram_item) \<Rightarrow> nat \<Rightarrow> evr_map_ram_item" where
  "ram_written pulse_mask first n bs = ram_mapped first n (\<lambda>i. set_map_item pulse_mask (bs ! i))"

lemma run_write_map:
  "run_state (write_map pm first n bs) s =
     ((), s\<lparr>ev_hw := (ev_hw s)\<lparr>map_ram := ram_written pm first n bs (map_ram (ev_hw s))\<rparr>\<rparr>)"
  unfolding write_map_def ram_written_def by (rule run_map_ram_loop)

text \<open>The byte that a call has for an event code, and the copy of the Map RAM after it.\<close>

fun args_map :: "map_ram_args \<Rightarrow> nat \<Rightarrow> u8 option" where
  "args_map (All_Events a) e = (if e < EVR_EVENT_CODES then Some (mr_map a ! e) else None)"
| "args_map (One_Event a) e = (if e = unat (me_event_code a) then Some (me_map a) else None)"

definition ram_after :: "u32 \<Rightarrow> map_ram_args \<Rightarrow> (nat \<Rightarrow> evr_map_ram_item) \<Rightarrow> nat \<Rightarrow> evr_map_ram_item" where
  "ram_after pulse_mask args ram e =
     (case args_map args e of Some b \<Rightarrow> set_map_item pulse_mask b (ram e) | None \<Rightarrow> ram e)"

lemma ram_after_written:
  "ram_after pm (All_Events a) ram = ram_written pm 0 EVR_EVENT_CODES (mr_map a) ram"
  "ram_after pm (One_Event b) ram = ram_written pm (unat (me_event_code b)) 1 [me_map b] ram"
  by (auto simp: ram_after_def ram_written_def ram_mapped_def fun_eq_iff)

text \<open>The call of a VIRT_DEV on a pulse generator that exists, on a card.\<close>

definition on_pulsegen :: "'h evr_state \<Rightarrow> modac_rm_vres_desc list \<Rightarrow> int \<Rightarrow> bool" where
  "on_pulsegen s resources p \<longleftrightarrow> sim (ev_hw s) = None \<and> resources ! 0 = \<lparr>vd_type = EVR_RES_TYPE_PULSEGEN, vd_index = p\<rparr>
     \<and> 0 \<le> p \<and> p < ev_res_count s EVR_RES_TYPE_PULSEGEN"

lemma run_map_ram_set:
  assumes "on_pulsegen s resources p" and "map_ram_args all False stk m = Some args"
  shows "run_state (vevr_ioc_pulse_map_ram io stk all False resources m) s =
    ((Inr 0, m), snd (run_state (evr_ram_map_change_flush io)
      (s\<lparr>ev_hw := (ev_hw s)\<lparr>map_ram := ram_after (BIT (nat p)) args (map_ram (ev_hw s))\<rparr>\<rparr>)))"
  using assms
  by (cases args)
    (simp_all add: vevr_ioc_pulse_map_ram_def on_pulsegen_def run_write_map ram_after_written split: prod.split)

lemma ev_hw_flush: "ev_hw (snd (run_state (evr_ram_map_change_flush (bus_plugin d16 d32)) s)) = ev_hw s"
  by (simp add: run_flush Let_def)

section \<open>Properties\<close>

text \<open>
  C35: A VIRT_DEV that sets the actions of its pulse generator, for one event code or for all of them,
  changes the generator's own bit in the clear, set and trigger masks of the event codes it names, to
  the bits 0, 1 and 2 of the byte it gave, and nothing else: no bit of another generator and no internal
  function of an event. The changed copy is then written to the hardware.
\<close>
theorem map_ram_set_own_bit:
  assumes "on_pulsegen s resources p" and "p < 32" and "map_ram_args all False stk m = Some args"
    and "run_state (vevr_ioc_pulse_map_ram (bus_plugin d16 d32) stk all False resources m) s = (ret, s1)"
  shows "ret = (Inr 0, m)
    \<and> (\<exists>s0. run_state (evr_ram_map_change_flush (bus_plugin d16 d32)) s0 = ((), s1) \<and> ev_dev s0 = ev_dev s)
    \<and> (\<forall>e. int_event (map_ram (ev_hw s1) e) = int_event (map_ram (ev_hw s) e) \<and> (\<forall>n<32.
         let own = (\<lambda>field k. bit (field (map_ram (ev_hw s1) e)) n \<longleftrightarrow>
           (case args_map args e of Some b \<Rightarrow> if int n = p then bit b k else bit (field (map_ram (ev_hw s) e)) n
            | None \<Rightarrow> bit (field (map_ram (ev_hw s) e)) n))
         in own pulse_clear 0 \<and> own pulse_set 1 \<and> own pulse_trigger 2))"
proof -
  let ?s0 = "s\<lparr>ev_hw := (ev_hw s)\<lparr>map_ram := ram_after (BIT (nat p)) args (map_ram (ev_hw s))\<rparr>\<rparr>"
  have p: "0 \<le> p" using assms(1) by (simp add: on_pulsegen_def)
  have run: "ret = (Inr 0, m)" "s1 = snd (run_state (evr_ram_map_change_flush (bus_plugin d16 d32)) ?s0)"
    using assms(4) by (simp_all add: run_map_ram_set [OF assms(1,3)])
  have flushed: "run_state (evr_ram_map_change_flush (bus_plugin d16 d32)) ?s0 = ((), s1)"
    using run(2) by (intro prod_eqI) simp_all
  have ram: "map_ram (ev_hw s1) = ram_after (BIT (nat p)) args (map_ram (ev_hw s))"
    unfolding run(2) ev_hw_flush by simp
  have "nat p < 32" using assms(2) p by simp
  note bits = set_map_item_bits [OF this]
  have eq: "int n = p \<longleftrightarrow> n = nat p" for n using p by auto
  show ?thesis
    using run(1) flushed
    by (intro conjI exI [of _ ?s0]) (auto simp: ram ram_after_def bits eq Let_def split: option.split)
qed

lemma on_pulsegen_cpci: "0 \<le> p \<Longrightarrow> p < 10 \<Longrightarrow> on_pulsegen evr_cpci [\<lparr>vd_type = 0, vd_index = p\<rparr>] p"
  by (simp add: on_pulsegen_def evr_cpci_def init_out_cfg_def Let_def hw_ex_def zero_hw_data_def)

text \<open>User memory with an argument in it.\<close>

definition umem_of :: "u8 list \<Rightarrow> umem" where
  "umem_of bs = (\<lambda>i. if i < length bs then Some (bs ! i) else None)"

lemma copy_umem_of: "n = length bs \<Longrightarrow> copy_from_user (umem_of bs) n = Some bs"
  by (auto simp: copy_from_user_def umem_of_def umem_bytes_def intro: nth_equalityI)


lemma map_ram_set_own_bit_witness:
  "bit (pulse_trigger (map_ram (ev_hw (snd (run_state (vevr_ioc_pulse_map_ram io_ex [] False False
      [\<lparr>vd_type = 0, vd_index = 3\<rparr>] (umem_of [0, 0, 0, 0, 3, 0, 0, 0, 40, 5, 0, 0])) evr_cpci))) 40)) 3"
proof -
  let ?m = "umem_of [0, 0, 0, 0, 3, 0, 0, 0, 40, 5, 0, 0]"
  let ?res = "[\<lparr>vd_type = 0, vd_index = 3::int\<rparr>]"
  obtain ret s1 where run: "run_state (vevr_ioc_pulse_map_ram io_ex [] False False ?res ?m) evr_cpci = (ret, s1)"
    by (cases "run_state (vevr_ioc_pulse_map_ram io_ex [] False False ?res ?m) evr_cpci")
  have args: "map_ram_args False False [] ?m = Some (One_Event \<lparr>me_header = [0, 0, 0, 0, 3, 0, 0, 0], me_event_code = 40,
      me_map = 5, me_pad = [0, 0]\<rparr>)"
    by (simp add: map_ram_args_def copy_umem_of get_pulse_map_ram_for_event_def byte_at_def)
  from map_ram_set_own_bit [OF on_pulsegen_cpci _ args run] run show ?thesis
    by (auto simp: Let_def bit_numeral_rec dest!: spec [where x = "3::nat"] spec [where x = "40::nat"])
qed

text \<open>
  C36: What a VIRT_DEV has set for an event code is what it reads back, the three lowest bits of its byte:
  after a call that sets the actions of a pulse generator, the call that gets them for an event code that was
  set returns that byte cut to three bits, and for the same event code and any other generator the actions
  that were there before.
\<close>
theorem map_ram_get_after_set:
  assumes "on_pulsegen s resources p" and "p < 32" and "map_ram_args all False stk m = Some args"
    and "run_state (vevr_ioc_pulse_map_ram (bus_plugin d16 d32) stk all False resources m) s = (ret, s1)"
    and "copy_from_user m1 12 = Some bs" and "args_map args (unat (byte_at bs 8)) = Some b"
    and "on_pulsegen s1 resources1 q" and "q < 32"
  shows "run_state (vevr_ioc_pulse_map_ram (bus_plugin d16 d32) stk1 False True resources1 m1) s1
    = (copy_out m1 (take 9 bs @ [if q = p then b AND 7
        else get_map_item (BIT (nat q)) (map_ram (ev_hw s) (unat (byte_at bs 8)))] @ drop 10 bs), s1)"
proof -
  have len: "length bs = 12" using assms(5) by (rule copy_from_user_length)
  have ram: "map_ram (ev_hw s1) = ram_after (BIT (nat p)) args (map_ram (ev_hw s))"
    using assms(4) unfolding run_map_ram_set [OF assms(1,3)] by (auto simp: ev_hw_flush)
  have pq: "nat p < 32" "nat q < 32" "nat p = nat q \<longleftrightarrow> p = q"
    using assms(1,2,7,8) by (auto simp: on_pulsegen_def)
  have item: "get_map_item (BIT (nat q)) (map_ram (ev_hw s1) (unat (byte_at bs 8))) =
      (if q = p then b AND 7 else get_map_item (BIT (nat q)) (map_ram (ev_hw s) (unat (byte_at bs 8))))"
    using get_set_map_item [OF pq(1)] get_other_map_item [OF pq(1,2)] pq(3) assms(6)
    by (auto simp: ram ram_after_def)
  have bytes: "pulse_map_ram_for_event_bytes ((get_pulse_map_ram_for_event bs)\<lparr>me_map := x\<rparr>) = take 9 bs @ [x] @ drop 10 bs" for x
    using len by (simp add: pulse_map_ram_for_event_bytes_def get_pulse_map_ram_for_event_def byte_at_def take_Suc_conv_app_nth
        eval_nat_numeral)
  show ?thesis
    using assms(5,7)
    by (simp add: vevr_ioc_pulse_map_ram_def on_pulsegen_def map_ram_args_def item [symmetric]
        bytes [unfolded get_pulse_map_ram_for_event_def, simplified] get_pulse_map_ram_for_event_def)
qed


lemma on_pulsegen_set:
  assumes "run_state (vevr_ioc_pulse_map_ram (bus_plugin d16 d32) stk all False resources m) s = (ret, s1)"
    and "on_pulsegen s resources p" and "map_ram_args all False stk m = Some args"
  shows "on_pulsegen s1 resources1 q = on_pulsegen s resources1 q"
  using assms(1) unfolding run_map_ram_set [OF assms(2,3)] by (auto simp: on_pulsegen_def run_flush Let_def)

lemma map_ram_get_after_set_witness:
  "\<exists>s1. run_state (vevr_ioc_pulse_map_ram io_ex [] False True [\<lparr>vd_type = 0, vd_index = 3\<rparr>]
      (umem_of [0, 0, 0, 0, 3, 0, 0, 0, 40, 0, 0, 0])) s1
    = (copy_out (umem_of [0, 0, 0, 0, 3, 0, 0, 0, 40, 0, 0, 0]) [0, 0, 0, 0, 3, 0, 0, 0, 40, 5, 0, 0], s1)"
proof -
  let ?m = "umem_of [0, 0, 0, 0, 3, 0, 0, 0, 40, 0xfd, 0, 0]"
  let ?m1 = "umem_of [0, 0, 0, 0, 3, 0, 0, 0, 40, 0, 0, 0]"
  let ?res = "[\<lparr>vd_type = 0, vd_index = 3::int\<rparr>]"
  obtain ret s1 where run: "run_state (vevr_ioc_pulse_map_ram io_ex [] False False ?res ?m) evr_cpci = (ret, s1)"
    by (cases "run_state (vevr_ioc_pulse_map_ram io_ex [] False False ?res ?m) evr_cpci")
  have args: "map_ram_args False False [] ?m = Some (One_Event \<lparr>me_header = [0, 0, 0, 0, 3, 0, 0, 0], me_event_code = 40,
      me_map = 0xfd, me_pad = [0, 0]\<rparr>)"
    by (simp add: map_ram_args_def copy_umem_of get_pulse_map_ram_for_event_def byte_at_def)
  have on: "on_pulsegen evr_cpci ?res 3" by (rule on_pulsegen_cpci) simp_all
  have on1: "on_pulsegen s1 ?res 3" using on unfolding on_pulsegen_set [OF run on args] .
  have copy: "copy_from_user ?m1 12 = Some [0, 0, 0, 0, 3, 0, 0, 0, 40, 0, 0, 0]" by (simp add: copy_umem_of)
  from map_ram_get_after_set [OF on _ args run copy _ on1, of "0xfd" "[]"]
  have "run_state (vevr_ioc_pulse_map_ram io_ex [] False True ?res ?m1) s1
    = (copy_out ?m1 [0, 0, 0, 0, 3, 0, 0, 0, 40, 5, 0, 0], s1)"
    by (simp add: byte_at_def)
  then show ?thesis by blast
qed

text \<open>A value that a field with \<open>bits\<close> bits can hold; a field without bits takes 0 and 1.\<close>

definition field_fits :: "int \<Rightarrow> u32 \<Rightarrow> bool" where
  "field_fits bits v \<longleftrightarrow> (if bits = 0 then v \<le> 1 else uint v < 2 ^ nat bits)"

lemma MAX_FOR_BIT_INFO_fits:
  assumes "0 \<le> bits" "bits \<le> 32"
  shows "v > MAX_FOR_BIT_INFO bits \<longleftrightarrow> \<not> field_fits bits v"
proof (cases "bits = 0")
  case False
  let ?n = "nat bits"
  have n: "?n \<le> 32" using assms by simp
  have "push_bit ?n (1::ulong) - 1 = mask ?n" by (simp add: mask_eq_exp_minus_1 push_bit_eq_mult)
  moreover have "(ucast (mask ?n :: ulong) :: u32) = mask ?n"
    using n by (intro bit_word_eqI) (simp add: bit_simps)
  ultimately have "MAX_FOR_BIT_INFO bits = mask ?n" using False by (simp add: MAX_FOR_BIT_INFO_def)
  moreover have "uint (mask ?n :: u32) = 2 ^ ?n - 1"
  proof -
    have "uint (mask ?n :: u32) = mask ?n"
      using n by (intro bit_eqI) (auto simp: bit_simps)
    then show ?thesis by (simp add: mask_eq_exp_minus_1)
  qed
  ultimately show ?thesis using False by (auto simp: field_fits_def word_less_def)
qed (auto simp: MAX_FOR_BIT_INFO_def field_fits_def)

lemma uint_pulse_reg:
  assumes "0 \<le> p" "p < 16" "k < 16"
  shows "uint (pulse_reg p + of_nat k) = 0x200 + 16 * p + int k"
proof -
  let ?n = "512 + 16 * p + int k"
  have "pulse_reg p + of_nat k = of_int ?n" by (simp add: pulse_reg_def)
  moreover have "uint (of_int ?n :: u32) = ?n"
    using assms by (simp only: unsigned_of_int) (simp add: take_bit_int_eq_self_iff)
  ultimately show ?thesis by (simp only:)
qed


text \<open>
  C37: Setting the parameters of a pulse generator is all or nothing: if the prescaler, the delay and the width fit
  in the bits that the generator of this EVR type has, the three are written, each once, to registers in the
  generator's own slot; else the call fails with EINVAL and the device is not touched.
\<close>
theorem pulse_param_set_bounds:
  assumes "on_pulsegen s resources p" and "evr_type_of docd fw = Some (hd_type_data (ev_hw s))"
    and "ev_res_count s EVR_RES_TYPE_PULSEGEN = pulsegen_count (hd_type_data (ev_hw s))"
    and "copy_from_user m 20 = Some bs" and "get_pulse_param bs = args"
    and "pulsegen_data (hd_type_data (ev_hw s)) ! nat p = info"
  shows "run_state (vevr_ioc_pulse_param_set (bus_plugin d16 d32) resources m) s =
    (if field_fits (prescaler_bits info) (pp_prescaler args) \<and> field_fits (delay_bits info) (pp_delay args)
        \<and> field_fits (width_bits info) (pp_width args)
     then ((Inr 0, m), s\<lparr>ev_dev := [W32 (pulse_reg p + 12) (swab32 (pp_width args)),
       W32 (pulse_reg p + 8) (swab32 (pp_delay args)), W32 (pulse_reg p + 4) (swab32 (pp_prescaler args))] @ ev_dev s\<rparr>)
     else ((Inl EINVAL, m), s))
    \<and> uint (pulse_reg p + 4) = 0x204 + 16 * p \<and> uint (pulse_reg p + 8) = 0x208 + 16 * p
    \<and> uint (pulse_reg p + 12) = 0x20c + 16 * p"
proof -
  have td: "type_ok (hd_type_data (ev_hw s))"
    using evr_types_ok evr_type_of_types [OF assms(2)] by (simp add: list_all_iff)
  have p: "0 \<le> p" "p < 16" using assms(1,3) td by (auto simp: on_pulsegen_def type_ok_def)
  have "bits_ok info" using td p assms(6) by (auto simp: type_ok_def list_all_iff intro!: nth_mem)
  then have refused: "pulse_param_refused info args \<longleftrightarrow> \<not> (field_fits (prescaler_bits info) (pp_prescaler args)
      \<and> field_fits (delay_bits info) (pp_delay args) \<and> field_fits (width_bits info) (pp_width args))"
    by (auto simp: pulse_param_refused_def bits_ok_def MAX_FOR_BIT_INFO_fits)
  have "run_state (vevr_ioc_pulse_param_set (bus_plugin d16 d32) resources m) s =
    (if pulse_param_refused info args then ((Inl EINVAL, m), s)
     else ((Inr 0, m), s\<lparr>ev_dev := [W32 (pulse_reg p + 12) (swab32 (pp_width args)),
       W32 (pulse_reg p + 8) (swab32 (pp_delay args)), W32 (pulse_reg p + 4) (swab32 (pp_prescaler args))] @ ev_dev s\<rparr>))"
    using assms by (simp add: vevr_ioc_pulse_param_set_def on_pulsegen_def set_pulse_params_def Let_def)
  moreover note uint_pulse_reg [OF p, of 4] uint_pulse_reg [OF p, of 8] uint_pulse_reg [OF p, of 12]
  ultimately show ?thesis unfolding refused by simp
qed

lemma pulse_param_set_bounds_witness:
  "run_state (vevr_ioc_pulse_param_set io_ex [\<lparr>vd_type = 0, vd_index = 0\<rparr>]
      (umem_of [0, 0, 0, 0, 0, 0, 0, 0, 0, 0, 1, 0, 1, 0, 0, 0, 1, 0, 0, 0])) evr_cpci
    = ((Inl EINVAL, umem_of [0, 0, 0, 0, 0, 0, 0, 0, 0, 0, 1, 0, 1, 0, 0, 0, 1, 0, 0, 0]), evr_cpci)"
proof -
  let ?bs = "[0, 0, 0, 0, 0, 0, 0, 0, 0, 0, 1, 0, 1, 0, 0, 0, 1, 0, 0, 0] :: u8 list"
  have on: "on_pulsegen evr_cpci [\<lparr>vd_type = 0, vd_index = 0\<rparr>] 0" by (rule on_pulsegen_cpci) simp_all
  have count: "ev_res_count evr_cpci 0 = pulsegen_count (hd_type_data (ev_hw evr_cpci))"
    unfolding evr_cpci_pulses by (simp add: evr_cpci_def)
  have copy: "copy_from_user (umem_of ?bs) 20 = Some ?bs" by (simp add: copy_umem_of)
  have info: "pulsegen_data (hd_type_data (ev_hw evr_cpci)) ! nat 0 = bits_info 16 32 32" by (simp add: evr_cpci_pulses)
  have "pp_prescaler (get_pulse_param ?bs) = 0x10000" by (simp add: get_pulse_param_def u32_at_def)
  then have "\<not> field_fits 16 (pp_prescaler (get_pulse_param ?bs))" by (simp add: field_fits_def)
  with pulse_param_set_bounds [OF on evr_cpci_type count copy refl info] show ?thesis
    by (simp add: bits_info_def)
qed

text \<open>In the simulation the call reports success also when the pulse generator does not exist and nothing was set.\<close>

lemma sim_pulse_param_error_lost:
  assumes "sim (ev_hw s) \<noteq> None" and "vd_type (resources ! 0) = EVR_RES_TYPE_PULSEGEN"
    and "vd_index (resources ! 0) < 0 \<or> int EVRSIM_PULSEGEN_COUNT \<le> vd_index (resources ! 0)"
    and "copy_from_user m 20 = Some bs"
  shows "fst (evr_sim_set_pulsegen_param (ev_hw s) (vd_index (resources ! 0)) q) = Inl EINVAL"
    and "run_state (vevr_ioc_pulse_param_set io resources m) s = ((Inr 0, m), s)"
  using assms by (auto simp: evr_sim_set_pulsegen_param_def vevr_ioc_pulse_param_set_def run_sim_def Let_def)

lemma bit_properties_pctrl:
  "n < 32 \<Longrightarrow> bit (properties_pctrl args pctrl) n \<longleftrightarrow>
    (if n = 0 then pr_enable args \<noteq> 0 else if n = 1 then bit (pr_pulse_cfg_bits args) 2
     else if n = 2 then bit (pr_pulse_cfg_bits args) 1 else if n = 3 then bit (pr_pulse_cfg_bits args) 0
     else if n = 4 then pr_polarity args \<noteq> 0 else bit pctrl n)"
  by (auto simp: properties_pctrl_def bit_put_bit and_CFG_BIT)

lemma and_NOT_BIT: "k < 32 \<Longrightarrow> (w::u32) AND NOT (BIT k) \<noteq> 0 \<longleftrightarrow> (\<exists>n<32. n \<noteq> k \<and> bit w n)"
proof
  assume "w AND NOT (BIT k) \<noteq> 0"
  then obtain n where "bit (w AND NOT (BIT k)) n" by (metis bit_eqI bit_0_eq bot_apply bot_bool_def)
  then have "n < 32" "n \<noteq> k" "bit w n" by (auto simp: bit_simps dest: bit_imp_le_length)
  then show "\<exists>n<32. n \<noteq> k \<and> bit w n" by blast
next
  assume k: "k < 32" and "\<exists>n<32. n \<noteq> k \<and> bit w n"
  then obtain n where n: "n < 32" "n \<noteq> k" "bit w n" by blast
  then have "bit (w AND NOT (BIT k)) n" by (simp add: bit_simps)
  then show "w AND NOT (BIT k) \<noteq> 0" by auto
qed


lemma cfg_bits_back:
  "(if bit pctrl 3 then CFG_BIT 0 else 0) OR (if bit pctrl 2 then CFG_BIT 1 else 0) OR (if bit pctrl 1 then CFG_BIT 2 else 0) = b AND 7"
  if "bit pctrl 3 = bit b 0" "bit pctrl 2 = bit b 1" "bit pctrl 1 = bit b 2" for pctrl :: u32 and b :: u8
proof (rule bit_word_eqI)
  fix n assume "n < LENGTH(8)"
  have 7: "bit (b AND 7) n \<longleftrightarrow> bit b n \<and> n < 3" by (simp only: bit_and_iff bit_seven)
  show "bit ((if bit pctrl 3 then CFG_BIT 0 else 0) OR (if bit pctrl 2 then CFG_BIT 1 else 0)
      OR (if bit pctrl 1 then CFG_BIT 2 else 0)) n = bit (b AND 7) n"
  proof (cases "n < 3")
    case True
    then have "n = 0 \<or> n = 1 \<or> n = 2" by linarith
    then show ?thesis unfolding 7 that by (elim disjE) (simp_all add: bit_or_iff)
  qed (simp add: 7 bit_or_iff)
qed

text \<open>What the getter reports for a control register.\<close>

definition other_bit_set :: "u32 \<Rightarrow> nat \<Rightarrow> bool" where
  "other_bit_set w k \<longleftrightarrow> (\<exists>n\<in>{..<32}. n \<noteq> k \<and> bit w n)"

lemma pctrl_properties_set:
  assumes "\<forall>n<32. bit pctrl n \<longleftrightarrow> bit (properties_pctrl args pctrl0) n"
  shows "pctrl_properties pctrl p = p\<lparr>pr_enable := of_bool (other_bit_set pctrl 0),
    pr_polarity := of_bool (other_bit_set pctrl 4), pr_pulse_cfg_bits := pr_pulse_cfg_bits args AND 7\<rparr>"
proof -
  have "bit pctrl 3 = bit (pr_pulse_cfg_bits args) 0" "bit pctrl 2 = bit (pr_pulse_cfg_bits args) 1"
    "bit pctrl 1 = bit (pr_pulse_cfg_bits args) 2"
    using assms by (simp_all add: bit_properties_pctrl)
  from cfg_bits_back [OF this] show ?thesis
    by (simp add: pctrl_properties_def and_BIT_eq_0 and_NOT_BIT other_bit_set_def of_bool_def Bex_def)
qed

text \<open>
  C38: Setting the properties of a pulse generator is one read and one write of its control register, which
  puts the enable bit, the polarity and the three actions to the given values and keeps the other bits. A
  card that holds the value reports the three actions back; but the enable flag and the polarity that are
  reported say whether any other bit of the register is set, since the masks of the two bits are complemented.
\<close>
theorem pulse_prop_set_get:
  assumes "on_pulsegen s resources p" and "copy_from_user m 12 = Some bs" and "get_pulse_properties bs = args"
    and "run_state (vevr_ioc_pulse_prop (bus_plugin d16 d32) stk False resources m) s = (ret, s1)"
    and "swab32 (d32 (ev_dev s) (pulse_reg p)) = ctrl" and "ev_dev s1 = W32 a v # rest"
    and "d32 (ev_dev s1) (pulse_reg p) = v"
  shows "ret = (Inr 0, m) \<and> a = pulse_reg p \<and> rest = R32 (pulse_reg p) # ev_dev s
    \<and> (\<forall>n<32. bit (swab32 v) n \<longleftrightarrow>
        (if n = C_EVR_PULSE_ENA then pr_enable args \<noteq> 0
         else if n = C_EVR_PULSE_POLARITY then pr_polarity args \<noteq> 0
         else if n = C_EVR_PULSE_MAP_RESET_ENA then bit (pr_pulse_cfg_bits args) 0
         else if n = C_EVR_PULSE_MAP_SET_ENA then bit (pr_pulse_cfg_bits args) 1
         else if n = C_EVR_PULSE_MAP_TRIG_ENA then bit (pr_pulse_cfg_bits args) 2 else bit ctrl n))
    \<and> run_state (vevr_ioc_pulse_prop (bus_plugin d16 d32) stk1 True resources m1) s1 =
      (copy_out m1 (take 8 stk1 @ [of_bool (other_bit_set (swab32 v) 0), of_bool (other_bit_set (swab32 v) 4),
         pr_pulse_cfg_bits args AND 7] @ take 1 (drop 11 stk1)), s1\<lparr>ev_dev := R32 (pulse_reg p) # ev_dev s1\<rparr>)"
proof -
  let ?v = "properties_pctrl args ctrl"
  have run: "ret = (Inr 0, m)" "s1 = s\<lparr>ev_dev := W32 (pulse_reg p) (swab32 ?v) # R32 (pulse_reg p) # ev_dev s\<rparr>"
    using assms(1-5) by (auto simp: vevr_ioc_pulse_prop_def on_pulsegen_def Let_def)
  then have dev: "a = pulse_reg p" "v = swab32 ?v" "rest = R32 (pulse_reg p) # ev_dev s" using assms(6) by auto
  have on: "on_pulsegen s1 resources p" using assms(1) run(2) by (simp add: on_pulsegen_def)
  have "pctrl_properties ?v (get_pulse_properties stk1) = (get_pulse_properties stk1)\<lparr>pr_enable := of_bool (other_bit_set ?v 0),
    pr_polarity := of_bool (other_bit_set ?v 4), pr_pulse_cfg_bits := pr_pulse_cfg_bits args AND 7\<rparr>"
    by (rule pctrl_properties_set [of _ _ ctrl]) simp
  then have "pulse_properties_bytes (pctrl_properties ?v (get_pulse_properties stk1)) = take 8 stk1 @
      [of_bool (other_bit_set ?v 0), of_bool (other_bit_set ?v 4), pr_pulse_cfg_bits args AND 7] @ take 1 (drop 11 stk1)"
    by (simp add: pulse_properties_bytes_def get_pulse_properties_def)
  moreover have "swab32 (d32 (ev_dev s1) (pulse_reg p)) = ?v" using assms(7) dev(2) by simp
  ultimately have "run_state (vevr_ioc_pulse_prop (bus_plugin d16 d32) stk1 True resources m1) s1 =
      (copy_out m1 (take 8 stk1 @ [of_bool (other_bit_set ?v 0), of_bool (other_bit_set ?v 4),
         pr_pulse_cfg_bits args AND 7] @ take 1 (drop 11 stk1)), s1\<lparr>ev_dev := R32 (pulse_reg p) # ev_dev s1\<rparr>)"
    using on by (simp add: vevr_ioc_pulse_prop_def on_pulsegen_def Let_def)
  with run(1) dev show ?thesis by (auto simp: bit_properties_pctrl)
qed

text \<open>A device with one register of memory: it answers with the value written last.\<close>

definition last_written :: "bus_op list \<Rightarrow> u32 \<Rightarrow> u32" where
  "last_written h a = (case written h a of Some v \<Rightarrow> swab32 v | None \<Rightarrow> 0)"

text \<open>A generator that is switched on with no action and positive polarity reads back as off and inverted.\<close>

lemma pulse_prop_set_get_witness:
  "\<exists>s1 s2. run_state (vevr_ioc_pulse_prop (bus_plugin (\<lambda>_ _. 0) last_written) (replicate 12 0) True
      [\<lparr>vd_type = 0, vd_index = 3\<rparr>] (umem_of [])) s1 = (copy_out (umem_of []) [0, 0, 0, 0, 0, 0, 0, 0, 0, 1, 0, 0], s2)"
proof -
  let ?bs = "[0, 0, 0, 0, 3, 0, 0, 0, 1, 0, 0, 0] :: u8 list"
  let ?res = "[\<lparr>vd_type = 0, vd_index = 3::int\<rparr>]"
  let ?io = "bus_plugin (\<lambda>_ _. 0) last_written"
  let ?s = "evr_cpci"
  have on: "on_pulsegen ?s ?res 3" by (rule on_pulsegen_cpci) simp_all
  have copy: "copy_from_user (umem_of ?bs) 12 = Some ?bs" by (simp add: copy_umem_of)
  define v where "v = properties_pctrl (get_pulse_properties ?bs) 0"
  have 0: "swab32 0 = 0" by (simp add: swab32_def)
  have dev0: "ev_dev evr_cpci = []" by (simp add: evr_cpci_def evr_ex_def)
  then have ctrl: "swab32 (last_written (ev_dev ?s) (pulse_reg 3)) = 0" by (simp add: last_written_def 0)
  let ?s1 = "?s\<lparr>ev_dev := W32 (pulse_reg 3) (swab32 v) # R32 (pulse_reg 3) # ev_dev ?s\<rparr>"
  have run: "run_state (vevr_ioc_pulse_prop ?io [] False ?res (umem_of ?bs)) ?s = ((Inr 0, umem_of ?bs), ?s1)"
    using on copy ctrl by (simp add: vevr_ioc_pulse_prop_def on_pulsegen_def Let_def v_def)
  have keeps: "last_written (ev_dev ?s1) (pulse_reg 3) = swab32 v" by (simp add: last_written_def)
  have dev: "ev_dev ?s1 = W32 (pulse_reg 3) (swab32 v) # R32 (pulse_reg 3) # ev_dev ?s" by simp
  have "\<forall>n<32. bit v n \<longleftrightarrow> n = 0"
    by (simp add: v_def bit_properties_pctrl get_pulse_properties_def byte_at_def)
  then have "\<not> other_bit_set v 0" "other_bit_set v 4" by (auto simp: other_bit_set_def)
  with pulse_prop_set_get [OF on copy refl run ctrl dev keeps, of "replicate 12 0" "umem_of []"]
  show ?thesis by (simp add: get_pulse_properties_def byte_at_def numeral_eq_Suc) blast
qed


text \<open>
  Mapping an output: with a pulse generator the value written is that generator's index, and only a generator
  that exists is accepted; without one, the given function is written and the functions 0 to 31, which would
  select a generator that the caller does not own, are refused. The test is on the whole number and
  the register has 16 bits, so a function whose low 16 bits are 0 to 31 passes and selects a generator.
\<close>
theorem outset_branches:
  assumes "sim (ev_hw s) = None" and "resources ! 0 = \<lparr>vd_type = EVR_RES_TYPE_OUTPUT, vd_index = out\<rparr>"
    and "0 \<le> out" and "out < ev_res_count s EVR_RES_TYPE_OUTPUT" and "out_reg (ev_hw s) out = Some reg"
    and "copy_from_user m 24 = Some bs" and "os_misc_func (get_output_set bs) = func"
    and "resources ! 1 = \<lparr>vd_type = t, vd_index = p\<rparr>" and "ev_res_count s EVR_RES_TYPE_PULSEGEN \<le> 32"
  shows "run_state (evr_ioc_outset (bus_plugin d16 d32) resources m) s =
    (let set_to = (\<lambda>f. (Inr 0, s\<lparr>ev_dev := W16 reg (swab16 (of_int f)) # ev_dev s\<rparr>)) in
     if t = EVR_RES_TYPE_PULSEGEN then
       (if 0 \<le> p \<and> p < ev_res_count s EVR_RES_TYPE_PULSEGEN then set_to p else (Inl EINVAL, s))
     else if t = MODAC_RES_TYPE_NONE then (if 0 \<le> func \<and> func < 32 then (Inl EINVAL, s) else set_to func)
     else (Inl EINVAL, s))
    \<and> (t = MODAC_RES_TYPE_NONE \<and> func mod 0x10000 < 32 \<and> func \<noteq> func mod 0x10000 \<longrightarrow>
       run_state (evr_ioc_outset (bus_plugin d16 d32) resources m) s =
         (Inr 0, s\<lparr>ev_dev := W16 reg (swab16 (of_int (func mod 0x10000))) # ev_dev s\<rparr>))"
proof -
  obtain cfg rel where cfg: "find_out_cfg (ev_hw s) out = Some (cfg, rel)" "reg = out_map_reg cfg rel"
    using assms(5) by (auto simp: out_reg_def)
  have set: "run_state (evr_set_out_map (bus_plugin d16 d32) out f) s = (Inr 0, s\<lparr>ev_dev := W16 reg (swab16 (of_int f)) # ev_dev s\<rparr>)" for f
    using assms(3,4) cfg by (simp add: evr_set_out_map_def)
  have branches: "run_state (evr_ioc_outset (bus_plugin d16 d32) resources m) s =
    (let set_to = (\<lambda>f. (Inr 0, s\<lparr>ev_dev := W16 reg (swab16 (of_int f)) # ev_dev s\<rparr>)) in
     if t = EVR_RES_TYPE_PULSEGEN then
       (if 0 \<le> p \<and> p < ev_res_count s EVR_RES_TYPE_PULSEGEN then set_to p else (Inl EINVAL, s))
     else if t = MODAC_RES_TYPE_NONE then (if 0 \<le> func \<and> func < 32 then (Inl EINVAL, s) else set_to func)
     else (Inl EINVAL, s))"
    using assms set by (auto simp: evr_ioc_outset_def is_pulsegen_source_def Let_def)
  have "(of_int (func mod 0x10000) :: u16) = of_int func"
  proof -
    have "(of_int (take_bit 16 func) :: u16) = of_int func"
      by (intro bit_word_eqI) (simp add: bit_word_of_int_iff bit_take_bit_iff)
    then show ?thesis by (simp add: take_bit_eq_mod)
  qed
  moreover have "\<not> (0 \<le> func \<and> func < 32)" if "func \<noteq> func mod 0x10000" using that by auto
  ultimately show ?thesis using branches by (auto simp: Let_def)
qed

text \<open>A function of 0x10000 gives output 0 to the pulse generator 0.\<close>

lemma outset_branches_witness:
  "ev_dev (snd (run_state (evr_ioc_outset io_ex [\<lparr>vd_type = 1, vd_index = 0\<rparr>, \<lparr>vd_type = -1, vd_index = 0\<rparr>]
      (umem_of (replicate 22 0 @ [1, 0]))) evr_cpci)) = [W16 0x440 0]"
proof -
  let ?res = "[\<lparr>vd_type = 1, vd_index = 0::int\<rparr>, \<lparr>vd_type = -1, vd_index = 0\<rparr>]"
  let ?bs = "replicate 22 0 @ [1, 0] :: u8 list"
  have sim: "sim (ev_hw evr_cpci) = None" by (simp add: evr_cpci_def init_out_cfg_def Let_def hw_ex_def zero_hw_data_def)
  have reg: "out_reg (ev_hw evr_cpci) 0 = Some 0x440"
    by (simp add: out_reg_def find_out_cfg_def out_map_reg_def evr_cpci_def init_out_cfg_def Let_def
        documented_evr_type_data_table_def type_data_def)
  have copy: "copy_from_user (umem_of ?bs) 24 = Some ?bs" by (simp add: copy_umem_of)
  have func: "os_misc_func (get_output_set ?bs) = 0x10000"
    by (simp add: get_output_set_def int_at_def u32_at_def nth_append)
  have counts: "ev_res_count evr_cpci 1 = 4" "ev_res_count evr_cpci 0 = 10" by (simp_all add: evr_cpci_def)
  have dev: "ev_dev evr_cpci = []" by (simp add: evr_cpci_def evr_ex_def)
  from outset_branches [OF sim, of ?res 0 "0x440" "umem_of ?bs" ?bs "0x10000" "-1" 0 "\<lambda>_ _. 0" "\<lambda>_ _. 0"] reg copy func counts dev
  show ?thesis by (simp add: swab16_def)
qed

end
