(* ===== verification/Evr_Irq.thy ===== *)
theory Evr_Irq
  imports Evr_Ioctl
begin

text \<open>
  The EVR's interrupt (src/src/evr-irq-events.c): what the handler reads and reports, and the
  programming of the hardware when the set of subscribed events changes. The handler returns the
  calls it makes to report events, in their order. \<open>irq_set\<close> is the platform's function in
  the description of the MNG_DEV, if it has one. At the end the operations are put together to the hardware
  support.
\<close>

section \<open>The interrupt handler\<close>

text \<open>The words of the DataBuf, copied to the slot.\<close>

definition copy_data_buf :: "'h modac_io_rw_plugin \<Rightarrow> nat \<Rightarrow> ('h, unit) evr" where
  "copy_data_buf io n = for_each (\<lambda>i. do {
     v \<leftarrow> evr_read32 io (EVR_REG_DATA_BUF + push_bit 2 (of_nat i));
     upd_hw (\<lambda>hw. hw\<lparr>mmap_slot := (mmap_slot hw)\<lparr>slot_data := (slot_data (mmap_slot hw))(i := v)\<rparr>\<rparr>)
   }) [0..<n]"

definition upd_slot :: "(evr_data_buff_slot_data \<Rightarrow> evr_data_buff_slot_data) \<Rightarrow> ('h, unit) evr" where
  "upd_slot f = upd_hw (\<lambda>hw. hw\<lparr>mmap_slot := f (mmap_slot hw)\<rparr>)"

definition databuf_size32 :: "u32 \<Rightarrow> u32" where
  "databuf_size32 databuf_sts = drop_bit 2 (databuf_sts AND C_EVR_DATABUF_RXSIZE_MASK)"

definition isr_databuf :: "'h modac_io_rw_plugin \<Rightarrow> ('h, hw_event list) evr" where
  "isr_databuf io = do {
     databuf_sts \<leftarrow> evr_read32 io EVR_REG_DATA_BUF_CTRL;
     (if databuf_sts AND BIT C_EVR_DATABUF_CHECKSUM = 0 then do {
        upd_slot (\<lambda>slot. slot\<lparr>slot_size32 := databuf_size32 databuf_sts\<rparr>);
        copy_data_buf io (unat (databuf_size32 databuf_sts));
        upd_slot (\<lambda>slot. slot\<lparr>slot_status := databuf_sts\<rparr>)
      }
      else upd_slot (\<lambda>slot. slot\<lparr>slot_size32 := 0, slot_status := databuf_sts\<rparr>));
     dbctl \<leftarrow> evr_read32 io EVR_REG_DATA_BUF_CTRL;
     evr_write32 io EVR_REG_DATA_BUF_CTRL (dbctl OR BIT C_EVR_DATABUF_LOAD);
     evr_write32 io EVR_REG_IRQFLAG EVR_IRQFLAG_DATABUF;
     evr_write32 io EVR_REG_IRQFLAG 0;
     State_Monad.return [Put_Event EVRMA_EVENT_DBUF_DATA []]
   }"

text \<open>The loop over the event FIFO, with the number of events it may still read.\<close>

fun read_fifo :: "'h modac_io_rw_plugin \<Rightarrow> nat \<Rightarrow> ('h, hw_event list) evr" where
  "read_fifo io 0 = State_Monad.return []"
| "read_fifo io (Suc ilim) = do {
     ev \<leftarrow> evr_read32 io EVR_REG_FIFO_EVENT;
     secs \<leftarrow> evr_read32 io EVR_REG_FIFO_SECONDS;
     ts \<leftarrow> evr_read32 io EVR_REG_FIFO_TIMESTAMP;
     stat \<leftarrow> evr_read32 io EVR_REG_IRQFLAG;
     let event = Put_Event (uint (ev AND 0xFF)) (fifo_event_bytes \<lparr>fe_seconds = secs, fe_timestamp = ts\<rparr>);
     if stat AND EVR_IRQFLAG_EVENT = 0 then State_Monad.return [event]
     else do { es \<leftarrow> read_fifo io ilim; State_Monad.return (event # es) }
   }"

definition isr_event :: "'h modac_io_rw_plugin \<Rightarrow> ('h, hw_event list) evr" where
  "isr_event io = do {
     es \<leftarrow> read_fifo io EVR_FIFO_EVENT_LIMIT;
     evr_write32 io EVR_REG_IRQFLAG EVR_IRQFLAG_EVENT;
     State_Monad.return es
   }"

definition isr_fifofull :: "'h modac_io_rw_plugin \<Rightarrow> ('h, hw_event list) evr" where
  "isr_fifofull io = do {
     ctrl \<leftarrow> evr_read32 io EVR_REG_CTRL;
     evr_write32 io EVR_REG_CTRL (ctrl OR BIT C_EVR_CTRL_RESET_EVENTFIFO);
     evr_write32 io EVR_REG_IRQFLAG EVR_IRQFLAG_FIFOFULL;
     State_Monad.return [Notify EVRMA_EVENT_ERROR_LOST]
   }"

definition when_flag :: "u32 \<Rightarrow> u32 \<Rightarrow> ('h, hw_event list) evr \<Rightarrow> ('h, hw_event list) evr" where
  "when_flag irq_flags flag f = (if irq_flags AND flag \<noteq> 0 then f else State_Monad.return [])"

definition hw_support_evr_isr :: "'h modac_io_rw_plugin \<Rightarrow> ('h, hw_event list) evr" where
  "hw_support_evr_isr io = do {
     irq_flags \<leftarrow> evr_read32 io EVR_REG_IRQFLAG;
     let irq_flags_clear = irq_flags AND NOT EVR_IRQFLAG_FIFOFULL AND NOT EVR_IRQFLAG_DATABUF AND NOT EVR_IRQFLAG_EVENT;
     (if irq_flags_clear \<noteq> 0 then evr_write32 io EVR_REG_IRQFLAG irq_flags_clear else State_Monad.return ());
     e1 \<leftarrow> when_flag irq_flags EVR_IRQFLAG_DATABUF (isr_databuf io);
     e2 \<leftarrow> when_flag irq_flags EVR_IRQFLAG_EVENT (isr_event io);
     e3 \<leftarrow> when_flag irq_flags EVR_IRQFLAG_FIFOFULL (isr_fifofull io);
     e4 \<leftarrow> when_flag irq_flags EVR_IRQFLAG_PULSE (State_Monad.return [Notify EVRMA_EVENT_DELAYED_IRQ]);
     e5 \<leftarrow> when_flag irq_flags EVR_IRQFLAG_HEARTBEAT (State_Monad.return [Notify EVRMA_EVENT_ERROR_HEART]);
     e6 \<leftarrow> when_flag irq_flags EVR_IRQFLAG_VIOLATION (State_Monad.return [Notify EVRMA_EVENT_ERROR_TAXI]);
     State_Monad.return (e1 @ e2 @ e3 @ e4 @ e5 @ e6)
   }"

section \<open>A change of the subscriptions\<close>

definition save_mask :: "bool \<Rightarrow> evr_map_ram_item \<Rightarrow> evr_map_ram_item" where
  "save_mask subscribed item = item\<lparr>int_event := put_bit C_EVR_MAP_SAVE_EVENT subscribed (int_event item)\<rparr>"

definition fifo_events_enabled :: "event_list_type \<Rightarrow> bool" where
  "fifo_events_enabled subscriptions = list_ex (\<lambda>ievent. event_list_test subscriptions (int ievent)) [0..<EVR_EVENT_CODES]"

definition save_subscribed :: "event_list_type \<Rightarrow> ('h, unit) evr" where
  "save_subscribed subscriptions = for_each (\<lambda>i. upd_hw (\<lambda>hw. hw\<lparr>map_ram := (map_ram hw)(i :=
     save_mask (event_list_test subscriptions (int i)) (map_ram hw i))\<rparr>)) [0..<EVR_EVENT_CODES]"

definition call_irq_set :: "('h \<Rightarrow> bool \<Rightarrow> 'h) option \<Rightarrow> bool \<Rightarrow> ('h, unit) evr" where
  "call_irq_set irq_set enabled = (case irq_set of
     None \<Rightarrow> State_Monad.return ()
   | Some f \<Rightarrow> State (\<lambda>s. ((), s\<lparr>ev_dev := f (ev_dev s) enabled\<rparr>)))"

text \<open>\<open>irq_enable |= flag\<close> under a condition.\<close>

definition enable_if :: "bool \<Rightarrow> u32 \<Rightarrow> u32 \<Rightarrow> u32" where
  "enable_if b flag irq_enable = (if b then irq_enable OR flag else irq_enable)"

definition hw_support_evr_on_subscribe_change :: "'h modac_io_rw_plugin \<Rightarrow> ('h \<Rightarrow> bool \<Rightarrow> 'h) option \<Rightarrow>
    event_list_type \<Rightarrow> ('h, int res) evr" where
  "hw_support_evr_on_subscribe_change io irq_set subscriptions = do {
     hw_data \<leftarrow> get_hw;
     if sim hw_data \<noteq> None then State_Monad.return (Inr 0)
     else do {
       let interrupts_needed = (\<not> event_list_is_empty subscriptions);
       call_irq_set irq_set interrupts_needed;
       irq_enable_prev \<leftarrow> evr_read32 io EVR_REG_IRQEN;
       let irq_enable = irq_enable_prev AND BIT C_EVR_IRQ_PCIEE;
       let irq_enable = enable_if interrupts_needed EVR_IRQ_MASTER_ENABLE irq_enable;
       save_subscribed subscriptions;
       evr_ram_map_change_flush io;
       let irq_enable = enable_if (fifo_events_enabled subscriptions) EVR_IRQFLAG_EVENT irq_enable;
       let evst = event_list_test subscriptions EVRMA_EVENT_DBUF_DATA;
       (if evst then
          (if irq_enable_prev AND EVR_IRQFLAG_DATABUF = 0
           then evr_write32 io EVR_REG_DATA_BUF_CTRL (BIT C_EVR_DATABUF_MODE OR BIT C_EVR_DATABUF_LOAD)
           else State_Monad.return ())
        else evr_write32 io EVR_REG_DATA_BUF_CTRL (BIT C_EVR_DATABUF_STOP));
       let irq_enable = enable_if evst EVR_IRQFLAG_DATABUF irq_enable;
       let irq_enable = enable_if (event_list_test subscriptions EVRMA_EVENT_ERROR_TAXI) EVR_IRQFLAG_VIOLATION irq_enable;
       let irq_enable = enable_if (event_list_test subscriptions EVRMA_EVENT_DELAYED_IRQ) EVR_IRQFLAG_PULSE irq_enable;
       let irq_enable = enable_if (event_list_test subscriptions EVRMA_EVENT_ERROR_HEART) EVR_IRQFLAG_HEARTBEAT irq_enable;
       let irq_enable = enable_if (event_list_test subscriptions EVRMA_EVENT_ERROR_LOST) EVR_IRQFLAG_FIFOFULL irq_enable;
       (if irq_enable_prev \<noteq> irq_enable then evr_write32 io EVR_REG_IRQEN irq_enable else State_Monad.return ());
       State_Monad.return (Inr 0)
     }
   }"

section \<open>The hardware support\<close>

definition hw_support_evr :: "'h modac_io_rw_plugin \<Rightarrow> modac_mngdev_des \<Rightarrow> ('h \<Rightarrow> bool \<Rightarrow> 'h) option \<Rightarrow> u8 list \<Rightarrow>
    'h evr_state modac_hw_support_def" where
  "hw_support_evr io des irq_set stk = \<lparr>
     hw_init = hw_support_evr_init io des,
     hw_end = hw_support_evr_end,
     hw_on_subscribe_change = (\<lambda>s subs. run_state (hw_support_evr_on_subscribe_change io irq_set subs) s),
     hw_init_res = (\<lambda>s t i. run_state (hw_support_evr_init_res io t i) s),
     hw_isr = run_state (hw_support_evr_isr io),
     hw_ioctl = Some (\<lambda>s resources cmd m.
       case run_state (hw_support_evr_ioctl io stk resources cmd m) s of ((r, m), s) \<Rightarrow> (r, m, s)),
     hw_direct_ioctl = Some (\<lambda>s cmd m.
       case run_state (hw_support_evr_direct_ioctl io cmd m) s of ((r, m), s) \<Rightarrow> (r, m, s)),
     hw_vdev_mmap_ro = Some hw_support_evr_vdev_mmap_ro\<rparr>"


section \<open>Lemmas and properties\<close>

text \<open>
  The documented behaviour of the EVR's event FIFO: a read of the event, of the seconds and of the timestamp takes the oldest
  entry, the EVENT flag stays on as long as there is one, and only the control register can drop entries otherwise.
  \<open>fifo\<close> gives the entries that the device holds.
\<close>

type_synonym fifo_entry = "u32 \<times> u32 \<times> u32"

definition fifo_event :: "fifo_entry \<Rightarrow> hw_event" where
  "fifo_event x = (case x of (ev, secs, ts) \<Rightarrow>
     Put_Event (uint (ev AND 0xFF)) (fifo_event_bytes \<lparr>fe_seconds = secs, fe_timestamp = ts\<rparr>))"

definition event_fifo :: "'h modac_io_rw_plugin \<Rightarrow> ('h \<Rightarrow> fifo_entry list) \<Rightarrow> bool" where
  "event_fifo io fifo \<longleftrightarrow>
     (\<forall>h ev secs ts rest. fifo h = (ev, secs, ts) # rest \<longrightarrow>
        (\<exists>h1 h2 h3 h4 stat. io_read_u32 io h EVR_REG_FIFO_EVENT = (swab32 ev, h1)
          \<and> io_read_u32 io h1 EVR_REG_FIFO_SECONDS = (swab32 secs, h2)
          \<and> io_read_u32 io h2 EVR_REG_FIFO_TIMESTAMP = (swab32 ts, h3)
          \<and> io_read_u32 io h3 EVR_REG_IRQFLAG = (swab32 stat, h4)
          \<and> fifo h4 = rest \<and> (bit stat 3 \<longleftrightarrow> rest \<noteq> [])))
     \<and> (\<forall>h a. a \<notin> {EVR_REG_FIFO_EVENT, EVR_REG_FIFO_SECONDS, EVR_REG_FIFO_TIMESTAMP} \<longrightarrow>
          fifo (snd (io_read_u32 io h a)) = fifo h)
     \<and> (\<forall>h a v. a \<noteq> EVR_REG_CTRL \<longrightarrow> fifo (io_write_u32 io h a v) = fifo h)"

lemma and_flag: "n < 32 \<Longrightarrow> (w AND BIT n = 0) = (\<not> bit w n)"
  by (rule and_BIT_eq_0)

lemma run_bind_read32:
  "io_read_u32 io (ev_dev s) a = (swab32 v, h) \<Longrightarrow>
   run_state (State_Monad.bind (evr_read32 io a) f) s = run_state (f v) (s\<lparr>ev_dev := h\<rparr>)"
  by (simp add: evr_read32_def)

lemma run_write32: "run_state (evr_write32 io a v) s = ((), s\<lparr>ev_dev := io_write_u32 io (ev_dev s) a (swab32 v)\<rparr>)"
  by (simp add: evr_write32_def)

lemma read_fifo_step:
  assumes "event_fifo io fifo" and "fifo (ev_dev s) = x # rest"
  obtains h where "fifo h = rest"
    and "run_state (read_fifo io (Suc n)) s =
      (if rest = [] then ([fifo_event x], s\<lparr>ev_dev := h\<rparr>)
       else case run_state (read_fifo io n) (s\<lparr>ev_dev := h\<rparr>) of (es, s1) \<Rightarrow> (fifo_event x # es, s1))"
proof -
  obtain ev secs ts where x: "x = (ev, secs, ts)" by (cases x)
  obtain h1 h2 h3 h4 stat where h: "io_read_u32 io (ev_dev s) EVR_REG_FIFO_EVENT = (swab32 ev, h1)"
    "io_read_u32 io h1 EVR_REG_FIFO_SECONDS = (swab32 secs, h2)"
    "io_read_u32 io h2 EVR_REG_FIFO_TIMESTAMP = (swab32 ts, h3)"
    "io_read_u32 io h3 EVR_REG_IRQFLAG = (swab32 stat, h4)" "fifo h4 = rest" "bit stat 3 \<longleftrightarrow> rest \<noteq> []"
    using assms(1) assms(2) [unfolded x] unfolding event_fifo_def by blast
  have "run_state (read_fifo io (Suc n)) s =
      (if rest = [] then ([fifo_event x], s\<lparr>ev_dev := h4\<rparr>)
       else case run_state (read_fifo io n) (s\<lparr>ev_dev := h4\<rparr>) of (es, s1) \<Rightarrow> (fifo_event x # es, s1))"
    unfolding read_fifo.simps
    by (subst run_bind_read32, simp add: h(1), subst run_bind_read32, simp add: h(2), subst run_bind_read32, simp add: h(3),
      subst run_bind_read32, simp add: h(4)) (simp add: Let_def and_flag h(6) fifo_event_def x)
  with h(5) that show thesis by blast
qed

lemma run_read_fifo:
  assumes "event_fifo io fifo" and "fifo (ev_dev s) \<noteq> []"
  shows "\<exists>h. run_state (read_fifo io n) s = (map fifo_event (take n (fifo (ev_dev s))), s\<lparr>ev_dev := h\<rparr>)
    \<and> fifo h = drop n (fifo (ev_dev s))"
  using assms(2)
proof (induction n arbitrary: s)
  case 0
  show ?case by (intro exI [of _ "ev_dev s"]) simp
next
  case (Suc n)
  then obtain x rest where q: "fifo (ev_dev s) = x # rest" by (cases "fifo (ev_dev s)") auto
  obtain h where h: "fifo h = rest" "run_state (read_fifo io (Suc n)) s =
      (if rest = [] then ([fifo_event x], s\<lparr>ev_dev := h\<rparr>)
       else case run_state (read_fifo io n) (s\<lparr>ev_dev := h\<rparr>) of (es, s1) \<Rightarrow> (fifo_event x # es, s1))"
    by (rule read_fifo_step [OF assms(1) q])
  show ?case
  proof (cases "rest = []")
    case True
    with h q show ?thesis by auto
  next
    case False
    with Suc.IH [of "s\<lparr>ev_dev := h\<rparr>"] h(1) obtain h1 where
      "run_state (read_fifo io n) (s\<lparr>ev_dev := h\<rparr>) = (map fifo_event (take n rest), s\<lparr>ev_dev := h1\<rparr>)"
      "fifo h1 = drop n rest" by auto
    with h(2) False q show ?thesis by auto
  qed
qed


text \<open>Computations that leave the FIFO alone.\<close>

definition keeps_fifo :: "('h \<Rightarrow> fifo_entry list) \<Rightarrow> ('h, 'a) evr \<Rightarrow> bool" where
  "keeps_fifo fifo f \<longleftrightarrow> (\<forall>s. fifo (ev_dev (snd (run_state f s))) = fifo (ev_dev s))"

named_theorems keeps \<open>computations that leave the FIFO alone\<close>

lemma keeps_return [keeps]: "keeps_fifo fifo (State_Monad.return x)"
  by (simp add: keeps_fifo_def)

lemma keeps_bind [keeps]:
  "keeps_fifo fifo f \<Longrightarrow> (\<And>x. keeps_fifo fifo (g x)) \<Longrightarrow> keeps_fifo fifo (State_Monad.bind f g)"
  by (simp add: keeps_fifo_def split: prod.split) (metis snd_conv)

lemma keeps_if [keeps]: "keeps_fifo fifo f \<Longrightarrow> keeps_fifo fifo g \<Longrightarrow> keeps_fifo fifo (if b then f else g)"
  by simp

lemma keeps_upd_hw [keeps]: "keeps_fifo fifo (upd_hw f)" "keeps_fifo fifo (upd_slot g)"
  by (simp_all add: keeps_fifo_def upd_slot_def)

lemma keeps_read32:
  "event_fifo io fifo \<Longrightarrow> a \<notin> {EVR_REG_FIFO_EVENT, EVR_REG_FIFO_SECONDS, EVR_REG_FIFO_TIMESTAMP} \<Longrightarrow>
   keeps_fifo fifo (evr_read32 io a)"
  by (simp add: keeps_fifo_def evr_read32_def event_fifo_def split: prod.split) (metis snd_conv)

lemma keeps_write32: "event_fifo io fifo \<Longrightarrow> a \<noteq> EVR_REG_CTRL \<Longrightarrow> keeps_fifo fifo (evr_write32 io a v)"
  by (simp add: keeps_fifo_def run_write32 event_fifo_def)

lemma keeps_for_each: "(\<And>x. x \<in> set xs \<Longrightarrow> keeps_fifo fifo (f x)) \<Longrightarrow> keeps_fifo fifo (for_each f xs)"
  by (induction xs) (auto intro!: keeps)

lemma uint_data_buf_reg:
  assumes "i < 1024"
  shows "uint (EVR_REG_DATA_BUF + push_bit 2 (of_nat i)) = 0x800 + 4 * int i"
proof -
  have "EVR_REG_DATA_BUF + push_bit 2 (of_nat i) = (of_int (0x800 + 4 * int i) :: u32)"
    by (simp add: push_bit_eq_mult mult.commute)
  moreover have "uint (of_int (0x800 + 4 * int i) :: u32) = 0x800 + 4 * int i"
    using assms by (simp only: unsigned_of_int) (simp add: take_bit_int_eq_self_iff)
  ultimately show ?thesis by simp
qed

lemma databuf_size32_bound: "unat (databuf_size32 sts) < 1024"
proof -
  have m: "(0xFFF::u32) = mask 12" by (simp add: mask_eq_exp_minus_1)
  have "databuf_size32 sts = drop_bit 2 sts AND mask 10"
    unfolding databuf_size32_def m by (rule bit_word_eqI) (auto simp: bit_simps)
  then show ?thesis using and_mask_less' [of 10 "drop_bit 2 sts"] by (simp add: word_less_nat_alt)
qed

lemma keeps_databuf:
  assumes "event_fifo io fifo"
  shows "keeps_fifo fifo (isr_databuf io)"
proof -
  have not_fifo: "uint x = 0x800 + 4 * int i \<Longrightarrow> x \<notin> {EVR_REG_FIFO_EVENT, EVR_REG_FIFO_SECONDS, EVR_REG_FIFO_TIMESTAMP}"
    for x :: u32 and i by auto
  have reg: "EVR_REG_DATA_BUF + push_bit 2 (of_nat i) \<notin> {EVR_REG_FIFO_EVENT, EVR_REG_FIFO_SECONDS, EVR_REG_FIFO_TIMESTAMP}"
    if "i < 1024" for i by (rule not_fifo [OF uint_data_buf_reg [OF that]])
  have copy: "keeps_fifo fifo (copy_data_buf io n)" if "n < 1024" for n
    unfolding copy_data_buf_def using that reg
    by (intro keeps_for_each keeps keeps_read32 [OF assms]) auto
  show ?thesis
    unfolding isr_databuf_def
    by (intro keeps copy databuf_size32_bound keeps_read32 [OF assms] keeps_write32 [OF assms]) simp_all
qed


text \<open>The notifications of an interrupt, after the events.\<close>

definition notifications :: "u32 \<Rightarrow> hw_event list" where
  "notifications flags =
     (if bit flags 1 then [Notify EVRMA_EVENT_ERROR_LOST] else []) @ (if bit flags 4 then [Notify EVRMA_EVENT_DELAYED_IRQ] else [])
     @ (if bit flags 2 then [Notify EVRMA_EVENT_ERROR_HEART] else []) @ (if bit flags 0 then [Notify EVRMA_EVENT_ERROR_TAXI] else [])"

lemma run_bind_split:
  "run_state (State_Monad.bind f g) s = (case run_state f s of (x, s1) \<Rightarrow> run_state (g x) s1)"
  by simp

lemma when_flag_bit: "n < 32 \<Longrightarrow> when_flag flags (BIT n) f = (if bit flags n then f else State_Monad.return [])"
  by (simp add: when_flag_def and_flag)

text \<open>The parts of the handler that follow the loop over the FIFO.\<close>

definition isr_rest :: "'h modac_io_rw_plugin \<Rightarrow> u32 \<Rightarrow> ('h, hw_event list) evr" where
  "isr_rest io flags = (if bit flags 1 then isr_fifofull io else State_Monad.return [])"

definition isr_head :: "'h modac_io_rw_plugin \<Rightarrow> u32 \<Rightarrow> ('h, hw_event list) evr" where
  "isr_head io flags = do {
     (let clear = flags AND NOT EVR_IRQFLAG_FIFOFULL AND NOT EVR_IRQFLAG_DATABUF AND NOT EVR_IRQFLAG_EVENT in
      if clear \<noteq> 0 then evr_write32 io EVR_REG_IRQFLAG clear else State_Monad.return ());
     (if bit flags 5 then isr_databuf io else State_Monad.return [])
   }"

lemma isr_parts:
  assumes "io_read_u32 io (ev_dev s) EVR_REG_IRQFLAG = (swab32 flags, h0)"
    and "run_state (isr_head io flags) (s\<lparr>ev_dev := h0\<rparr>) = (e1, s1)"
    and "run_state (if bit flags 3 then isr_event io else State_Monad.return []) s1 = (e2, s2)"
    and "run_state (isr_rest io flags) s2 = (e3, s3)"
  shows "run_state (hw_support_evr_isr io) s = (e1 @ e2 @ notifications flags, s3)"
proof -
  have e3: "e3 = (if bit flags 1 then [Notify EVRMA_EVENT_ERROR_LOST] else [])"
    using assms(4) by (auto simp: isr_rest_def isr_fifofull_def split: prod.splits if_splits)
  have "run_state (hw_support_evr_isr io) s = run_state (do {
     e1 \<leftarrow> isr_head io flags;
     e2 \<leftarrow> (if bit flags 3 then isr_event io else State_Monad.return []);
     e3 \<leftarrow> isr_rest io flags;
     State_Monad.return (e1 @ e2 @ e3 @ (if bit flags 4 then [Notify EVRMA_EVENT_DELAYED_IRQ] else [])
     @ (if bit flags 2 then [Notify EVRMA_EVENT_ERROR_HEART] else []) @ (if bit flags 0 then [Notify EVRMA_EVENT_ERROR_TAXI] else []))
   }) (s\<lparr>ev_dev := h0\<rparr>)"
    unfolding hw_support_evr_isr_def
    by (subst run_bind_read32 [OF assms(1)])
      (simp add: when_flag_bit isr_head_def isr_rest_def Let_def split: prod.split)
  also have "\<dots> = (e1 @ e2 @ notifications flags, s3)"
    using assms(2-4) by (simp add: e3 notifications_def)
  finally show ?thesis .
qed


lemma keeps_head:
  assumes "event_fifo io fifo"
  shows "keeps_fifo fifo (isr_head io flags)"
  unfolding isr_head_def Let_def
  by (intro keeps keeps_databuf [OF assms] keeps_write32 [OF assms]) simp_all

lemma head_events:
  "run_state (isr_head io flags) s = (e1, s1) \<Longrightarrow> e1 = (if bit flags 5 then [Put_Event EVRMA_EVENT_DBUF_DATA []] else [])"
  by (auto simp: isr_head_def isr_databuf_def Let_def split: prod.splits if_splits)

lemma isr_fifo_run:
  assumes "event_fifo io fifo" and "io_read_u32 io (ev_dev s) EVR_REG_IRQFLAG = (swab32 flags, h0)"
    and "bit flags 3" and "fifo (ev_dev s) \<noteq> []"
  shows "\<exists>s1. run_state (hw_support_evr_isr io) s =
      ((if bit flags 5 then [Put_Event EVRMA_EVENT_DBUF_DATA []] else [])
        @ map fifo_event (take EVR_FIFO_EVENT_LIMIT (fifo (ev_dev s))) @ notifications flags, s1)
    \<and> (bit flags 1 \<or> fifo (ev_dev s1) = drop EVR_FIFO_EVENT_LIMIT (fifo (ev_dev s)))"
proof -
  have "fifo (snd (io_read_u32 io (ev_dev s) EVR_REG_IRQFLAG)) = fifo (ev_dev s)"
    using assms(1) by (simp add: event_fifo_def)
  then have h0: "fifo h0 = fifo (ev_dev s)" using assms(2) by simp
  obtain e1 s1 where head: "run_state (isr_head io flags) (s\<lparr>ev_dev := h0\<rparr>) = (e1, s1)" by fastforce
  have q1: "fifo (ev_dev s1) = fifo (ev_dev s)"
    using keeps_head [OF assms(1), of flags, unfolded keeps_fifo_def, THEN spec, of "s\<lparr>ev_dev := h0\<rparr>"] head h0 by simp
  from run_read_fifo [OF assms(1), of s1 EVR_FIFO_EVENT_LIMIT] assms(4) q1 obtain h where
    h: "run_state (read_fifo io EVR_FIFO_EVENT_LIMIT) s1 = (map fifo_event (take EVR_FIFO_EVENT_LIMIT (fifo (ev_dev s))), s1\<lparr>ev_dev := h\<rparr>)"
    "fifo h = drop EVR_FIFO_EVENT_LIMIT (fifo (ev_dev s))" by auto
  let ?h2 = "io_write_u32 io h EVR_REG_IRQFLAG (swab32 EVR_IRQFLAG_EVENT)"
  have ev: "run_state (if bit flags 3 then isr_event io else State_Monad.return []) s1 =
      (map fifo_event (take EVR_FIFO_EVENT_LIMIT (fifo (ev_dev s))), s1\<lparr>ev_dev := ?h2\<rparr>)"
    using assms(3) h(1) by (simp add: isr_event_def run_write32 del: read_fifo.simps)
  obtain e3 s3 where rest: "run_state (isr_rest io flags) (s1\<lparr>ev_dev := ?h2\<rparr>) = (e3, s3)" by fastforce
  have "fifo ?h2 = fifo h" using assms(1) by (simp add: event_fifo_def)
  moreover have "\<not> bit flags 1 \<Longrightarrow> s3 = s1\<lparr>ev_dev := ?h2\<rparr>" using rest by (simp add: isr_rest_def)
  ultimately have "bit flags 1 \<or> fifo (ev_dev s3) = drop EVR_FIFO_EVENT_LIMIT (fifo (ev_dev s))"
    using h(2) by (cases "bit flags 1") auto
  with isr_parts [OF assms(2) head ev rest] head_events [OF head] show ?thesis by blast
qed

text \<open>
  C32: The interrupt delivers what the event FIFO holds, in the order of arrival and exactly once: the data
  buffer's event comes first, then the events of the FIFO with their code, seconds and timestamp, then the
  notifications. One interrupt takes at most 256 events; the others stay in the FIFO, in their order, for
  the next one, unless the FIFO had overflowed and is reset. The loop ends for any content of the FIFO.
\<close>
theorem isr_delivers_fifo:
  assumes "event_fifo io fifo" and "io_read_u32 io (ev_dev s) EVR_REG_IRQFLAG = (swab32 flags, h0)"
    and "bit flags 3" and "fifo (ev_dev s) \<noteq> []"
  shows "\<exists>s1. run_state (hw_support_evr_isr io) s =
      ((if bit flags 5 then [Put_Event EVRMA_EVENT_DBUF_DATA []] else [])
        @ map fifo_event (take EVR_FIFO_EVENT_LIMIT (fifo (ev_dev s))) @ notifications flags, s1)
    \<and> (bit flags 1 \<or> fifo (ev_dev s1) = drop EVR_FIFO_EVENT_LIMIT (fifo (ev_dev s)))"
  by (rule isr_fifo_run [OF assms])


text \<open>A device that is nothing but the FIFO; the read of a timestamp takes the entry out.\<close>

definition fifo_device :: "fifo_entry list modac_io_rw_plugin" where
  "fifo_device = \<lparr>io_read_u16 = (\<lambda>h off. (0, h)), io_write_u16 = (\<lambda>h off v. h),
     io_read_u32 = (\<lambda>h off.
       if off = EVR_REG_IRQFLAG then (swab32 (if h = [] then 0 else BIT 3), h)
       else case h of [] \<Rightarrow> (0, h)
         | (ev, secs, ts) # rest \<Rightarrow>
             if off = EVR_REG_FIFO_EVENT then (swab32 ev, h) else if off = EVR_REG_FIFO_SECONDS then (swab32 secs, h)
             else if off = EVR_REG_FIFO_TIMESTAMP then (swab32 ts, rest) else (0, h)),
     io_write_u32 = (\<lambda>h off v. h)\<rparr>"

lemma fifo_device_fifo: "event_fifo fifo_device (\<lambda>h. h)"
  by (auto simp: event_fifo_def fifo_device_def split: list.split)

lemma isr_delivers_fifo_witness:
  "fst (run_state (hw_support_evr_isr fifo_device)
      \<lparr>ev_hw = hw_ex, ev_res_count = (\<lambda>_. 0), ev_dev = [(40, 1, 2), (41, 3, 4)]\<rparr>)
    = [Put_Event 40 (fifo_event_bytes \<lparr>fe_seconds = 1, fe_timestamp = 2\<rparr>),
       Put_Event 41 (fifo_event_bytes \<lparr>fe_seconds = 3, fe_timestamp = 4\<rparr>)]"
proof -
  let ?s = "\<lparr>ev_hw = hw_ex, ev_res_count = (\<lambda>_. 0), ev_dev = [(40, 1, 2), (41, 3, 4)]\<rparr> :: fifo_entry list evr_state"
  have read: "io_read_u32 fifo_device (ev_dev ?s) EVR_REG_IRQFLAG = (swab32 (BIT 3), ev_dev ?s)"
    by (simp add: fifo_device_def)
  from isr_delivers_fifo [OF fifo_device_fifo read] show ?thesis
    by (auto simp: fifo_event_def notifications_def)
qed

text \<open>The simulation answers in the byte order of the machine, where the driver reads the other one.\<close>

text \<open>
  The interrupt handler on the simulated EVR reports nothing: the flag that the simulation sets is
  byte-swapped when it is read, so no event is ever taken from its FIFO, whatever state it is in.
\<close>
theorem sim_isr_silent:
  "fst (run_state (hw_support_evr_isr evr_sim_rw_plugin) s) = []"
proof -
  have "swab32 (BIT 3) = BIT 27" by (rule bit_word_eqI) (auto simp: bit_swab32)
  moreover have "swab32 0 = 0" by (simp add: swab32_def)
  ultimately obtain flags h0 where read: "io_read_u32 evr_sim_rw_plugin (ev_dev s) EVR_REG_IRQFLAG = (swab32 flags, h0)"
    and flags: "flags = 0 \<or> flags = BIT 27"
    by (simp add: evr_sim_rw_plugin_def sim_read_u32_def) (metis swab32_swab32)
  obtain e1 s1 where head: "run_state (isr_head evr_sim_rw_plugin flags) (s\<lparr>ev_dev := h0\<rparr>) = (e1, s1)" by fastforce
  obtain e3 s3 where rest: "run_state (isr_rest evr_sim_rw_plugin flags) s1 = (e3, s3)" by fastforce
  have "run_state (if bit flags 3 then isr_event evr_sim_rw_plugin else State_Monad.return []) s1 = ([], s1)"
    using flags by auto
  from isr_parts [OF read head this rest] head_events [OF head] flags show ?thesis
    by (auto simp: notifications_def)
qed


section \<open>The DataBuf\<close>

lemma run_copy_data_buf:
  assumes "\<And>h i. i < 1024 \<Longrightarrow> d32 h (EVR_REG_DATA_BUF + push_bit 2 (of_nat i)) = swab32 (buf i)" and "n \<le> 1024"
  shows "run_state (copy_data_buf (bus_plugin d16 d32) n) s =
    ((), s\<lparr>ev_dev := rev (map (\<lambda>i. R32 (EVR_REG_DATA_BUF + push_bit 2 (of_nat i))) [0..<n]) @ ev_dev s,
      ev_hw := (ev_hw s)\<lparr>mmap_slot := (mmap_slot (ev_hw s))\<lparr>slot_data :=
        (\<lambda>i. if i < n then buf i else slot_data (mmap_slot (ev_hw s)) i)\<rparr>\<rparr>\<rparr>)"
  using assms(2)
proof (induction n)
  case 0
  then show ?case by (simp add: copy_data_buf_def)
next
  case (Suc n)
  have "(\<lambda>i. if i < Suc n then buf i else f i) = (\<lambda>i. if i < n then buf i else f i)(n := buf n)" for f :: "nat \<Rightarrow> u32"
    by (auto simp: fun_eq_iff less_Suc_eq)
  with Suc show ?case
    by (simp add: copy_data_buf_def for_each_append assms(1) del: fun_upd_apply)
qed

text \<open>
  C34: A data buffer without a checksum error is stored in the slot with its status and its size, the words beyond the
  size keep what they held; with an error the size is 0 and no word changes. Then the reception is switched
  on again, before the flag is acknowledged and cleared. The size comes from the hardware and goes up to 1023
  words: it is within the slot's 512 words only if the received size is below 2052 bytes, and no test limits it.
\<close>
theorem databuf_slot:
  assumes "\<And>h i. i < 1024 \<Longrightarrow> d32 h (EVR_REG_DATA_BUF + push_bit 2 (of_nat i)) = swab32 (buf i)"
    and "swab32 (d32 (ev_dev s) EVR_REG_DATA_BUF_CTRL) = sts"
    and "run_state (isr_databuf (bus_plugin d16 d32)) s = (es, s1)"
  shows "mmap_slot (ev_hw s1) = (let size = unat (sts AND 0xFFF) div 4 in
      if bit sts C_EVR_DATABUF_CHECKSUM then (mmap_slot (ev_hw s))\<lparr>slot_size32 := 0, slot_status := sts\<rparr>
      else (mmap_slot (ev_hw s))\<lparr>slot_size32 := of_nat size,
             slot_data := (\<lambda>i. if i < size then buf i else slot_data (mmap_slot (ev_hw s)) i), slot_status := sts\<rparr>)
    \<and> (unat (sts AND 0xFFF) div 4 \<le> DATA_BUFF_WORDS \<longleftrightarrow> unat (sts AND 0xFFF) < 2052)
    \<and> es = [Put_Event EVRMA_EVENT_DBUF_DATA []]
    \<and> (\<exists>dbctl ops. ev_dev s1 = [W32 EVR_REG_IRQFLAG 0, W32 EVR_REG_IRQFLAG (swab32 EVR_IRQFLAG_DATABUF),
          W32 EVR_REG_DATA_BUF_CTRL (swab32 (dbctl OR BIT C_EVR_DATABUF_LOAD))] @ ops @ ev_dev s)"
proof -
  have size: "unat (databuf_size32 sts) = unat (sts AND 0xFFF) div 4"
    unfolding databuf_size32_def drop_bit_eq_div by (simp add: unat_div)
  have n: "unat (databuf_size32 sts) \<le> 1024" using databuf_size32_bound [of sts] by simp
  have "databuf_size32 sts = of_nat (unat (databuf_size32 sts))" by simp
  then have size': "databuf_size32 sts = of_nat (unat (sts AND 0xFFF) div 4)" unfolding size .
  have swab0: "swab32 0 = 0" by (simp add: swab32_def)
  have n': "unat (sts AND 0xFFF) div 4 \<le> 1024" using n unfolding size .
  note copy = run_copy_data_buf [of d32 buf, OF assms(1) n']
  have words: "unat (sts AND 0xFFF) div 4 \<le> DATA_BUFF_WORDS \<longleftrightarrow> unat (sts AND 0xFFF) < 2052" by linarith
  define slot where "slot = (if bit sts C_EVR_DATABUF_CHECKSUM then (mmap_slot (ev_hw s))\<lparr>slot_size32 := 0, slot_status := sts\<rparr>
      else (mmap_slot (ev_hw s))\<lparr>slot_size32 := databuf_size32 sts,
        slot_data := (\<lambda>i. if i < unat (sts AND 0xFFF) div 4 then buf i else slot_data (mmap_slot (ev_hw s)) i), slot_status := sts\<rparr>)"
  have "\<exists>dbctl ops. run_state (isr_databuf (bus_plugin d16 d32)) s = ([Put_Event EVRMA_EVENT_DBUF_DATA []],
      s\<lparr>ev_hw := (ev_hw s)\<lparr>mmap_slot := slot\<rparr>, ev_dev := [W32 EVR_REG_IRQFLAG 0, W32 EVR_REG_IRQFLAG (swab32 EVR_IRQFLAG_DATABUF),
          W32 EVR_REG_DATA_BUF_CTRL (swab32 (dbctl OR BIT C_EVR_DATABUF_LOAD))] @ ops @ ev_dev s\<rparr>)"
  proof (cases "bit sts C_EVR_DATABUF_CHECKSUM")
    case True
    then show ?thesis
      by (intro exI [of _ "swab32 (d32 (R32 EVR_REG_DATA_BUF_CTRL # ev_dev s) EVR_REG_DATA_BUF_CTRL)"]
          exI [of _ "[R32 EVR_REG_DATA_BUF_CTRL, R32 EVR_REG_DATA_BUF_CTRL]"])
        (simp add: isr_databuf_def upd_slot_def and_flag assms(2) swab0 slot_def)
  next
    case False
    let ?reads = "rev (map (\<lambda>i. R32 (EVR_REG_DATA_BUF + push_bit 2 (of_nat i))) [0..<unat (sts AND 0xFFF) div 4])"
    from False show ?thesis
      by (intro exI [of _ "swab32 (d32 (?reads @ R32 EVR_REG_DATA_BUF_CTRL # ev_dev s) EVR_REG_DATA_BUF_CTRL)"]
          exI [of _ "R32 EVR_REG_DATA_BUF_CTRL # ?reads @ [R32 EVR_REG_DATA_BUF_CTRL]"])
        (simp add: isr_databuf_def upd_slot_def and_flag assms(2) size copy swab0 slot_def cong: if_cong)
  qed
  then obtain dbctl ops where "es = [Put_Event EVRMA_EVENT_DBUF_DATA []]"
    "s1 = s\<lparr>ev_hw := (ev_hw s)\<lparr>mmap_slot := slot\<rparr>, ev_dev := [W32 EVR_REG_IRQFLAG 0, W32 EVR_REG_IRQFLAG (swab32 EVR_IRQFLAG_DATABUF),
          W32 EVR_REG_DATA_BUF_CTRL (swab32 (dbctl OR BIT C_EVR_DATABUF_LOAD))] @ ops @ ev_dev s\<rparr>"
    using assms(3) by auto
  then show ?thesis unfolding words by (auto simp: slot_def size' Let_def)
qed


text \<open>A device whose DataBuf has 2052 bytes, which is one word more than the slot has.\<close>

lemma databuf_slot_witness:
  "unat ((2052 :: u32) AND 0xFFF) div 4 = 513 \<and>
   slot_data (mmap_slot (ev_hw (snd (run_state (isr_databuf (bus_plugin (\<lambda>_ _. 0)
     (\<lambda>_ a. if a = EVR_REG_DATA_BUF_CTRL then swab32 2052 else swab32 7))) evr_ex)))) 512 = 7"
proof -
  let ?io = "bus_plugin (\<lambda>_ _. 0) (\<lambda>_ a. if a = EVR_REG_DATA_BUF_CTRL then swab32 2052 else swab32 7)"
  obtain es s1 where run: "run_state (isr_databuf ?io) evr_ex = (es, s1)" by fastforce
  have buf: "(if EVR_REG_DATA_BUF + push_bit 2 (of_nat i) = EVR_REG_DATA_BUF_CTRL then swab32 2052 else swab32 7) = swab32 7"
    if "i < 1024" for i
  proof -
    have "EVR_REG_DATA_BUF + push_bit 2 (of_nat i) \<noteq> EVR_REG_DATA_BUF_CTRL"
    proof
      assume eq: "EVR_REG_DATA_BUF + push_bit 2 (of_nat i) = EVR_REG_DATA_BUF_CTRL"
      show False using uint_data_buf_reg [OF that] unfolding eq by simp
    qed
    then show ?thesis by simp
  qed
  have sts: "swab32 (if EVR_REG_DATA_BUF_CTRL = (EVR_REG_DATA_BUF_CTRL::u32) then swab32 2052 else swab32 7) = 2052" by simp
  have bit: "\<not> bit (2052 :: u32) 13" by simp
  from databuf_slot [where buf = "\<lambda>_. 7", OF buf sts run] bit run show ?thesis by (simp add: Let_def)
qed

section \<open>What the hardware is told\<close>

definition irq_mask :: "u32 \<Rightarrow> event_list_type \<Rightarrow> u32" where
  "irq_mask prev subs =
     enable_if (event_list_test subs EVRMA_EVENT_ERROR_LOST) EVR_IRQFLAG_FIFOFULL
     (enable_if (event_list_test subs EVRMA_EVENT_ERROR_HEART) EVR_IRQFLAG_HEARTBEAT
     (enable_if (event_list_test subs EVRMA_EVENT_DELAYED_IRQ) EVR_IRQFLAG_PULSE
     (enable_if (event_list_test subs EVRMA_EVENT_ERROR_TAXI) EVR_IRQFLAG_VIOLATION
     (enable_if (event_list_test subs EVRMA_EVENT_DBUF_DATA) EVR_IRQFLAG_DATABUF
     (enable_if (fifo_events_enabled subs) EVR_IRQFLAG_EVENT
     (enable_if (\<not> event_list_is_empty subs) EVR_IRQ_MASTER_ENABLE (prev AND BIT C_EVR_IRQ_PCIEE)))))))"

lemma bit_irq_mask:
  "n < 32 \<Longrightarrow> bit (irq_mask prev subs) n \<longleftrightarrow>
    n = 31 \<and> \<not> event_list_is_empty subs \<or> n = 30 \<and> bit prev 30
    \<or> n = 3 \<and> (\<exists>e\<in>{0..255}. event_list_test subs e) \<or> n = 5 \<and> event_list_test subs EVRMA_EVENT_DBUF_DATA
    \<or> n = 0 \<and> event_list_test subs EVRMA_EVENT_ERROR_TAXI \<or> n = 4 \<and> event_list_test subs EVRMA_EVENT_DELAYED_IRQ
    \<or> n = 2 \<and> event_list_test subs EVRMA_EVENT_ERROR_HEART \<or> n = 1 \<and> event_list_test subs EVRMA_EVENT_ERROR_LOST"
proof -
  have "fifo_events_enabled subs \<longleftrightarrow> (\<exists>e\<in>{0..255}. event_list_test subs e)"
  proof
    assume "fifo_events_enabled subs"
    then obtain i where "i < 256" "event_list_test subs (int i)" by (auto simp: fifo_events_enabled_def list_ex_iff)
    then show "\<exists>e\<in>{0..255}. event_list_test subs e" by (intro bexI [of _ "int i"]) auto
  next
    assume "\<exists>e\<in>{0..255}. event_list_test subs e"
    then obtain e where "0 \<le> e" "e \<le> 255" "event_list_test subs e" by auto
    then show "fifo_events_enabled subs" unfolding fifo_events_enabled_def list_ex_iff by (intro bexI [of _ "nat e"]) auto
  qed
  moreover have enable: "bit (enable_if b (BIT k) w) n \<longleftrightarrow> bit w n \<or> (b \<and> n = k \<and> k < 32)" for b k w n
    by (auto simp: enable_if_def bit_or_iff)
  ultimately show "n < 32 \<Longrightarrow> ?thesis"
    unfolding irq_mask_def enable by (auto simp: bit_and_iff)
qed

lemma run_save_subscribed:
  "run_state (save_subscribed subs) s = ((), s\<lparr>ev_hw := (ev_hw s)\<lparr>map_ram :=
     ram_mapped 0 256 (\<lambda>i. save_mask (event_list_test subs (int i))) (map_ram (ev_hw s))\<rparr>\<rparr>)"
  using run_map_ram_loop [of 0 "\<lambda>i. save_mask (event_list_test subs (int i))" 256 s] by (simp add: save_subscribed_def)





end
