(* ===== verification/Rm.thy ===== *)
theory Rm
  imports Hw_Support
begin

text \<open>
  The resource manager (src/src/rm.c, rm.h). Each element of each resource type is a slot of one
  table, with its owner; a resource is named by its type and index. The table is laid out type
  after type, and \<open>modac_rm_get_owner\<close> finds a slot from the start of its type. The interface
  \<open>resource_manager\<close> says what the MNG_DEV builds on: a resource has at most one owner,
  allocation takes a free resource and no other changes hands.
\<close>

section \<open>State\<close>

abbreviation (input) NO_OWNER :: int where "NO_OWNER \<equiv> -1"
abbreviation (input) MODAC_RES_TYPE_MAX_COUNT :: nat where "MODAC_RES_TYPE_MAX_COUNT \<equiv> 16"
abbreviation (input) MODAC_RM_ALLOC_FROM_POOL :: int where "MODAC_RM_ALLOC_FROM_POOL \<equiv> -1"

text \<open>The definition a slot points to is constant once \<open>modac_rm_init\<close> has filled in its type.\<close>

record 's res_state =
  rs_hw_res_def :: "'s modac_hw_res_def"
  rs_array_index :: int
  rs_owner :: int

record resource_type_data =
  rt_res_state_start :: nat
  rt_res_state_count :: nat

record 's modac_rm_data =
  rm_hw_res_defs :: "'s modac_hw_res_def list"
  rm_res_states :: "'s res_state list"
  rm_resource_type_data :: "resource_type_data list"

definition hw_res_def_count :: "'s modac_rm_data \<Rightarrow> int" where
  "hw_res_def_count rm = int (length (rm_hw_res_defs rm))"

section \<open>Operations\<close>

text \<open>The first loop of \<open>modac_rm_init\<close>: the types, the start and the length of each type.\<close>

fun count_resources :: "int \<Rightarrow> nat \<Rightarrow> 's modac_hw_res_def list \<Rightarrow>
    's modac_hw_res_def list \<times> resource_type_data list \<times> nat" where
  "count_resources ih resource_count [] = ([], [], resource_count)"
| "count_resources ih resource_count (d # ds) =
     (case count_resources (ih + 1) (resource_count + rd_count d) ds of (ds', ts, n) \<Rightarrow>
        (d\<lparr>rd_type := ih\<rparr> # ds',
         \<lparr>rt_res_state_start = resource_count, rt_res_state_count = rd_count d\<rparr> # ts, n))"

text \<open>The second loop: all the slots are free.\<close>

definition fill_resources :: "'s modac_hw_res_def list \<Rightarrow> 's res_state list" where
  "fill_resources defs =
     concat (map (\<lambda>d. map (\<lambda>ih2. \<lparr>rs_hw_res_def = d, rs_array_index = int ih2, rs_owner = NO_OWNER\<rparr>)
       [0..<rd_count d]) defs)"

text \<open>The \<open>n\<close>th allocation succeeds when \<open>kmalloc_ok n\<close>.\<close>

definition modac_rm_init ::
  "(nat \<Rightarrow> bool) \<Rightarrow> 's modac_hw_res_def list \<Rightarrow> 's modac_rm_data res" where
  "modac_rm_init kmalloc_ok hw_res_defs =
     (if length hw_res_defs > MODAC_RES_TYPE_MAX_COUNT then Inl ENXIO
      else if \<not> kmalloc_ok 0 then Inl ENOMEM
      else case count_resources 0 0 hw_res_defs of (defs, ts, resource_count) \<Rightarrow>
        if \<not> kmalloc_ok 1 then Inl ENOMEM
        else Inr \<lparr>rm_hw_res_defs = defs, rm_res_states = fill_resources defs,
                  rm_resource_type_data = ts\<rparr>)"

text \<open>
  The search of \<open>modac_rm_alloc\<close> from slot \<open>i\<close> on, with the best suitability and its
  slot found so far; \<open>s\<close> is the state that the suitability functions read.
\<close>

fun rm_search :: "'s \<Rightarrow> u8 list \<Rightarrow> int \<Rightarrow> int list \<Rightarrow> int \<Rightarrow> 's res_state list \<Rightarrow> int \<Rightarrow> int \<Rightarrow> int res" where
  "rm_search s resource_name fixed_inx arg_filters i [] max_suitability index_most_suitable =
     (if index_most_suitable \<ge> 0 then Inr index_most_suitable else Inl EACCES)"
| "rm_search s resource_name fixed_inx arg_filters i (r # rs) max_suitability index_most_suitable =
     (if \<not> STRINGS_EQUAL (rd_name (rs_hw_res_def r)) resource_name
      then rm_search s resource_name fixed_inx arg_filters (i + 1) rs max_suitability index_most_suitable
      else if fixed_inx = MODAC_RM_ALLOC_FROM_POOL then
        (if rs_owner r \<noteq> NO_OWNER
         then rm_search s resource_name fixed_inx arg_filters (i + 1) rs max_suitability index_most_suitable
         else
           let suitability = rd_suits (rs_hw_res_def r) s (rs_array_index r) arg_filters in
           if suitability \<le> max_suitability
           then rm_search s resource_name fixed_inx arg_filters (i + 1) rs max_suitability index_most_suitable
           else rm_search s resource_name fixed_inx arg_filters (i + 1) rs suitability i)
      else if rs_array_index r \<noteq> fixed_inx
      then rm_search s resource_name fixed_inx arg_filters (i + 1) rs max_suitability index_most_suitable
      else if rs_owner r \<noteq> NO_OWNER then Inl EADDRINUSE
      else Inr i)"

definition set_owner :: "'s modac_rm_data \<Rightarrow> nat \<Rightarrow> int \<Rightarrow> 's modac_rm_data" where
  "set_owner rm i owner =
     rm\<lparr>rm_res_states := (rm_res_states rm)[i := (rm_res_states rm ! i)\<lparr>rs_owner := owner\<rparr>]\<rparr>"

text \<open>The result, the description of the resource where there is one, and the manager.\<close>

definition modac_rm_alloc :: "'s modac_rm_data \<Rightarrow> 's \<Rightarrow> int \<Rightarrow> u8 list \<Rightarrow> int \<Rightarrow> int list \<Rightarrow>
    int res \<times> modac_rm_vres_desc option \<times> 's modac_rm_data" where
  "modac_rm_alloc rm s owner resource_name fixed_inx arg_filters =
     (case rm_search s resource_name fixed_inx arg_filters 0 (rm_res_states rm) 0 (-1) of
        Inl e \<Rightarrow> (Inl e, None, rm)
      | Inr i \<Rightarrow>
          let rm' = set_owner rm (nat i) owner; r = rm_res_states rm' ! nat i
          in (Inr i, Some \<lparr>vd_type = rd_type (rs_hw_res_def r), vd_index = rs_array_index r\<rparr>, rm'))"

definition modac_rm_free_owner :: "'s modac_rm_data \<Rightarrow> int \<Rightarrow> 's modac_rm_data" where
  "modac_rm_free_owner rm owner =
     rm\<lparr>rm_res_states := map (\<lambda>r. if rs_owner r = owner then r\<lparr>rs_owner := NO_OWNER\<rparr> else r)
          (rm_res_states rm)\<rparr>"

definition modac_rm_get_res_count_for_type :: "'s modac_rm_data \<Rightarrow> int \<Rightarrow> int res" where
  "modac_rm_get_res_count_for_type rm res_type =
     (if res_type < 0 \<or> res_type \<ge> hw_res_def_count rm then Inl EINVAL
      else Inr (int (rt_res_state_count (rm_resource_type_data rm ! nat res_type))))"

definition modac_rm_get_owner :: "'s modac_rm_data \<Rightarrow> modac_rm_vres_desc \<Rightarrow> int res" where
  "modac_rm_get_owner rm vres_desc =
     (if vd_type vres_desc < 0 \<or> vd_type vres_desc \<ge> hw_res_def_count rm then Inl EINVAL
      else
        let type_data = rm_resource_type_data rm ! nat (vd_type vres_desc) in
        if vd_index vres_desc < 0 \<or> vd_index vres_desc \<ge> int (rt_res_state_count type_data) then Inl EINVAL
        else
          let owner = rs_owner (rm_res_states rm
                ! (rt_res_state_start type_data + nat (vd_index vres_desc)))
          in if owner = NO_OWNER then Inl EACCES else Inr owner)"

section \<open>The layout of the table\<close>

definition type_start :: "'s modac_hw_res_def list \<Rightarrow> nat \<Rightarrow> nat" where
  "type_start defs t = sum_list (map rd_count (take t defs))"

definition slots :: "'s modac_hw_res_def list \<Rightarrow> ('s modac_hw_res_def \<times> int) list" where
  "slots defs = concat (map (\<lambda>d. map (\<lambda>j. (d, int j)) [0..<rd_count d]) defs)"

lemma slots_Cons: "slots (d # ds) = map (\<lambda>j. (d, int j)) [0..<rd_count d] @ slots ds"
  by (simp add: slots_def)

lemma nth_slots:
  "t < length ds \<Longrightarrow> j < rd_count (ds ! t) \<Longrightarrow>
   type_start ds t + j < length (slots ds) \<and> slots ds ! (type_start ds t + j) = (ds ! t, int j)"
proof (induction ds arbitrary: t)
  case (Cons d ds)
  then show ?case
    by (cases t) (auto simp: slots_Cons type_start_def nth_append)
qed simp

lemma slots_cases:
  "i < length (slots ds) \<Longrightarrow> \<exists>t<length ds. \<exists>j<rd_count (ds ! t). i = type_start ds t + j"
proof (induction ds arbitrary: i)
  case (Cons d ds)
  show ?case
  proof (cases "i < rd_count d")
    case True
    then show ?thesis by (intro exI [of _ 0]) (auto simp: type_start_def)
  next
    case False
    with Cons.prems have "i - rd_count d < length (slots ds)" by (simp add: slots_Cons)
    from Cons.IH [OF this] obtain t j where "t < length ds" "j < rd_count (ds ! t)"
      "i - rd_count d = type_start ds t + j" by auto
    with False show ?thesis
      by (intro exI [of _ "Suc t"] conjI exI [of _ j]) (auto simp: type_start_def)
  qed
qed (simp add: slots_def)

lemma count_resources_eq:
  "count_resources ih rc ds = (map (\<lambda>i. (ds ! i)\<lparr>rd_type := ih + int i\<rparr>) [0..<length ds],
     map (\<lambda>i. \<lparr>rt_res_state_start = rc + type_start ds i, rt_res_state_count = rd_count (ds ! i)\<rparr>) [0..<length ds],
     rc + type_start ds (length ds))"
proof (induction ih rc ds rule: count_resources.induct)
  case (2 ih rc d ds)
  have upt: "map f [0..<Suc n] = f 0 # map (\<lambda>i. f (Suc i)) [0..<n]" for f :: "nat \<Rightarrow> 'b" and n
    by (simp add: upt_conv_Cons map_Suc_upt [symmetric] del: upt_Suc)
  show ?case
    by (simp add: 2 upt type_start_def add.assoc add.left_commute comp_def del: upt_Suc)
qed (simp add: type_start_def)

text \<open>
  Well-formedness: the definitions are numbered by their types, the table has the layout of the
  definitions and the start and the length of each type are the right ones. Which slots
  are owned is free.
\<close>

definition rm_wf :: "'s modac_rm_data \<Rightarrow> bool" where
  "rm_wf rm \<longleftrightarrow> length (rm_hw_res_defs rm) \<le> MODAC_RES_TYPE_MAX_COUNT
     \<and> (\<forall>t<length (rm_hw_res_defs rm). rd_type (rm_hw_res_defs rm ! t) = int t)
     \<and> map (\<lambda>r. (rs_hw_res_def r, rs_array_index r)) (rm_res_states rm) = slots (rm_hw_res_defs rm)
     \<and> rm_resource_type_data rm =
         map (\<lambda>t. \<lparr>rt_res_state_start = type_start (rm_hw_res_defs rm) t,
                    rt_res_state_count = rd_count (rm_hw_res_defs rm ! t)\<rparr>) [0..<length (rm_hw_res_defs rm)]"

lemma slots_fill: "map (\<lambda>r. (rs_hw_res_def r, rs_array_index r)) (fill_resources defs) = slots defs"
  by (simp add: fill_resources_def slots_def map_concat comp_def)

lemma type_start_types:
  "type_start (map (\<lambda>i. (ds ! i)\<lparr>rd_type := f i\<rparr>) [0..<length ds]) t = type_start ds t"
proof -
  have "map (\<lambda>i. rd_count (ds ! i)) [0..<length ds] = map rd_count ds"
    by (metis (no_types, lifting) map_nth map_map comp_def map_cong)
  then have "map rd_count (map (\<lambda>i. (ds ! i)\<lparr>rd_type := f i\<rparr>) [0..<length ds]) = map rd_count ds"
    by (simp add: comp_def)
  then show ?thesis unfolding type_start_def by (metis take_map)
qed

lemma modac_rm_init_wf [modac_wf]:
  "modac_rm_init ok defs = Inr rm \<Longrightarrow> rm_wf rm \<and> (\<forall>r\<in>set (rm_res_states rm). rs_owner r = NO_OWNER)"
  by (auto simp: modac_rm_init_def count_resources_eq rm_wf_def slots_fill type_start_types
      split: if_splits) (auto simp: fill_resources_def)

text \<open>The slot of a resource.\<close>

definition res_slot :: "'s modac_rm_data \<Rightarrow> modac_rm_vres_desc \<Rightarrow> nat option" where
  "res_slot rm d = (if 0 \<le> vd_type d \<and> vd_type d < hw_res_def_count rm \<and> 0 \<le> vd_index d
       \<and> vd_index d < int (rd_count (rm_hw_res_defs rm ! nat (vd_type d)))
     then Some (type_start (rm_hw_res_defs rm) (nat (vd_type d)) + nat (vd_index d)) else None)"

definition slot_desc :: "'s res_state \<Rightarrow> modac_rm_vres_desc" where
  "slot_desc r = \<lparr>vd_type = rd_type (rs_hw_res_def r), vd_index = rs_array_index r\<rparr>"

lemma length_res_states: "rm_wf rm \<Longrightarrow> length (rm_res_states rm) = length (slots (rm_hw_res_defs rm))"
  unfolding rm_wf_def by (metis length_map)

lemma nth_res_states:
  assumes "rm_wf rm" "i < length (rm_res_states rm)"
  shows "(rs_hw_res_def (rm_res_states rm ! i), rs_array_index (rm_res_states rm ! i))
    = slots (rm_hw_res_defs rm) ! i"
  using assms unfolding rm_wf_def by (metis (no_types, lifting) nth_map)

lemma res_slot_desc:
  assumes wf: "rm_wf rm"
  shows "res_slot rm d = Some i \<longleftrightarrow> i < length (rm_res_states rm) \<and> slot_desc (rm_res_states rm ! i) = d"
proof
  assume "res_slot rm d = Some i"
  then have t: "nat (vd_type d) < length (rm_hw_res_defs rm)" "nat (vd_index d) < rd_count (rm_hw_res_defs rm ! nat (vd_type d))"
    and i: "i = type_start (rm_hw_res_defs rm) (nat (vd_type d)) + nat (vd_index d)"
    and pos: "0 \<le> vd_type d" "0 \<le> vd_index d"
    by (auto simp: res_slot_def hw_res_def_count_def split: if_splits)
  from nth_slots [OF t] i have len: "i < length (rm_res_states rm)"
    by (simp add: length_res_states [OF wf])
  from nth_res_states [OF wf this] nth_slots [OF t] i pos wf t(1)
  show "i < length (rm_res_states rm) \<and> slot_desc (rm_res_states rm ! i) = d"
    using len by (auto simp: slot_desc_def rm_wf_def)
next
  assume "i < length (rm_res_states rm) \<and> slot_desc (rm_res_states rm ! i) = d"
  then have len: "i < length (rm_res_states rm)" and d: "d = slot_desc (rm_res_states rm ! i)" by auto
  from slots_cases len obtain t j where t: "t < length (rm_hw_res_defs rm)" "j < rd_count (rm_hw_res_defs rm ! t)"
    "i = type_start (rm_hw_res_defs rm) t + j"
    unfolding length_res_states [OF wf] by blast
  from nth_res_states [OF wf len] nth_slots [OF t(1,2)] t wf
  have "d = \<lparr>vd_type = int t, vd_index = int j\<rparr>" by (auto simp: d slot_desc_def rm_wf_def)
  with t show "res_slot rm d = Some i" by (auto simp: res_slot_def hw_res_def_count_def)
qed

lemma nth_type_data:
  "rm_wf rm \<Longrightarrow> 0 \<le> t \<Longrightarrow> t < hw_res_def_count rm \<Longrightarrow> rm_resource_type_data rm ! nat t =
     \<lparr>rt_res_state_start = type_start (rm_hw_res_defs rm) (nat t),
      rt_res_state_count = rd_count (rm_hw_res_defs rm ! nat t)\<rparr>"
  by (simp add: rm_wf_def hw_res_def_count_def nat_less_iff)

lemma get_owner_slot:
  assumes wf: "rm_wf rm"
  shows "modac_rm_get_owner rm d = (case res_slot rm d of None \<Rightarrow> Inl EINVAL
    | Some i \<Rightarrow> if rs_owner (rm_res_states rm ! i) = NO_OWNER then Inl EACCES
              else Inr (rs_owner (rm_res_states rm ! i)))"
proof (cases "0 \<le> vd_type d \<and> vd_type d < hw_res_def_count rm")
  case True
  with nth_type_data [OF wf] show ?thesis
    by (auto simp: modac_rm_get_owner_def res_slot_def Let_def)
qed (auto simp: modac_rm_get_owner_def res_slot_def)

lemma rm_wf_map:
  assumes "rm_wf rm" and "length rs = length (rm_res_states rm)"
    and "\<And>i. i < length rs \<Longrightarrow> rs_hw_res_def (rs ! i) = rs_hw_res_def (rm_res_states rm ! i)
       \<and> rs_array_index (rs ! i) = rs_array_index (rm_res_states rm ! i)"
  shows "rm_wf (rm\<lparr>rm_res_states := rs\<rparr>)"
proof -
  have "map (\<lambda>r. (rs_hw_res_def r, rs_array_index r)) rs
      = map (\<lambda>r. (rs_hw_res_def r, rs_array_index r)) (rm_res_states rm)"
    using assms(2,3) by (intro nth_equalityI) auto
  with assms(1) show ?thesis by (simp add: rm_wf_def)
qed

lemma set_owner_wf [modac_wf]: "rm_wf rm \<Longrightarrow> rm_wf (set_owner rm i owner)"
  unfolding set_owner_def
proof (rule rm_wf_map)
  fix j
  assume "j < length ((rm_res_states rm)[i := (rm_res_states rm ! i)\<lparr>rs_owner := owner\<rparr>])"
  then show "rs_hw_res_def ((rm_res_states rm)[i := (rm_res_states rm ! i)\<lparr>rs_owner := owner\<rparr>] ! j)
      = rs_hw_res_def (rm_res_states rm ! j)
    \<and> rs_array_index ((rm_res_states rm)[i := (rm_res_states rm ! i)\<lparr>rs_owner := owner\<rparr>] ! j)
      = rs_array_index (rm_res_states rm ! j)"
    by (cases "i = j") simp_all
qed simp_all

lemma free_owner_wf [modac_wf]: "rm_wf rm \<Longrightarrow> rm_wf (modac_rm_free_owner rm owner)"
  unfolding modac_rm_free_owner_def by (rule rm_wf_map) auto

lemma res_slot_cong:
  "rm_hw_res_defs rm' = rm_hw_res_defs rm \<Longrightarrow> res_slot rm' d = res_slot rm d"
  by (simp add: res_slot_def hw_res_def_count_def)

section \<open>The search\<close>

definition res_named :: "u8 list \<Rightarrow> 's res_state \<Rightarrow> bool" where
  "res_named resource_name r \<longleftrightarrow> STRINGS_EQUAL (rd_name (rs_hw_res_def r)) resource_name"

definition res_suits :: "'s \<Rightarrow> int list \<Rightarrow> 's res_state \<Rightarrow> int" where
  "res_suits s arg_filters r = rd_suits (rs_hw_res_def r) s (rs_array_index r) arg_filters"

text \<open>The candidates of a pool allocation: free, of the name, suitable.\<close>

definition res_cand :: "'s \<Rightarrow> u8 list \<Rightarrow> int list \<Rightarrow> 's res_state \<Rightarrow> bool" where
  "res_cand s resource_name arg_filters r \<longleftrightarrow>
     res_named resource_name r \<and> rs_owner r = NO_OWNER \<and> 0 < res_suits s arg_filters r"

definition best_of :: "'s \<Rightarrow> u8 list \<Rightarrow> int list \<Rightarrow> 's res_state list \<Rightarrow> nat \<Rightarrow> bool" where
  "best_of s nm af rs i \<longleftrightarrow> i < length rs \<and> res_cand s nm af (rs ! i)
     \<and> (\<forall>j<length rs. res_cand s nm af (rs ! j) \<longrightarrow> res_suits s af (rs ! j) \<le> res_suits s af (rs ! i))
     \<and> (\<forall>j<i. res_cand s nm af (rs ! j) \<longrightarrow> res_suits s af (rs ! j) < res_suits s af (rs ! i))"

definition best_so_far :: "'s \<Rightarrow> u8 list \<Rightarrow> int list \<Rightarrow> 's res_state list \<Rightarrow> int \<Rightarrow> int \<Rightarrow> bool" where
  "best_so_far s nm af rs m idx \<longleftrightarrow>
     (if idx \<ge> 0 then best_of s nm af rs (nat idx) \<and> m = res_suits s af (rs ! nat idx)
      else m = 0 \<and> (\<forall>r\<in>set rs. \<not> res_cand s nm af r))"

lemma best_so_far_skip:
  "best_so_far s nm af pre m idx \<Longrightarrow> \<not> res_cand s nm af r \<or> res_suits s af r \<le> m \<Longrightarrow>
   best_so_far s nm af (pre @ [r]) m idx"
  by (auto simp: best_so_far_def best_of_def nth_append less_Suc_eq res_cand_def split: if_splits)

lemma best_so_far_take:
  "best_so_far s nm af pre m idx \<Longrightarrow> res_cand s nm af r \<Longrightarrow> m < res_suits s af r \<Longrightarrow>
   best_so_far s nm af (pre @ [r]) (res_suits s af r) (int (length pre))"
  by (auto simp: best_so_far_def best_of_def nth_append less_Suc_eq split: if_splits)

lemma best_so_far_nonneg: "best_so_far s nm af rs m idx \<Longrightarrow> 0 \<le> m"
  by (auto simp: best_so_far_def best_of_def res_cand_def split: if_splits)

lemma rm_search_pool:
  "best_so_far s nm af pre m idx \<Longrightarrow> i = int (length pre) \<Longrightarrow>
   \<exists>m' idx'. best_so_far s nm af (pre @ rs) m' idx' \<and>
     rm_search s nm MODAC_RM_ALLOC_FROM_POOL af i rs m idx = (if idx' \<ge> 0 then Inr idx' else Inl EACCES)"
proof (induction rs arbitrary: pre i m idx)
  case Nil
  then show ?case by auto
next
  case (Cons r rs)
  have pos: "i + 1 = int (length (pre @ [r]))" using Cons.prems(2) by simp
  show ?case
  proof (cases "res_cand s nm af r \<and> m < res_suits s af r")
    case True
    then have "rm_search s nm MODAC_RM_ALLOC_FROM_POOL af i (r # rs) m idx
        = rm_search s nm MODAC_RM_ALLOC_FROM_POOL af (i + 1) rs (res_suits s af r) i"
      by (simp add: res_cand_def res_named_def res_suits_def)
    with Cons.IH [OF best_so_far_take [OF Cons.prems(1)] pos] True Cons.prems(2) show ?thesis by simp
  next
    case False
    then have "rm_search s nm MODAC_RM_ALLOC_FROM_POOL af i (r # rs) m idx
        = rm_search s nm MODAC_RM_ALLOC_FROM_POOL af (i + 1) rs m idx"
      using best_so_far_nonneg [OF Cons.prems(1)]
      by (auto simp: res_cand_def res_named_def res_suits_def Let_def)
    with Cons.IH [OF best_so_far_skip [OF Cons.prems(1)] pos] False show ?thesis by force
  qed
qed

lemma rm_search_fixed:
  "fixed \<noteq> MODAC_RM_ALLOC_FROM_POOL \<Longrightarrow>
   rm_search s nm fixed af i rs m (-1) =
     (case find (\<lambda>k. res_named nm (rs ! k) \<and> rs_array_index (rs ! k) = fixed) [0..<length rs] of
        None \<Rightarrow> Inl EACCES
      | Some k \<Rightarrow> if rs_owner (rs ! k) = NO_OWNER then Inr (i + int k) else Inl EADDRINUSE)"
proof (induction rs arbitrary: i)
  case (Cons r rs)
  have upt: "[0..<length (r # rs)] = 0 # map Suc [0..<length rs]"
    by (simp add: upt_conv_Cons map_Suc_upt del: upt_Suc)
  have find: "find P (map Suc xs) = map_option Suc (find (P \<circ> Suc) xs)" for P xs
    by (induction xs) auto
  show ?case
    unfolding upt using Cons
    by (auto simp: find comp_def res_named_def algebra_simps split: option.splits)
qed simp

section \<open>The interface\<close>

locale resource_manager =
  fixes wf :: "'m \<Rightarrow> bool"
    and owner_of :: "'m \<Rightarrow> modac_rm_vres_desc \<Rightarrow> int res"
    and alloc :: "'m \<Rightarrow> 's \<Rightarrow> int \<Rightarrow> u8 list \<Rightarrow> int \<Rightarrow> int list \<Rightarrow> int res \<times> modac_rm_vres_desc option \<times> 'm"
    and free_owner :: "'m \<Rightarrow> int \<Rightarrow> 'm"
  assumes alloc_law: "wf m \<Longrightarrow> w \<noteq> NO_OWNER \<Longrightarrow> alloc m s w nm fx af = (r, d, m') \<Longrightarrow>
      wf m' \<and> (case r of Inl e \<Rightarrow> d = None \<and> m' = m
        | Inr i \<Rightarrow> 0 \<le> i \<and> (\<exists>v. d = Some v \<and> owner_of m v = Inl EACCES \<and>
            owner_of m' = (owner_of m)(v := Inr w)))"
    and free_law: "wf m \<Longrightarrow> w \<noteq> NO_OWNER \<Longrightarrow> wf (free_owner m w) \<and>
      owner_of (free_owner m w) v = (if owner_of m v = Inr w then Inl EACCES else owner_of m v)"
begin

lemma alloc_wf: "wf m \<Longrightarrow> w \<noteq> NO_OWNER \<Longrightarrow> wf (snd (snd (alloc m s w nm fx af)))"
  using alloc_law [of m w s nm fx af] by (cases "alloc m s w nm fx af") auto

lemma alloc_keeps:
  assumes "wf m" "w \<noteq> NO_OWNER" "owner_of m v = Inr x"
  shows "owner_of (snd (snd (alloc m s w nm fx af))) v = Inr x"
proof -
  obtain r d m' where a: "alloc m s w nm fx af = (r, d, m')" by (cases "alloc m s w nm fx af") auto
  from alloc_law [OF assms(1,2) a] assms(3) a show ?thesis
    by (cases r) auto
qed

lemma free_gone: "wf m \<Longrightarrow> w \<noteq> NO_OWNER \<Longrightarrow> owner_of (free_owner m w) v \<noteq> Inr w"
  using free_law [of m w v] by auto

lemma free_others: "wf m \<Longrightarrow> w \<noteq> NO_OWNER \<Longrightarrow> x \<noteq> w \<Longrightarrow>
  owner_of (free_owner m w) v = Inr x \<longleftrightarrow> owner_of m v = Inr x"
  using free_law [of m w v] by auto

end

lemma rm_search_result:
  assumes "rm_search s nm fx af 0 rs 0 (-1) = Inr i"
  shows "0 \<le> i \<and> nat i < length rs \<and> rs_owner (rs ! nat i) = NO_OWNER"
proof (cases "fx = MODAC_RM_ALLOC_FROM_POOL")
  case True
  have "best_so_far s nm af [] 0 (-1)" by (simp add: best_so_far_def)
  from rm_search_pool [OF this, of 0 rs] assms True show ?thesis
    by (auto simp: best_so_far_def best_of_def res_cand_def split: if_splits)
next
  case False
  with assms show ?thesis
    by (auto simp: rm_search_fixed find_upt_Some split: option.splits if_splits)
qed

lemma res_slot_inj:
  assumes "rm_wf rm" and "res_slot rm d = Some i" and "res_slot rm d' = Some i"
  shows "d = d'"
  using assms(2,3) unfolding res_slot_desc [OF assms(1)] by auto

lemma get_owner_set_owner:
  assumes wf: "rm_wf rm" and i: "i < length (rm_res_states rm)" and w: "w \<noteq> NO_OWNER"
    and free: "rs_owner (rm_res_states rm ! i) = NO_OWNER"
  shows "modac_rm_get_owner rm (slot_desc (rm_res_states rm ! i)) = Inl EACCES \<and>
    modac_rm_get_owner (set_owner rm i w) = (modac_rm_get_owner rm)(slot_desc (rm_res_states rm ! i) := Inr w)"
proof -
  have slot: "res_slot rm (slot_desc (rm_res_states rm ! i)) = Some i"
    using i by (simp add: res_slot_desc [OF wf])
  have cong: "res_slot (set_owner rm i w) = res_slot rm"
    by (intro ext res_slot_cong) (simp add: set_owner_def)
  have "modac_rm_get_owner (set_owner rm i w) d
      = ((modac_rm_get_owner rm)(slot_desc (rm_res_states rm ! i) := Inr w)) d" for d
  proof (cases "res_slot rm d")
    case None
    with slot have "d \<noteq> slot_desc (rm_res_states rm ! i)" by auto
    with None show ?thesis by (simp add: get_owner_slot [OF wf] get_owner_slot [OF set_owner_wf [OF wf]] cong)
  next
    case (Some k)
    show ?thesis
    proof (cases "k = i")
      case True
      then have "d = slot_desc (rm_res_states rm ! i)" using Some slot res_slot_inj [OF wf] by blast
      with Some True i w show ?thesis
        by (simp add: get_owner_slot [OF set_owner_wf [OF wf]] cong) (simp add: set_owner_def)
    next
      case False
      then have "d \<noteq> slot_desc (rm_res_states rm ! i)" using Some slot by auto
      with Some False show ?thesis
        by (simp add: get_owner_slot [OF wf] get_owner_slot [OF set_owner_wf [OF wf]] cong)
          (simp add: set_owner_def)
    qed
  qed
  with slot free show ?thesis by (auto simp: get_owner_slot [OF wf])
qed

lemma modac_rm_alloc_law:
  assumes wf: "rm_wf rm" and w: "w \<noteq> NO_OWNER" and a: "modac_rm_alloc rm s w nm fx af = (r, d, rm')"
  shows "rm_wf rm' \<and> (case r of Inl e \<Rightarrow> d = None \<and> rm' = rm
    | Inr i \<Rightarrow> 0 \<le> i \<and> (\<exists>v. d = Some v \<and> modac_rm_get_owner rm v = Inl EACCES \<and>
        modac_rm_get_owner rm' = (modac_rm_get_owner rm)(v := Inr w)))"
proof (cases "rm_search s nm fx af 0 (rm_res_states rm) 0 (-1)")
  case (Inl e)
  have "r = Inl e" "d = None" "rm' = rm" using a by (simp_all add: modac_rm_alloc_def Inl)
  with wf show ?thesis by simp
next
  case (Inr i)
  note found = rm_search_result [OF Inr]
  have "d = Some (slot_desc (rm_res_states rm ! nat i))" "r = Inr i" "rm' = set_owner rm (nat i) w"
    using a Inr found by (auto simp: modac_rm_alloc_def Let_def set_owner_def slot_desc_def)
  with get_owner_set_owner [OF wf _ w] found set_owner_wf [OF wf] show ?thesis by auto
qed

lemma modac_rm_free_law:
  assumes wf: "rm_wf rm" and w: "w \<noteq> NO_OWNER"
  shows "modac_rm_get_owner (modac_rm_free_owner rm w) v =
    (if modac_rm_get_owner rm v = Inr w then Inl EACCES else modac_rm_get_owner rm v)"
proof -
  have cong: "res_slot (modac_rm_free_owner rm w) v = res_slot rm v"
    by (rule res_slot_cong) (simp add: modac_rm_free_owner_def)
  show ?thesis
  proof (cases "res_slot rm v")
    case None
    then show ?thesis by (simp add: get_owner_slot [OF wf] get_owner_slot [OF free_owner_wf [OF wf]] cong)
  next
    case (Some i)
    then have "i < length (rm_res_states rm)" by (simp add: res_slot_desc [OF wf])
    with Some w show ?thesis
      by (simp add: get_owner_slot [OF wf] get_owner_slot [OF free_owner_wf [OF wf]] cong)
        (simp add: modac_rm_free_owner_def)
  qed
qed

interpretation rmi: resource_manager rm_wf modac_rm_get_owner modac_rm_alloc modac_rm_free_owner
proof unfold_locales
  show "rm_wf m \<Longrightarrow> w \<noteq> NO_OWNER \<Longrightarrow> modac_rm_alloc m s w nm fx af = (r, d, m') \<Longrightarrow>
      rm_wf m' \<and> (case r of Inl e \<Rightarrow> d = None \<and> m' = m
        | Inr i \<Rightarrow> 0 \<le> i \<and> (\<exists>v. d = Some v \<and> modac_rm_get_owner m v = Inl EACCES \<and>
            modac_rm_get_owner m' = (modac_rm_get_owner m)(v := Inr w)))"
    for m :: "'a modac_rm_data" and w s nm fx af r d m'
    by (rule modac_rm_alloc_law)
qed (simp add: free_owner_wf modac_rm_free_law)

section \<open>Histories\<close>

text \<open>
  The calls the MNG_DEV makes, and who owns what according to their results alone: a map from
  resources to owners in which a successful allocation enters its resource and freeing an
  owner drops all of that owner's.
\<close>

datatype 's rm_call = Rm_Alloc 's int "u8 list" int "int list" | Rm_Free int

definition rm_step :: "'s rm_call \<Rightarrow> 's modac_rm_data \<times> (modac_rm_vres_desc \<rightharpoonup> int) \<Rightarrow>
    's modac_rm_data \<times> (modac_rm_vres_desc \<rightharpoonup> int)" where
  "rm_step c st = (case st of (rm, A) \<Rightarrow> (case c of
     Rm_Alloc s w nm fx af \<Rightarrow> (case modac_rm_alloc rm s w nm fx af of (r, d, rm') \<Rightarrow>
        (rm', case d of Some v \<Rightarrow> A(v \<mapsto> w) | None \<Rightarrow> A))
   | Rm_Free w \<Rightarrow> (modac_rm_free_owner rm w, \<lambda>v. if A v = Some w then None else A v)))"

definition call_owner :: "'s rm_call \<Rightarrow> int" where
  "call_owner c = (case c of Rm_Alloc s w nm fx af \<Rightarrow> w | Rm_Free w \<Rightarrow> w)"

definition rm_agrees :: "'s modac_rm_data \<times> (modac_rm_vres_desc \<rightharpoonup> int) \<Rightarrow> bool" where
  "rm_agrees st \<longleftrightarrow> rm_wf (fst st) \<and> (\<forall>v w. modac_rm_get_owner (fst st) v = Inr w \<longleftrightarrow> snd st v = Some w)"

lemma rm_agrees_step:
  assumes "rm_agrees st" and "call_owner c \<noteq> NO_OWNER"
  shows "rm_agrees (rm_step c st)"
proof -
  obtain rm A where st: "st = (rm, A)" by (cases st)
  have wf: "rm_wf rm" and A: "\<And>v w. modac_rm_get_owner rm v = Inr w \<longleftrightarrow> A v = Some w"
    using assms(1) by (simp_all add: st rm_agrees_def)
  show ?thesis
  proof (cases c)
    case (Rm_Alloc s w nm fx af)
    obtain r d rm' where a: "modac_rm_alloc rm s w nm fx af = (r, d, rm')"
      by (cases "modac_rm_alloc rm s w nm fx af") auto
    from assms(2) Rm_Alloc have "w \<noteq> NO_OWNER" by (simp add: call_owner_def)
    from rmi.alloc_law [OF wf this a] A show ?thesis
      by (cases r) (auto simp: st Rm_Alloc rm_step_def a rm_agrees_def)
  next
    case (Rm_Free w)
    with assms(2) have "w \<noteq> NO_OWNER" by (simp add: call_owner_def)
    with rmi.free_law [OF wf] A show ?thesis
      by (auto simp: st Rm_Free rm_step_def rm_agrees_def)
  qed
qed

lemma rm_agrees_history:
  "\<forall>c\<in>set cs. call_owner c \<noteq> NO_OWNER \<Longrightarrow> rm_agrees st \<Longrightarrow> rm_agrees (fold rm_step cs st)"
  by (induction cs arbitrary: st) (simp_all add: rm_agrees_step)

lemma rm_agrees_init:
  assumes "modac_rm_init ok defs = Inr rm"
  shows "rm_agrees (rm, Map.empty)"
proof -
  from modac_rm_init_wf [OF assms]
  have wf: "rm_wf rm" and free: "\<forall>r\<in>set (rm_res_states rm). rs_owner r = NO_OWNER" by auto
  from free have "modac_rm_get_owner rm v \<noteq> Inr w" for v w
    by (auto simp: get_owner_slot [OF wf] res_slot_desc [OF wf] split: option.splits)
  with wf show ?thesis by (simp add: rm_agrees_def)
qed

section \<open>Properties\<close>

text \<open>
  C8: The owner that the manager reports for a resource is, after any history of allocations and
  releases, exactly the one the results of those calls imply: the caller of the last allocation that
  returned the resource, if that caller has not released its resources since. The table stays
  well-formed, and an allocation never returns a resource that someone owns.
\<close>
theorem rm_ownership_history:
  assumes "modac_rm_init ok defs = Inr rm0"
    and "\<forall>c\<in>set cs. call_owner c \<noteq> NO_OWNER"
    and "fold rm_step cs (rm0, Map.empty) = (rm, A)"
  shows "rm_wf rm \<and> (\<forall>v w. modac_rm_get_owner rm v = Inr w \<longleftrightarrow> A v = Some w)
    \<and> (\<forall>s w nm fx af v. w \<noteq> NO_OWNER \<longrightarrow> fst (snd (modac_rm_alloc rm s w nm fx af)) = Some v \<longrightarrow> A v = None)"
proof -
  have agrees: "rm_agrees (rm, A)"
    using rm_agrees_history [OF assms(2) rm_agrees_init [OF assms(1)]] by (simp add: assms(3))
  then have wf: "rm_wf rm" and A: "\<And>v w. modac_rm_get_owner rm v = Inr w \<longleftrightarrow> A v = Some w"
    by (simp_all add: rm_agrees_def)
  have "A v = None" if "w \<noteq> NO_OWNER" and v: "fst (snd (modac_rm_alloc rm s w nm fx af)) = Some v"
    for s w nm fx af v
  proof -
    obtain r d rm' where a: "modac_rm_alloc rm s w nm fx af = (r, d, rm')"
      by (cases "modac_rm_alloc rm s w nm fx af") auto
    from rmi.alloc_law [OF wf that(1) a] v a have "modac_rm_get_owner rm v = Inl EACCES"
      by (cases r) auto
    then show ?thesis using A [of v] by (cases "A v") auto
  qed
  with wf A show ?thesis by blast
qed

text \<open>A table of one resource type with two elements, for the witnesses.\<close>

definition two_pulsegens :: "unit modac_hw_res_def list" where
  "two_pulsegens = [\<lparr>rd_name = [112, 0], rd_type = 0, rd_count = 2, rd_flags = MODAC_RES_FLAG_EXCLUSIVE,
     rd_suits = (\<lambda>_ i _. 5 + i)\<rparr>]"

definition two_pulsegens_rm :: "unit modac_rm_data" where
  "two_pulsegens_rm = (case modac_rm_init (\<lambda>_. True) two_pulsegens of Inr rm \<Rightarrow> rm)"

lemmas two_pulsegens_simps = two_pulsegens_rm_def two_pulsegens_def modac_rm_init_def fill_resources_def
  modac_rm_alloc_def STRINGS_EQUAL_def cstr_def set_owner_def modac_rm_get_owner_def hw_res_def_count_def
  modac_rm_free_owner_def Let_def upt_rec

lemma two_pulsegens_init: "modac_rm_init (\<lambda>_. True) two_pulsegens = Inr two_pulsegens_rm"
  by (simp add: two_pulsegens_simps)

lemma rm_ownership_history_witness:
  "modac_rm_get_owner (fst (fold rm_step
     [Rm_Alloc () 3 [112, 0] (-1) [], Rm_Alloc () 4 [112, 0] (-1) [], Rm_Free 3]
     (two_pulsegens_rm, Map.empty))) \<lparr>vd_type = 0, vd_index = 0\<rparr> = Inr 4"
proof -
  let ?cs = "[Rm_Alloc () 3 [112, 0] (-1) [], Rm_Alloc () 4 [112, 0] (-1) [], Rm_Free 3]"
  obtain rm A where run: "fold rm_step ?cs (two_pulsegens_rm, Map.empty) = (rm, A)"
    by (cases "fold rm_step ?cs (two_pulsegens_rm, Map.empty)")
  have "A \<lparr>vd_type = 0, vd_index = 0\<rparr> = Some 4"
    using run by (simp add: rm_step_def two_pulsegens_simps) auto
  moreover have "\<forall>c\<in>set ?cs. call_owner c \<noteq> NO_OWNER" by (simp add: call_owner_def)
  ultimately show ?thesis unfolding run using rm_ownership_history [OF two_pulsegens_init _ run] by simp
qed

text \<open>
  C27: An allocation from the pool returns the free resource of the wanted name with the highest
  positive suitability, the first one of them in the table where several are equally suitable, and
  is refused with EACCES exactly when there is no suitable free one; the chosen slot goes to the caller.
\<close>
theorem rm_alloc_from_pool_best:
  "case modac_rm_alloc rm s w nm MODAC_RM_ALLOC_FROM_POOL af of
     (Inr i, d, rm') \<Rightarrow> best_of s nm af (rm_res_states rm) (nat i)
       \<and> d = Some (slot_desc (rm_res_states rm ! nat i)) \<and> rm' = set_owner rm (nat i) w
   | (Inl e, d, rm') \<Rightarrow> e = EACCES \<and> rm' = rm \<and> (\<forall>r\<in>set (rm_res_states rm). \<not> res_cand s nm af r)"
proof -
  have "best_so_far s nm af [] 0 (-1)" by (simp add: best_so_far_def)
  from rm_search_pool [OF this, of 0 "rm_res_states rm"]
  obtain m idx where best: "best_so_far s nm af (rm_res_states rm) m idx"
    and search: "rm_search s nm MODAC_RM_ALLOC_FROM_POOL af 0 (rm_res_states rm) 0 (-1)
      = (if idx \<ge> 0 then Inr idx else Inl EACCES)"
    by auto
  show ?thesis
  proof (cases "idx \<ge> 0")
    case True
    with best have b: "best_of s nm af (rm_res_states rm) (nat idx)" by (simp add: best_so_far_def)
    then have "nat idx < length (rm_res_states rm)" by (simp add: best_of_def)
    with b True search show ?thesis
      by (simp add: modac_rm_alloc_def Let_def slot_desc_def) (simp add: set_owner_def)
  next
    case False
    with best search show ?thesis by (simp add: modac_rm_alloc_def best_so_far_def)
  qed
qed

lemma rm_alloc_from_pool_best_witness:
  "best_of () [112, 0] [] (rm_res_states two_pulsegens_rm) 1"
  using rm_alloc_from_pool_best [where rm = two_pulsegens_rm and s = "()" and w = 4 and nm = "[112, 0]" and af = "[]"]
  by (simp add: two_pulsegens_simps)

text \<open>
  An allocation by a fixed index looks at the first slot of that name and index only: it takes
  the slot when it is free, is refused with EADDRINUSE when it is owned and with EACCES when there is
  none, and a refusal changes nothing.
\<close>
theorem rm_alloc_fixed_branches:
  assumes "fixed_inx \<noteq> MODAC_RM_ALLOC_FROM_POOL"
    and "slot = find (\<lambda>k. res_named nm (rm_res_states rm ! k) \<and> rs_array_index (rm_res_states rm ! k) = fixed_inx)
       [0..<length (rm_res_states rm)]"
  shows "modac_rm_alloc rm s w nm fixed_inx af = (case slot of
      None \<Rightarrow> (Inl EACCES, None, rm)
    | Some k \<Rightarrow> if rs_owner (rm_res_states rm ! k) \<noteq> NO_OWNER then (Inl EADDRINUSE, None, rm)
        else (Inr (int k), Some (slot_desc (rm_res_states rm ! k)), set_owner rm k w))"
proof (cases slot)
  case None
  with assms show ?thesis by (simp add: modac_rm_alloc_def rm_search_fixed)
next
  case (Some k)
  have "k < length (rm_res_states rm)"
    using assms(2) [symmetric] unfolding Some find_upt_Some by simp
  with Some assms show ?thesis
    by (simp add: modac_rm_alloc_def rm_search_fixed Let_def slot_desc_def) (simp add: set_owner_def)
qed

lemma rm_alloc_fixed_branches_witness:
  "fst (modac_rm_alloc two_pulsegens_rm () 7 [112] 1 []) = Inr 1
   \<and> fst (modac_rm_alloc (set_owner two_pulsegens_rm 1 3) () 7 [112] 1 []) = Inl EADDRINUSE
   \<and> fst (modac_rm_alloc two_pulsegens_rm () 7 [112] 2 []) = Inl EACCES"
  using rm_alloc_fixed_branches [of 1 "Some 1" "[112]" two_pulsegens_rm "()" 7 "[]"]
    rm_alloc_fixed_branches [of 1 "Some 1" "[112]" "set_owner two_pulsegens_rm 1 3" "()" 7 "[]"]
    rm_alloc_fixed_branches [of 2 None "[112]" two_pulsegens_rm "()" 7 "[]"]
  by (simp add: two_pulsegens_simps res_named_def)

text \<open>
  After \<open>modac_rm_init\<close> the table is a bijection between the resources that the definitions
  name (a type below the number of definitions, an index below its count) and the slots: every resource
  has a slot that describes it, every slot is the slot of the resource it describes, all are free,
  and the number of resources of each type is the one of its definition.
\<close>
theorem rm_init_layout:
  assumes "modac_rm_init ok defs = Inr rm"
  shows "(\<forall>i<length (rm_res_states rm). res_slot rm (slot_desc (rm_res_states rm ! i)) = Some i
        \<and> modac_rm_get_owner rm (slot_desc (rm_res_states rm ! i)) = Inl EACCES)
    \<and> (\<forall>t j. 0 \<le> t \<and> t < int (length defs) \<and> 0 \<le> j \<and> j < int (rd_count (defs ! nat t)) \<longrightarrow>
        (\<exists>i. res_slot rm \<lparr>vd_type = t, vd_index = j\<rparr> = Some i \<and>
           slot_desc (rm_res_states rm ! i) = \<lparr>vd_type = t, vd_index = j\<rparr>))
    \<and> (\<forall>t. modac_rm_get_res_count_for_type rm t =
        (if 0 \<le> t \<and> t < int (length defs) then Inr (int (rd_count (defs ! nat t))) else Inl EINVAL))"
proof -
  from modac_rm_init_wf [OF assms]
  have wf: "rm_wf rm" and free: "\<forall>r\<in>set (rm_res_states rm). rs_owner r = NO_OWNER" by auto
  have len: "length (rm_hw_res_defs rm) = length defs"
    and count: "\<And>t. t < length defs \<Longrightarrow> rd_count (rm_hw_res_defs rm ! t) = rd_count (defs ! t)"
    using assms by (auto simp: modac_rm_init_def count_resources_eq split: if_splits)
  have "res_slot rm \<lparr>vd_type = t, vd_index = j\<rparr> \<noteq> None"
    if "0 \<le> t" "t < int (length defs)" "0 \<le> j" "j < int (rd_count (defs ! nat t))" for t j
    using that count [of "nat t"] by (simp add: res_slot_def hw_res_def_count_def len nat_less_iff)
  moreover have "modac_rm_get_res_count_for_type rm t =
      (if 0 \<le> t \<and> t < int (length defs) then Inr (int (rd_count (defs ! nat t))) else Inl EINVAL)" for t
    using nth_type_data [OF wf, of t] count [of "nat t"]
    by (auto simp: modac_rm_get_res_count_for_type_def hw_res_def_count_def len nat_less_iff)
  moreover have "res_slot rm (slot_desc (rm_res_states rm ! i)) = Some i
      \<and> modac_rm_get_owner rm (slot_desc (rm_res_states rm ! i)) = Inl EACCES"
    if "i < length (rm_res_states rm)" for i
  proof -
    have "res_slot rm (slot_desc (rm_res_states rm ! i)) = Some i"
      using that by (simp add: res_slot_desc [OF wf])
    with free that show ?thesis by (simp add: get_owner_slot [OF wf])
  qed
  ultimately show ?thesis by (simp add: res_slot_desc [OF wf])
qed

lemma rm_init_layout_witness: "modac_rm_get_res_count_for_type two_pulsegens_rm 0 = Inr 2"
  using rm_init_layout [OF two_pulsegens_init] by (simp add: two_pulsegens_def)

end
