(* ===== verification/Devref.thy ===== *)
theory Devref
  imports Modac_Prelude "HOL-Library.Multiset"
begin

text \<open>
  The device reference (src/src/devref.h): a pointer that is also the validity flag, a reference
  count, a mutex and the list of the inodes whose open files hold the reference. Taking the mutex
  while it is held blocks, which is \<open>None\<close> here. The second half is the life cycle that
  the MNG_DEV and its files build on it: files open and close, the owner withdraws the device, and
  whoever drops the last reference disposes of the object.
\<close>

type_synonym inode = nat

record inod_ref =
  l_inod :: inode
  l_rcnt :: int

record 'p devref =
  ref_ptr :: "'p option"
  ref_cnt :: int
  ref_mtx :: bool
  ref_lhd :: "inod_ref list"

section \<open>Operations\<close>

definition devref_init :: "'p \<Rightarrow> 'p devref" where
  "devref_init p = \<lparr>ref_ptr = Some p, ref_cnt = 1, ref_mtx = False, ref_lhd = []\<rparr>"

definition devref_lock :: "'p devref \<Rightarrow> 'p devref option" where
  "devref_lock ref = (if ref_mtx ref then None else Some (ref\<lparr>ref_mtx := True\<rparr>))"

definition devref_unlock :: "'p devref \<Rightarrow> 'p devref" where
  "devref_unlock ref = ref\<lparr>ref_mtx := False\<rparr>"

text \<open>The search for a listed inode; its counter is incremented.\<close>

fun inod_inc :: "inode \<Rightarrow> inod_ref list \<Rightarrow> inod_ref list option" where
  "inod_inc i [] = None"
| "inod_inc i (e # l) = (if l_inod e = i then Some (e\<lparr>l_rcnt := l_rcnt e + 1\<rparr> # l)
     else map_option ((#) e) (inod_inc i l))"

text \<open>
  \<open>inod\<close> may be NULL; \<open>kmalloc_ok\<close> says whether an allocation succeeds. On success the
  reference stays locked.
\<close>

definition devref_get :: "'p devref \<Rightarrow> inode option \<Rightarrow> bool \<Rightarrow> (int res \<times> 'p devref) option" where
  "devref_get ref inod kmalloc_ok = (case devref_lock ref of None \<Rightarrow> None | Some ref \<Rightarrow>
     if ref_ptr ref = None then Some (Inl ENODEV, devref_unlock ref)
     else
       let ref = ref\<lparr>ref_cnt := ref_cnt ref + 1\<rparr> in
       case inod of
         None \<Rightarrow> Some (Inr 0, ref)
       | Some i \<Rightarrow>
          (case inod_inc i (ref_lhd ref) of
             Some l \<Rightarrow> Some (Inr 0, ref\<lparr>ref_lhd := l\<rparr>)
           | None \<Rightarrow>
              if \<not> kmalloc_ok then Some (Inl ENOMEM, devref_unlock (ref\<lparr>ref_cnt := ref_cnt ref - 1\<rparr>))
              else Some (Inr 0, ref\<lparr>ref_lhd := \<lparr>l_inod = i, l_rcnt = 1\<rparr> # ref_lhd ref\<rparr>)))"

text \<open>The search for a listed inode; its counter is decremented and the entry deleted at zero.\<close>

fun inod_dec :: "inode \<Rightarrow> inod_ref list \<Rightarrow> inod_ref list" where
  "inod_dec i [] = []"
| "inod_dec i (e # l) = (if l_inod e = i
     then (if l_rcnt e - 1 = 0 then l else e\<lparr>l_rcnt := l_rcnt e - 1\<rparr> # l)
     else e # inod_dec i l)"

text \<open>
  To be called with the mutex held, which is released. An inode that is not listed is reported
  to the kernel log only.
\<close>

definition devref_put :: "'p devref \<Rightarrow> inode option \<Rightarrow> int \<times> 'p devref" where
  "devref_put ref inod =
     (let rval = ref_cnt ref - 1;
          ref = ref\<lparr>ref_cnt := rval\<rparr>;
          ref = (case inod of None \<Rightarrow> ref | Some i \<Rightarrow> ref\<lparr>ref_lhd := inod_dec i (ref_lhd ref)\<rparr>)
      in (rval, devref_unlock ref))"

definition devref_invalidate :: "'p devref \<Rightarrow> 'p devref" where
  "devref_invalidate ref = ref\<lparr>ref_ptr := None\<rparr>"

text \<open>
  The iterator runs with the mutex released; the loop here is the one in which no other
  file is opened or closed in between.
\<close>

definition devref_forall_inodes :: "'p devref \<Rightarrow> (inode \<Rightarrow> 's \<Rightarrow> 's) \<Rightarrow> 's \<Rightarrow> 's" where
  "devref_forall_inodes ref inod_iterator s = fold (\<lambda>l s. inod_iterator (l_inod l) s) (ref_lhd ref) s"

section \<open>The holders of a reference\<close>

fun rcnt_of :: "inode \<Rightarrow> inod_ref list \<Rightarrow> int" where
  "rcnt_of i [] = 0"
| "rcnt_of i (e # l) = (if l_inod e = i then l_rcnt e else rcnt_of i l)"

definition inods_ok :: "inod_ref list \<Rightarrow> bool" where
  "inods_ok l \<longleftrightarrow> distinct (map l_inod l) \<and> (\<forall>e\<in>set l. 0 < l_rcnt e)"

text \<open>
  The reference represents a multiset of holders: its files by their inodes, and its owner,
  who holds it without an inode.
\<close>

definition held_by :: "'p devref \<Rightarrow> inode option multiset \<Rightarrow> bool" where
  "held_by ref H \<longleftrightarrow> ref_cnt ref = int (size H) \<and> inods_ok (ref_lhd ref)
     \<and> (\<forall>i. rcnt_of i (ref_lhd ref) = int (count H (Some i)))"

lemma rcnt_of_notin: "i \<notin> l_inod ` set l \<Longrightarrow> rcnt_of i l = 0"
  by (induction l) auto

lemma rcnt_of_pos: "inods_ok l \<Longrightarrow> 0 < rcnt_of i l \<longleftrightarrow> i \<in> l_inod ` set l"
  by (induction l) (auto simp: inods_ok_def)

lemma inod_inc_None: "inod_inc i l = None \<longleftrightarrow> i \<notin> l_inod ` set l"
  by (induction l) auto

lemma inod_inc_Some:
  "inod_inc i l = Some l' \<Longrightarrow> map l_inod l' = map l_inod l
   \<and> rcnt_of j l' = rcnt_of j l + (if j = i then 1 else 0)
   \<and> ((\<forall>e\<in>set l. 0 < l_rcnt e) \<longrightarrow> (\<forall>e\<in>set l'. 0 < l_rcnt e))"
  by (induction l arbitrary: l') (auto split: if_splits)

lemma inods_inod_dec: "l_inod ` set (inod_dec i l) \<subseteq> l_inod ` set l"
  by (induction l) auto

lemma inod_dec_ok: "inods_ok l \<Longrightarrow> inods_ok (inod_dec i l)"
proof (induction l)
  case (Cons e l)
  then have "inods_ok (inod_dec i l)" by (simp add: inods_ok_def)
  with Cons.prems inods_inod_dec [of i l] show ?case
    by (auto simp: inods_ok_def)
qed (simp add: inods_ok_def)

lemma rcnt_inod_dec:
  "inods_ok l \<Longrightarrow> 0 < rcnt_of i l \<Longrightarrow> rcnt_of j (inod_dec i l) = rcnt_of j l - (if j = i then 1 else 0)"
  by (induction l) (auto simp: inods_ok_def rcnt_of_notin)

lemma held_by_init: "held_by (devref_init p) {#None#}"
  by (simp add: held_by_def devref_init_def inods_ok_def)

text \<open>What \<open>devref_get\<close> does when it does not block.\<close>

lemma devref_get_held:
  assumes "held_by ref H" and "devref_get ref inod ok = Some (r, ref')"
  shows "\<not> ref_mtx ref \<and> ref_ptr ref' = ref_ptr ref \<and>
    (case r of Inr v \<Rightarrow> v = 0 \<and> ref_ptr ref \<noteq> None \<and> ref_mtx ref' \<and> held_by ref' (add_mset inod H)
     | Inl e \<Rightarrow> (e = ENODEV \<and> ref_ptr ref = None \<or> e = ENOMEM \<and> \<not> ok \<and> inod \<noteq> None) \<and> ref' = ref)"
proof (cases "ref_mtx ref \<or> ref_ptr ref = None \<or> inod = None")
  case True
  with assms show ?thesis
    by (cases ref) (auto simp: devref_get_def devref_lock_def devref_unlock_def held_by_def Let_def split: if_splits)
next
  case False
  then obtain i p where i: "inod = Some i" and p: "ref_ptr ref = Some p" and m: "\<not> ref_mtx ref" by auto
  show ?thesis
  proof (cases "inod_inc i (ref_lhd ref)")
    case None
    then have notin: "i \<notin> l_inod ` set (ref_lhd ref)" by (simp add: inod_inc_None)
    then have "count H (Some i) = 0"
      using assms(1) rcnt_of_notin [OF notin] by (simp add: held_by_def)
    with notin assms i p m None show ?thesis
      by (cases ref) (auto simp: devref_get_def devref_lock_def devref_unlock_def held_by_def inods_ok_def
          rcnt_of_notin Let_def split: if_splits)
  next
    case (Some l)
    with assms i p m inod_inc_Some [OF Some] show ?thesis
      by (auto simp: devref_get_def devref_lock_def held_by_def inods_ok_def Let_def)
  qed
qed

lemma devref_put_held:
  assumes "held_by ref H" and "h \<in># H"
  shows "held_by (snd (devref_put ref h)) (H - {#h#}) \<and> \<not> ref_mtx (snd (devref_put ref h))
    \<and> ref_ptr (snd (devref_put ref h)) = ref_ptr ref
    \<and> fst (devref_put ref h) = int (size (H - {#h#}))"
proof -
  have sz: "int (size H) - 1 = int (size (H - {#h#}))"
    using assms(2) by (metis diff_add_cancel of_nat_1 of_nat_add add_diff_cancel_right' size_single
        insert_DiffM2 size_union)
  show ?thesis
  proof (cases h)
    case None
    with assms sz show ?thesis by (auto simp: held_by_def devref_put_def devref_unlock_def Let_def)
  next
    case (Some i)
    then have pos: "0 < rcnt_of i (ref_lhd ref)" and "1 \<le> count H (Some i)"
      using assms by (auto simp: held_by_def Suc_le_eq)
    with assms sz Some show ?thesis
      by (auto simp: held_by_def devref_put_def devref_unlock_def Let_def inod_dec_ok rcnt_inod_dec of_nat_diff)
  qed
qed

section \<open>The interface\<close>

text \<open>
  What the drivers rely on: a reference counts its holders, getting adds a holder or fails and
  changes nothing, putting removes one and returns how many are left.
\<close>

locale counted_ref =
  fixes rep :: "'r \<Rightarrow> 'h multiset \<Rightarrow> bool"
    and gone :: "'r \<Rightarrow> bool"
    and acquire :: "'r \<Rightarrow> 'h \<Rightarrow> bool \<Rightarrow> (int res \<times> 'r) option"
    and put :: "'r \<Rightarrow> 'h \<Rightarrow> int \<times> 'r"
    and withdraw :: "'r \<Rightarrow> 'r"
  assumes acquire_law: "rep r H \<Longrightarrow> acquire r h ok = Some (res, r') \<Longrightarrow>
      (case res of Inr v \<Rightarrow> v = 0 \<and> \<not> gone r \<and> \<not> gone r' \<and> rep r' (add_mset h H) | Inl e \<Rightarrow> r' = r)"
    and put_law: "rep r H \<Longrightarrow> h \<in># H \<Longrightarrow>
      rep (snd (put r h)) (H - {#h#}) \<and> (gone (snd (put r h)) \<longleftrightarrow> gone r) \<and> fst (put r h) = int (size (H - {#h#}))"
    and withdraw_law: "rep r H \<Longrightarrow> rep (withdraw r) H \<and> gone (withdraw r)"
begin

lemma put_last: "rep r H \<Longrightarrow> h \<in># H \<Longrightarrow> fst (put r h) = 0 \<longleftrightarrow> H = {#h#}"
  using put_law [of r H h] by (auto simp: size_eq_0_iff_empty dest!: multi_member_split)

lemma put_nonneg: "rep r H \<Longrightarrow> h \<in># H \<Longrightarrow> 0 \<le> fst (put r h)"
  using put_law [of r H h] by simp

lemma acquire_gone: "rep r H \<Longrightarrow> gone r \<Longrightarrow> acquire r h ok = Some (res, r') \<Longrightarrow> \<exists>e. res = Inl e \<and> r' = r"
  using acquire_law [of r H h ok res r'] by (cases res) auto

end

interpretation dvr: counted_ref held_by "\<lambda>r. ref_ptr r = None" devref_get devref_put devref_invalidate
proof unfold_locales
  fix r :: "'a devref" and H h ok res r'
  assume "held_by r H" and "devref_get r h ok = Some (res, r')"
  from devref_get_held [OF this]
  show "case res of Inr v \<Rightarrow> v = 0 \<and> ref_ptr r \<noteq> None \<and> ref_ptr r' \<noteq> None \<and> held_by r' (add_mset h H)
      | Inl e \<Rightarrow> r' = r"
    by (cases res) auto
next
  fix r :: "'a devref" and H h
  assume "held_by r H" and "h \<in># H"
  from devref_put_held [OF this]
  show "held_by (snd (devref_put r h)) (H - {#h#}) \<and> (ref_ptr (snd (devref_put r h)) = None \<longleftrightarrow> ref_ptr r = None)
      \<and> fst (devref_put r h) = int (size (H - {#h#}))"
    by simp
qed (simp add: held_by_def devref_invalidate_def)

section \<open>The life cycle of a referenced device\<close>

text \<open>
  The steps of the users of a reference. A device is listed in a table while files may open it;
  the owner's removal unlists it, invalidates the reference and drops the owner's hold. Each step
  is one critical section under the mutex of the reference; \<open>dr_holders\<close> is a ghost that
  records who got the reference and has not put it yet, \<open>dr_disposed\<close> counts how often the
  object was disposed of.
\<close>

record 'p dr_sys =
  dr_ref :: "'p devref"
  dr_listed :: bool
  dr_holders :: "inode option multiset"
  dr_disposed :: nat

definition dr_start :: "'p \<Rightarrow> 'p dr_sys" where
  "dr_start p = \<lparr>dr_ref = devref_init p, dr_listed = True, dr_holders = {#None#}, dr_disposed = 0\<rparr>"

text \<open>\<open>devref_put\<close>, and the disposal when it returns 0.\<close>

definition dr_drop :: "'p dr_sys \<Rightarrow> 'p devref \<Rightarrow> inode option \<Rightarrow> 'p dr_sys" where
  "dr_drop s ref h = (case devref_put ref h of (n, ref') \<Rightarrow>
     s\<lparr>dr_ref := ref', dr_holders := dr_holders s - {#h#},
       dr_disposed := (if n = 0 then dr_disposed s + 1 else dr_disposed s)\<rparr>)"

inductive dr_step :: "'p dr_sys \<Rightarrow> 'p dr_sys \<Rightarrow> bool" where
  open_ok: "dr_listed s \<Longrightarrow> devref_get (dr_ref s) (Some i) ok = Some (Inr 0, ref') \<Longrightarrow>
    dr_step s (s\<lparr>dr_ref := devref_unlock ref', dr_holders := add_mset (Some i) (dr_holders s)\<rparr>)"
| open_fails: "dr_listed s \<Longrightarrow> devref_get (dr_ref s) (Some i) ok = Some (Inl e, ref') \<Longrightarrow>
    dr_step s (s\<lparr>dr_ref := ref'\<rparr>)"
| close: "Some i \<in># dr_holders s \<Longrightarrow> devref_lock (dr_ref s) = Some ref \<Longrightarrow>
    dr_step s (dr_drop s ref (Some i))"
| remove: "dr_listed s \<Longrightarrow> devref_lock (dr_ref s) = Some ref \<Longrightarrow>
    dr_step s (dr_drop (s\<lparr>dr_listed := False\<rparr>) (devref_invalidate ref) None)"

inductive_cases dr_stepE: "dr_step s s'"

abbreviation dr_reachable :: "'p \<Rightarrow> 'p dr_sys \<Rightarrow> bool" where
  "dr_reachable p s \<equiv> dr_step\<^sup>*\<^sup>* (dr_start p) s"

definition dr_ok :: "'p dr_sys \<Rightarrow> bool" where
  "dr_ok s \<longleftrightarrow> held_by (dr_ref s) (dr_holders s) \<and> \<not> ref_mtx (dr_ref s)
    \<and> (dr_listed s \<longleftrightarrow> None \<in># dr_holders s) \<and> (dr_listed s \<longleftrightarrow> ref_ptr (dr_ref s) \<noteq> None)
    \<and> count (dr_holders s) None \<le> 1
    \<and> dr_disposed s = (if dr_holders s = {#} then 1 else 0)"

lemma held_by_flags [simp]:
  "held_by (devref_unlock ref) H \<longleftrightarrow> held_by ref H"
  "held_by (ref\<lparr>ref_mtx := b\<rparr>) H \<longleftrightarrow> held_by ref H"
  "held_by (devref_invalidate ref) H \<longleftrightarrow> held_by ref H"
  by (simp_all add: held_by_def devref_unlock_def devref_invalidate_def)

lemma devref_lock_Some: "devref_lock ref = Some ref' \<Longrightarrow> \<not> ref_mtx ref \<and> ref' = ref\<lparr>ref_mtx := True\<rparr>"
  by (simp add: devref_lock_def split: if_splits)

lemma dr_drop_ok:
  assumes "held_by ref (dr_holders s)" and "h \<in># dr_holders s" and "dr_disposed s = 0"
  shows "held_by (dr_ref (dr_drop s ref h)) (dr_holders s - {#h#})
    \<and> \<not> ref_mtx (dr_ref (dr_drop s ref h)) \<and> ref_ptr (dr_ref (dr_drop s ref h)) = ref_ptr ref
    \<and> dr_holders (dr_drop s ref h) = dr_holders s - {#h#} \<and> dr_listed (dr_drop s ref h) = dr_listed s
    \<and> dr_disposed (dr_drop s ref h) = (if dr_holders s - {#h#} = {#} then 1 else 0)"
  using devref_put_held [OF assms(1,2)] assms(3)
  by (auto simp: dr_drop_def split_beta)

lemma owner_stays [simp]: "None \<in># H - {#Some i#} \<longleftrightarrow> None \<in># H"
  by (simp flip: count_greater_zero_iff)

lemma dr_ok_start: "dr_ok (dr_start p)"
  by (simp add: dr_ok_def dr_start_def held_by_init) (simp add: devref_init_def)

lemma dr_ok_step: "dr_step s s' \<Longrightarrow> dr_ok s \<Longrightarrow> dr_ok s'"
proof (induction rule: dr_step.induct)
  case (open_ok s i ok ref')
  then have "held_by (dr_ref s) (dr_holders s)" by (simp add: dr_ok_def)
  from devref_get_held [OF this open_ok(2)] open_ok show ?case
    by (auto simp: dr_ok_def) (simp_all add: devref_unlock_def)
next
  case (open_fails s i ok e ref')
  then have "held_by (dr_ref s) (dr_holders s)" by (simp add: dr_ok_def)
  from devref_get_held [OF this open_fails(2)] open_fails show ?case by (simp add: dr_ok_def)
next
  case (close i s ref)
  then have ref: "ref = (dr_ref s)\<lparr>ref_mtx := True\<rparr>" by (simp add: devref_lock_Some)
  have "dr_disposed s = 0" using close by (auto simp: dr_ok_def)
  from dr_drop_ok [of ref s "Some i", OF _ close(1) this] close(3) ref show ?case
    by (auto simp: dr_ok_def)
next
  case (remove s ref)
  then have ref: "ref = (dr_ref s)\<lparr>ref_mtx := True\<rparr>" by (simp add: devref_lock_Some)
  have *: "dr_disposed s = 0" "None \<in># dr_holders s" "count (dr_holders s) None = 1"
    using remove by (auto simp: dr_ok_def le_Suc_eq count_eq_zero_iff split: if_splits)
  from dr_drop_ok [of "devref_invalidate ref" "s\<lparr>dr_listed := False\<rparr>" None] * remove(3) ref show ?case
    by (auto simp: dr_ok_def not_in_iff) (simp_all add: devref_invalidate_def)
qed

lemma dr_ok_reachable: "dr_reachable p s \<Longrightarrow> dr_ok s"
  by (induction rule: rtranclp_induct) (auto intro: dr_ok_start dr_ok_step)

section \<open>Property\<close>

text \<open>
  C23: In every reachable state the reference count is the number of holders (the owner until the
  removal, and each open file), each listed inode counts its open files, the pointer is valid exactly
  until the removal, and the object has been disposed of exactly when nobody holds it: once by the last
  holder, never before, and after that no step can touch it.
\<close>
theorem devref_disposed_by_last_holder:
  assumes "dr_reachable p s"
  shows "ref_cnt (dr_ref s) = int (size (dr_holders s))
    \<and> (\<forall>i. rcnt_of i (ref_lhd (dr_ref s)) = int (count (dr_holders s) (Some i)))
    \<and> (ref_ptr (dr_ref s) \<noteq> None \<longleftrightarrow> None \<in># dr_holders s)
    \<and> dr_disposed s = (if dr_holders s = {#} then 1 else 0)
    \<and> (dr_disposed s = 1 \<longrightarrow> (\<nexists>s'. dr_step s s'))"
proof -
  have ok: "dr_ok s" using assms by (rule dr_ok_reachable)
  then have "dr_disposed s = 1 \<longrightarrow> (\<nexists>s'. dr_step s s')"
    by (auto simp: dr_ok_def elim!: dr_stepE split: if_splits)
  with ok show ?thesis by (auto simp: dr_ok_def held_by_def)
qed

text \<open>A run: a file opens, the device is removed under it, the file closes.\<close>

definition dr_run :: "nat \<Rightarrow> unit dr_sys" where
  "dr_run n = (let s0 = dr_start (); r1 = snd (the (devref_get (dr_ref s0) (Some 5) True));
      s1 = s0\<lparr>dr_ref := devref_unlock r1, dr_holders := add_mset (Some 5) (dr_holders s0)\<rparr>;
      s2 = dr_drop (s1\<lparr>dr_listed := False\<rparr>) (devref_invalidate (the (devref_lock (dr_ref s1)))) None;
      s3 = dr_drop s2 (the (devref_lock (dr_ref s2))) (Some 5)
    in [s0, s1, s2, s3] ! n)"

lemmas dr_run_simps = dr_run_def Let_def dr_start_def devref_init_def devref_get_def devref_lock_def
  devref_unlock_def devref_invalidate_def devref_put_def dr_drop_def

lemma dr_run_reachable: "dr_reachable () (dr_run 3)"
proof -
  have "dr_step (dr_run 0) (dr_run 1)"
    using dr_step.open_ok [of "dr_run 0" 5 True "snd (the (devref_get (dr_ref (dr_run 0)) (Some 5) True))"]
    by (simp add: dr_run_simps)
  moreover have "dr_step (dr_run 1) (dr_run 2)"
    using dr_step.remove [of "dr_run 1" "the (devref_lock (dr_ref (dr_run 1)))"]
    by (simp add: dr_run_simps)
  moreover have "dr_step (dr_run 2) (dr_run 3)"
    using dr_step.close [of 5 "dr_run 2" "the (devref_lock (dr_ref (dr_run 2)))"]
    by (simp add: dr_run_simps)
  moreover have "dr_start () = dr_run 0" by (simp add: dr_run_def)
  ultimately show ?thesis by (simp add: rtranclp.rtrancl_into_rtrancl)
qed

lemma devref_disposed_by_last_holder_witness:
  "ref_cnt (dr_ref (dr_run 3)) = 0 \<and> dr_disposed (dr_run 3) = 1 \<and> (\<nexists>s'. dr_step (dr_run 3) s')"
proof -
  have "dr_holders (dr_run 3) = {#}" by (simp add: dr_run_simps)
  with devref_disposed_by_last_holder [OF dr_run_reachable] show ?thesis by simp
qed

end
