(* ===== verification/Packet_Queue.thy ===== *)
theory Packet_Queue
  imports Modac_Prelude
begin

text \<open>
  The packet queue of a VIRT_DEV (src/src/packet-queue.c, packet-queue.h): a ring of 1024
  slots with a head that the interrupt side advances and a tail that the reader advances.
  The model keeps the ring, the two indices as \<open>unsigned long\<close> words and the overflow flag;
  the memory barriers order the accesses of two processors and are no-ops here, where each
  operation is one step (\<open>Queue_Concurrent\<close> has the accesses of a write and a read as the steps). \<open>packets\<close> is the
  abstract content, the packets from tail to head; the interface \<open>packet_fifo\<close> at the end says what
  the clients rely on, and the ring is shown to provide it.
\<close>

section \<open>State\<close>

abbreviation (input) CBUF_EVENT_COUNT :: ulong where
  "CBUF_EVENT_COUNT \<equiv> 1024"

abbreviation (input) CBUF_EVENT_ENTRY_DATA_LENGTH :: nat where
  "CBUF_EVENT_ENTRY_DATA_LENGTH \<equiv> 12"

abbreviation (input) MODAC_EVENT_READ_OVERFLOW :: u16 where
  "MODAC_EVENT_READ_OVERFLOW \<equiv> 0x8000"

record modac_circ_buf_entry =
  cbe_event :: u16
  cbe_length :: u16
  cbe_data :: "u8 list"

record modac_circ_buf =
  cb_head :: ulong
  cb_tail :: ulong
  cb_overflow_written :: bool
  cb_buf :: "nat \<Rightarrow> modac_circ_buf_entry"

text \<open>The macros of \<open>linux/circ_buf.h\<close>.\<close>

definition CIRC_CNT :: "ulong \<Rightarrow> ulong \<Rightarrow> ulong \<Rightarrow> ulong" where
  "CIRC_CNT head tail sz = (head - tail) AND (sz - 1)"

definition CIRC_SPACE :: "ulong \<Rightarrow> ulong \<Rightarrow> ulong \<Rightarrow> ulong" where
  "CIRC_SPACE head tail sz = CIRC_CNT tail (head + 1) sz"

section \<open>Operations\<close>

text \<open>The slots of the ring keep what the allocation left in them.\<close>

definition modac_cb_init :: "modac_circ_buf \<Rightarrow> modac_circ_buf" where
  "modac_cb_init cb = cb\<lparr>cb_head := 0, cb_tail := 0, cb_overflow_written := False\<rparr>"

text \<open>
  \<open>data\<close> are the bytes behind the caller's pointer, \<open>len\<close> the length it passes; every caller
  passes the size of an object. The wait queue is the number of wake-ups it was sent.
\<close>

definition modac_cb_put ::
  "modac_circ_buf \<Rightarrow> int \<Rightarrow> u8 list \<Rightarrow> nat \<Rightarrow> nat \<Rightarrow> int res \<times> modac_circ_buf \<times> nat" where
  "modac_cb_put cb event data len wait_queue_events =
     (let head = cb_head cb; tail = cb_tail cb in
      if len > CBUF_EVENT_ENTRY_DATA_LENGTH then (Inl ENOMEM, cb, wait_queue_events)
      else
        let space = CIRC_SPACE head tail CBUF_EVENT_COUNT in
        if space \<ge> 1 then
          let slot = cb_buf cb (unat head);
              cb1 = (if space > 1 then
                       cb\<lparr>cb_buf := (cb_buf cb)(unat head :=
                            slot\<lparr>cbe_event := word_of_int event, cbe_length := of_nat len,
                                 cbe_data := memcpy (cbe_data slot) data len\<rparr>),
                          cb_overflow_written := False\<rparr>
                     else if \<not> cb_overflow_written cb then
                       cb\<lparr>cb_buf := (cb_buf cb)(unat head :=
                            slot\<lparr>cbe_event := MODAC_EVENT_READ_OVERFLOW, cbe_length := 0\<rparr>),
                          cb_overflow_written := True\<rparr>
                     else cb)
          in (Inr 0, cb1\<lparr>cb_head := (head + 1) AND (CBUF_EVENT_COUNT - 1)\<rparr>,
              wait_queue_events + 1)
        else (Inl ENOMEM, cb, wait_queue_events))"

text \<open>
  The result, the bytes stored in the caller's buffer and the queue. Where the length field
  exceeds the 12 data bytes of a slot the code copies what follows them in memory; the result
  then exceeds 14, and the bytes here stop at the slot's end.
\<close>

definition modac_cb_get :: "modac_circ_buf \<Rightarrow> int \<times> u8 list \<times> modac_circ_buf" where
  "modac_cb_get cb =
     (let head = cb_head cb; tail = cb_tail cb in
      if CIRC_CNT head tail CBUF_EVENT_COUNT > 0 then
        let entry = cb_buf cb (unat tail)
        in (2 + int (unat (cbe_length entry)),
            le16_bytes (cbe_event entry) @ take (unat (cbe_length entry)) (cbe_data entry),
            cb\<lparr>cb_tail := (tail + 1) AND (CBUF_EVENT_COUNT - 1)\<rparr>)
      else (0, [], cb))"

definition modac_cb_available :: "modac_circ_buf \<Rightarrow> bool" where
  "modac_cb_available cb = (CIRC_CNT (cb_head cb) (cb_tail cb) CBUF_EVENT_COUNT > 0)"

section \<open>Ring arithmetic\<close>

lemma and_1023: "w AND (1023::ulong) = take_bit 10 w"
proof -
  have "(1023::ulong) = mask 10" by (simp add: mask_eq_exp_minus_1)
  then show ?thesis by (simp only: take_bit_eq_mask)
qed

lemma uint_and_1023: "uint (w AND (1023::ulong)) = uint w mod 1024"
  unfolding and_1023 by (simp only: unsigned_take_bit_eq) (simp add: take_bit_eq_mod)

lemma unat_and_1023: "unat (w AND (1023::ulong)) = unat w mod 1024"
  unfolding and_1023 by (simp only: unsigned_take_bit_eq) (simp add: take_bit_eq_mod)

text \<open>The number of occupied slots.\<close>

definition cb_count :: "modac_circ_buf \<Rightarrow> nat" where
  "cb_count cb = unat (CIRC_CNT (cb_head cb) (cb_tail cb) CBUF_EVENT_COUNT)"

definition cb_wf :: "modac_circ_buf \<Rightarrow> bool" where
  "cb_wf cb \<longleftrightarrow> unat (cb_head cb) < 1024 \<and> unat (cb_tail cb) < 1024
    \<and> (\<forall>n. length (cbe_data (cb_buf cb n)) = CBUF_EVENT_ENTRY_DATA_LENGTH)"

lemma uint_CIRC_CNT: "uint (CIRC_CNT h t 1024) = (uint h - uint t) mod 1024"
  by (simp add: CIRC_CNT_def uint_and_1023 uint_word_ariths mod_mod_cancel)

lemma ring_space: "(t - h - 1) mod 1024 = 1023 - (h - t) mod (1024::int)"
proof -
  define q r where "q = (h - t) div 1024" and "r = (h - t) mod 1024"
  have "h - t = 1024 * q + r" and "0 \<le> r" "r < 1024"
    by (simp_all add: q_def r_def)
  then have "t - h - 1 = 1023 - r + 1024 * (- q - 1)" by simp
  then have "(t - h - 1) mod 1024 = (1023 - r) mod 1024" by (simp only: mod_mult_self2)
  with \<open>0 \<le> r\<close> \<open>r < 1024\<close> show ?thesis by (simp add: r_def)
qed

lemma uint_CIRC_SPACE: "uint (CIRC_SPACE h t 1024) = (uint t - uint h - 1) mod 1024"
proof -
  have "(uint h + 1) mod 2 ^ 64 mod 1024 = (uint h + 1) mod (1024::int)"
    by (rule mod_mod_cancel) simp
  then have "(uint t - (uint h + 1) mod 2 ^ 64) mod 1024 = (uint t - (uint h + 1)) mod 1024"
    by (metis mod_diff_right_eq)
  then show ?thesis
    by (simp add: CIRC_SPACE_def uint_CIRC_CNT uint_word_ariths diff_diff_eq)
qed

lemma cb_count_eq: "int (cb_count cb) = (uint (cb_head cb) - uint (cb_tail cb)) mod 1024"
  by (simp add: cb_count_def uint_CIRC_CNT flip: uint_nat)

lemma cb_count_less: "cb_count cb < 1024"
proof -
  have "int (cb_count cb) < 1024" by (simp add: cb_count_eq)
  then show ?thesis by simp
qed

lemma unat_CIRC_SPACE: "unat (CIRC_SPACE (cb_head cb) (cb_tail cb) 1024) = 1023 - cb_count cb"
proof -
  have "uint (CIRC_SPACE (cb_head cb) (cb_tail cb) 1024) = 1023 - int (cb_count cb)"
    by (simp only: uint_CIRC_SPACE cb_count_eq ring_space)
  then show ?thesis using cb_count_less [of cb] by (simp add: unat_eq_nat_uint nat_diff_distrib)
qed

lemma CIRC_CNT_pos: "CIRC_CNT (cb_head cb) (cb_tail cb) 1024 > 0 \<longleftrightarrow> cb_count cb > 0"
  by (simp add: cb_count_def word_less_nat_alt)

lemma CIRC_SPACE_ge_1: "1 \<le> CIRC_SPACE (cb_head cb) (cb_tail cb) 1024 \<longleftrightarrow> cb_count cb < 1023"
  by (auto simp: word_le_nat_alt unat_CIRC_SPACE)

lemma CIRC_SPACE_gt_1: "1 < CIRC_SPACE (cb_head cb) (cb_tail cb) 1024 \<longleftrightarrow> cb_count cb < 1022"
  by (auto simp: word_less_nat_alt unat_CIRC_SPACE)

lemma ring_count:
  assumes "h < 1024" "t < 1024"
  shows "nat ((int h - int t) mod 1024) = (if t \<le> h then h - t else h + 1024 - t)"
proof (cases "t \<le> h")
  case True
  with assms show ?thesis by (simp flip: of_nat_diff)
next
  case False
  then have "(int h - int t) mod 1024 = (int h - int t + 1024) mod 1024" by simp
  also have "\<dots> = int h - int t + 1024"
    using False assms by (intro mod_pos_pos_trivial) auto
  finally show ?thesis using False by simp
qed

lemma cb_count_nat:
  assumes "cb_wf cb"
  shows "cb_count cb = (if unat (cb_tail cb) \<le> unat (cb_head cb)
    then unat (cb_head cb) - unat (cb_tail cb)
    else unat (cb_head cb) + 1024 - unat (cb_tail cb))"
proof -
  have "cb_count cb = nat ((int (unat (cb_head cb)) - int (unat (cb_tail cb))) mod 1024)"
    using cb_count_eq [of cb] by simp
  with assms show ?thesis by (simp only: cb_wf_def ring_count)
qed

lemma head_slot:
  assumes "cb_wf cb"
  shows "unat (cb_head cb) = (unat (cb_tail cb) + cb_count cb) mod 1024"
  using assms by (auto simp: cb_count_nat cb_wf_def)

lemma unat_succ_1023: "unat w < 1024 \<Longrightarrow> unat ((w + 1) AND (1023::ulong)) = (unat w + 1) mod 1024"
  by (simp add: unat_and_1023 unat_word_ariths)

section \<open>The content of the ring\<close>

type_synonym packet = "u16 \<times> u8 list"

definition packet_of :: "modac_circ_buf_entry \<Rightarrow> packet" where
  "packet_of e = (cbe_event e, take (unat (cbe_length e)) (cbe_data e))"

definition packet_bytes :: "packet \<Rightarrow> u8 list" where
  "packet_bytes p = le16_bytes (fst p) @ snd p"

definition cb_slot :: "modac_circ_buf \<Rightarrow> nat \<Rightarrow> modac_circ_buf_entry" where
  "cb_slot cb i = cb_buf cb ((unat (cb_tail cb) + i) mod 1024)"

definition packets :: "modac_circ_buf \<Rightarrow> packet list" where
  "packets cb = map (\<lambda>i. packet_of (cb_slot cb i)) [0..<cb_count cb]"

text \<open>The length fields of the occupied slots are those of 12-byte packets.\<close>

definition cb_sound :: "modac_circ_buf \<Rightarrow> bool" where
  "cb_sound cb \<longleftrightarrow> (\<forall>i<cb_count cb. unat (cbe_length (cb_slot cb i)) \<le> CBUF_EVENT_ENTRY_DATA_LENGTH)"

definition cb_invar :: "modac_circ_buf \<Rightarrow> bool" where
  "cb_invar cb \<longleftrightarrow> cb_wf cb \<and> cb_sound cb"

lemma length_packets [simp]: "length (packets cb) = cb_count cb"
  by (simp add: packets_def)

lemma cb_count_init [simp]: "cb_count (modac_cb_init cb) = 0"
  by (simp add: cb_count_def modac_cb_init_def CIRC_CNT_def)

lemma packets_init [simp]: "packets (modac_cb_init cb) = []"
  by (simp add: packets_def)

lemma cb_invar_init:
  "(\<And>n. length (cbe_data (cb_buf cb n)) = CBUF_EVENT_ENTRY_DATA_LENGTH) \<Longrightarrow> cb_invar (modac_cb_init cb)"
  by (simp add: cb_invar_def cb_sound_def cb_wf_def) (simp add: modac_cb_init_def)

text \<open>Publishing the head slot with content \<open>e\<close>.\<close>

definition cb_push :: "modac_circ_buf \<Rightarrow> modac_circ_buf_entry \<Rightarrow> bool \<Rightarrow> modac_circ_buf" where
  "cb_push cb e ow = cb\<lparr>cb_buf := (cb_buf cb)(unat (cb_head cb) := e), cb_overflow_written := ow,
     cb_head := (cb_head cb + 1) AND (CBUF_EVENT_COUNT - 1)\<rparr>"

definition cb_head_slot :: "modac_circ_buf \<Rightarrow> modac_circ_buf_entry" where
  "cb_head_slot cb = cb_buf cb (unat (cb_head cb))"

lemma cb_push_sel:
  assumes wf: "cb_wf cb"
  shows "cb_tail (cb_push cb e ow) = cb_tail cb"
    "cb_overflow_written (cb_push cb e ow) = ow"
    "unat (cb_head (cb_push cb e ow)) = (unat (cb_head cb) + 1) mod 1024"
  using wf by (simp_all add: cb_push_def unat_succ_1023 cb_wf_def)

lemma cb_wf_push:
  assumes wf: "cb_wf cb" and e: "length (cbe_data e) = CBUF_EVENT_ENTRY_DATA_LENGTH"
  shows "cb_wf (cb_push cb e ow)"
  using wf e by (auto simp: cb_wf_def cb_push_sel) (simp_all add: cb_push_def unat_succ_1023)

lemma cb_count_push:
  assumes wf: "cb_wf cb" and room: "cb_count cb < 1023"
    and e: "length (cbe_data e) = CBUF_EVENT_ENTRY_DATA_LENGTH"
  shows "cb_count (cb_push cb e ow) = cb_count cb + 1"
  using wf room unfolding cb_count_nat [OF wf] cb_count_nat [OF cb_wf_push [OF wf e]]
  by (auto simp: cb_push_sel cb_wf_def mod_if)

lemma cb_slot_push:
  assumes wf: "cb_wf cb" and room: "cb_count cb < 1023"
  shows "i < cb_count cb \<Longrightarrow> cb_slot (cb_push cb e ow) i = cb_slot cb i"
    "cb_slot (cb_push cb e ow) (cb_count cb) = e"
  using wf room unfolding cb_slot_def cb_push_sel [OF wf] head_slot [OF wf]
  by (auto simp: cb_push_def head_slot [OF wf] cb_wf_def mod_if)

lemma packets_push:
  assumes wf: "cb_wf cb" and room: "cb_count cb < 1023"
    and e: "length (cbe_data e) = CBUF_EVENT_ENTRY_DATA_LENGTH"
  shows "packets (cb_push cb e ow) = packets cb @ [packet_of e]"
  by (simp add: packets_def cb_count_push [OF assms] cb_slot_push [OF wf room])

lemma cb_sound_push:
  assumes wf: "cb_wf cb" and room: "cb_count cb < 1023"
    and e: "length (cbe_data e) = CBUF_EVENT_ENTRY_DATA_LENGTH"
    and "unat (cbe_length e) \<le> CBUF_EVENT_ENTRY_DATA_LENGTH" and "cb_sound cb"
  shows "cb_sound (cb_push cb e ow)"
  using assms(4,5)
  by (auto simp: cb_sound_def cb_count_push [OF wf room e] less_Suc_eq cb_slot_push [OF wf room])

section \<open>What each operation does to the content\<close>

text \<open>The slot that a regular packet fills, and the one that the overflow event fills.\<close>

definition filled_slot :: "modac_circ_buf \<Rightarrow> int \<Rightarrow> u8 list \<Rightarrow> nat \<Rightarrow> modac_circ_buf_entry" where
  "filled_slot cb event data len = (cb_head_slot cb)\<lparr>cbe_event := word_of_int event,
     cbe_length := of_nat len, cbe_data := memcpy (cbe_data (cb_head_slot cb)) data len\<rparr>"

definition overflow_slot :: "modac_circ_buf \<Rightarrow> modac_circ_buf_entry" where
  "overflow_slot cb = (cb_head_slot cb)\<lparr>cbe_event := MODAC_EVENT_READ_OVERFLOW, cbe_length := 0\<rparr>"

definition pushed_slot :: "modac_circ_buf \<Rightarrow> int \<Rightarrow> u8 list \<Rightarrow> nat \<Rightarrow> modac_circ_buf_entry" where
  "pushed_slot cb event data len =
     (if cb_count cb < 1022 then filled_slot cb event data len
      else if \<not> cb_overflow_written cb then overflow_slot cb
      else cb_head_slot cb)"

lemma modac_cb_put_eq [modac_simps]:
  "modac_cb_put cb event data len wq =
     (if len > CBUF_EVENT_ENTRY_DATA_LENGTH \<or> cb_count cb = 1023 then (Inl ENOMEM, cb, wq)
      else (Inr 0, cb_push cb (pushed_slot cb event data len) (\<not> cb_count cb < 1022), wq + 1))"
proof -
  have "cb_count cb < 1023 \<longleftrightarrow> cb_count cb \<noteq> 1023" using cb_count_less [of cb] by arith
  then show ?thesis
    by (auto simp: modac_cb_put_def Let_def CIRC_SPACE_ge_1 CIRC_SPACE_gt_1 cb_push_def
        pushed_slot_def filled_slot_def overflow_slot_def cb_head_slot_def
        intro!: modac_circ_buf.equality)
qed

text \<open>Releasing the tail slot.\<close>

definition cb_pop :: "modac_circ_buf \<Rightarrow> modac_circ_buf" where
  "cb_pop cb = cb\<lparr>cb_tail := (cb_tail cb + 1) AND (CBUF_EVENT_COUNT - 1)\<rparr>"

lemma modac_cb_get_eq [modac_simps]:
  "modac_cb_get cb =
     (if cb_count cb = 0 then (0, [], cb)
      else (2 + int (unat (cbe_length (cb_slot cb 0))), packet_bytes (packet_of (cb_slot cb 0)),
            cb_pop cb))"
  if "cb_wf cb"
  using that
  by (auto simp: modac_cb_get_def Let_def CIRC_CNT_pos cb_slot_def packet_bytes_def packet_of_def
      cb_wf_def cb_pop_def)

lemma cb_pop_sel:
  assumes wf: "cb_wf cb"
  shows "cb_head (cb_pop cb) = cb_head cb" "cb_buf (cb_pop cb) = cb_buf cb"
    "cb_overflow_written (cb_pop cb) = cb_overflow_written cb"
    "unat (cb_tail (cb_pop cb)) = (unat (cb_tail cb) + 1) mod 1024"
  using wf by (simp_all add: cb_pop_def unat_succ_1023 cb_wf_def)

lemma cb_wf_pop: "cb_wf cb \<Longrightarrow> cb_wf (cb_pop cb)"
  by (simp add: cb_wf_def cb_pop_def unat_succ_1023)

lemma cb_count_pop:
  assumes wf: "cb_wf cb" and "cb_count cb \<noteq> 0"
  shows "cb_count (cb_pop cb) = cb_count cb - 1"
  using assms unfolding cb_count_nat [OF wf] cb_count_nat [OF cb_wf_pop [OF wf]]
  by (auto simp: cb_pop_sel [OF wf] cb_wf_def mod_if split: if_splits)

lemma cb_slot_pop: "cb_wf cb \<Longrightarrow> cb_slot (cb_pop cb) i = cb_slot cb (Suc i)"
  by (simp add: cb_slot_def cb_pop_sel mod_simps)

lemma packets_pop:
  assumes wf: "cb_wf cb" and "cb_count cb \<noteq> 0"
  shows "packets cb = packet_of (cb_slot cb 0) # packets (cb_pop cb)"
proof -
  have "[0..<cb_count cb] = 0 # map Suc [0..<cb_count cb - 1]"
    using assms(2) by (simp add: map_Suc_upt upt_conv_Cons)
  then show ?thesis
    by (simp add: packets_def cb_count_pop [OF assms] cb_slot_pop [OF wf])
qed

lemma cb_sound_pop: "cb_wf cb \<Longrightarrow> cb_count cb \<noteq> 0 \<Longrightarrow> cb_sound cb \<Longrightarrow> cb_sound (cb_pop cb)"
  by (simp add: cb_sound_def cb_count_pop cb_slot_pop)

section \<open>The interface of the queue\<close>

text \<open>
  A history of a queue: writes (an event and its data) and reads, in the order in which they
  happen. \<open>fifo_run\<close> gives the bytes that the reads returned and the queue at the end,
  \<open>fifo_accepted\<close> says that every write found room, \<open>fifo_written\<close> lists the packets written.
\<close>

datatype fifo_op = Fifo_put int "u8 list" | Fifo_get

primrec fifo_run ::
  "('q \<Rightarrow> int \<Rightarrow> u8 list \<Rightarrow> 'q) \<Rightarrow> ('q \<Rightarrow> int \<times> u8 list \<times> 'q) \<Rightarrow> fifo_op list \<Rightarrow> 'q \<Rightarrow> u8 list \<times> 'q" where
  "fifo_run put get [] q = ([], q)"
| "fifo_run put get (x # xs) q = (case x of
     Fifo_put e data \<Rightarrow> fifo_run put get xs (put q e data)
   | Fifo_get \<Rightarrow> (case get q of (_, bs, q1) \<Rightarrow>
       case fifo_run put get xs q1 of (bs', q2) \<Rightarrow> (bs @ bs', q2)))"

primrec fifo_accepted ::
  "('q \<Rightarrow> bool) \<Rightarrow> ('q \<Rightarrow> int \<Rightarrow> u8 list \<Rightarrow> 'q) \<Rightarrow> ('q \<Rightarrow> int \<times> u8 list \<times> 'q) \<Rightarrow> fifo_op list \<Rightarrow> 'q \<Rightarrow> bool"
where
  "fifo_accepted room put get [] q = True"
| "fifo_accepted room put get (x # xs) q = (case x of
     Fifo_put e data \<Rightarrow> room q \<and> length data \<le> CBUF_EVENT_ENTRY_DATA_LENGTH
       \<and> fifo_accepted room put get xs (put q e data)
   | Fifo_get \<Rightarrow> fifo_accepted room put get xs (snd (snd (get q))))"

primrec fifo_written :: "fifo_op list \<Rightarrow> packet list" where
  "fifo_written [] = []"
| "fifo_written (x # xs) = (case x of
     Fifo_put e data \<Rightarrow> (word_of_int e, data) # fifo_written xs
   | Fifo_get \<Rightarrow> fifo_written xs)"

text \<open>The bytes of a sequence of packets, as the reader gets them.\<close>

definition stream_bytes :: "packet list \<Rightarrow> u8 list" where
  "stream_bytes ps = concat (map packet_bytes ps)"

lemma stream_bytes_simps [simp]:
  "stream_bytes [] = []"
  "stream_bytes (p # ps) = packet_bytes p @ stream_bytes ps"
  "stream_bytes (ps @ qs) = stream_bytes ps @ stream_bytes qs"
  by (simp_all add: stream_bytes_def)

text \<open>
  What a reader relies on: a read takes the first packet and copies its bytes, an empty source
  returns nothing. A writer's queue is such a source to which packets are appended while there
  is room.
\<close>

locale packet_source =
  fixes invar :: "'q \<Rightarrow> bool"
    and content :: "'q \<Rightarrow> packet list"
    and get :: "'q \<Rightarrow> int \<times> u8 list \<times> 'q"
  assumes get_empty: "invar q \<Longrightarrow> content q = [] \<Longrightarrow> get q = (0, [], q)"
    and get_head: "invar q \<Longrightarrow> content q = p # ps \<Longrightarrow>
      \<exists>q'. get q = (int (length (packet_bytes p)), packet_bytes p, q') \<and> invar q' \<and> content q' = ps"
begin

lemma get_stream:
  assumes "invar q" and "get q = (r, bs, q')"
  shows "invar q' \<and> bs @ stream_bytes (content q') = stream_bytes (content q)"
proof (cases "content q")
  case Nil
  with assms get_empty show ?thesis by auto
next
  case (Cons p ps)
  from get_head [OF assms(1) this] assms(2) Cons show ?thesis by auto
qed

end

locale packet_fifo = packet_source +
  fixes room :: "'q \<Rightarrow> bool"
    and put :: "'q \<Rightarrow> int \<Rightarrow> u8 list \<Rightarrow> 'q"
  assumes put_room: "invar q \<Longrightarrow> room q \<Longrightarrow> length data \<le> CBUF_EVENT_ENTRY_DATA_LENGTH \<Longrightarrow>
      invar (put q e data) \<and> content (put q e data) = content q @ [(word_of_int e, data)]"
begin

lemma run_fifo:
  "invar q \<Longrightarrow> fifo_accepted room put get xs q \<Longrightarrow> fifo_run put get xs q = (bs, q') \<Longrightarrow>
   invar q' \<and> bs @ stream_bytes (content q') = stream_bytes (content q @ fifo_written xs)"
proof (induction xs arbitrary: q bs)
  case (Cons x xs)
  show ?case
  proof (cases x)
    case Fifo_get
    obtain r bs1 q1 where get: "get q = (r, bs1, q1)" by (cases "get q") auto
    with get_stream [OF Cons.prems(1) get] Cons.IH [of q1] Cons.prems Fifo_get
    show ?thesis by (auto split: prod.splits)
  next
    case (Fifo_put e data)
    with Cons.prems put_room [of q data e] Cons.IH [of "put q e data" bs]
    show ?thesis by auto
  qed
qed simp

end

section \<open>The ring provides the interface\<close>

definition cb_put :: "modac_circ_buf \<Rightarrow> int \<Rightarrow> u8 list \<Rightarrow> modac_circ_buf" where
  "cb_put cb event data = fst (snd (modac_cb_put cb event data (length data) 0))"

definition cb_room :: "modac_circ_buf \<Rightarrow> bool" where
  "cb_room cb \<longleftrightarrow> cb_count cb < 1022"

lemma cb_invar_length: "cb_wf cb \<Longrightarrow> length (cbe_data (cb_head_slot cb)) = CBUF_EVENT_ENTRY_DATA_LENGTH"
  by (simp add: cb_wf_def cb_head_slot_def)

lemma unat_len [simp]: "n \<le> CBUF_EVENT_ENTRY_DATA_LENGTH \<Longrightarrow> unat (of_nat n :: u16) = n"
  by (simp add: unat_of_nat)

lemma filled_slot_facts:
  assumes "cb_wf cb" and "len \<le> CBUF_EVENT_ENTRY_DATA_LENGTH" and "len \<le> length data"
  shows "length (cbe_data (filled_slot cb event data len)) = CBUF_EVENT_ENTRY_DATA_LENGTH"
    "unat (cbe_length (filled_slot cb event data len)) = len"
    "packet_of (filled_slot cb event data len) = (word_of_int event, take len data)"
  using assms by (simp_all add: filled_slot_def cb_invar_length packet_of_def)

lemma overflow_slot_facts:
  assumes "cb_wf cb"
  shows "length (cbe_data (overflow_slot cb)) = CBUF_EVENT_ENTRY_DATA_LENGTH"
    "unat (cbe_length (overflow_slot cb)) = 0"
    "packet_of (overflow_slot cb) = (MODAC_EVENT_READ_OVERFLOW, [])"
  using assms by (simp_all add: overflow_slot_def cb_invar_length packet_of_def)

interpretation cbq: packet_fifo cb_invar packets modac_cb_get cb_room cb_put
proof unfold_locales
  fix q e and data :: "u8 list"
  assume "cb_invar q" "cb_room q" "length data \<le> CBUF_EVENT_ENTRY_DATA_LENGTH"
  then show "cb_invar (cb_put q e data) \<and> packets (cb_put q e data) = packets q @ [(word_of_int e, data)]"
    by (auto simp: cb_invar_def cb_room_def cb_put_def modac_cb_put_eq pushed_slot_def
        filled_slot_facts cb_wf_push cb_sound_push packets_push)
next
  fix q :: modac_circ_buf
  assume "cb_invar q" "packets q = []"
  then show "modac_cb_get q = (0, [], q)"
    by (simp add: modac_cb_get_eq cb_invar_def flip: length_0_conv)
next
  fix q p ps
  assume q: "cb_invar q" and ps: "packets q = p # ps"
  then have wf: "cb_wf q" and c: "cb_count q \<noteq> 0" and sound: "cb_sound q"
    by (auto simp: cb_invar_def simp flip: length_packets)
  then have p: "p = packet_of (cb_slot q 0)" and "ps = packets (cb_pop q)"
    using ps packets_pop [OF wf c] by auto
  moreover have "unat (cbe_length (cb_slot q 0)) \<le> CBUF_EVENT_ENTRY_DATA_LENGTH"
    "length (cbe_data (cb_slot q 0)) = CBUF_EVENT_ENTRY_DATA_LENGTH"
    using sound c wf by (auto simp: cb_sound_def cb_wf_def cb_slot_def)
  ultimately show "\<exists>q'. modac_cb_get q = (int (length (packet_bytes p)), packet_bytes p, q')
      \<and> cb_invar q' \<and> packets q' = ps"
    using wf c sound
    by (simp add: modac_cb_get_eq cb_invar_def cb_wf_pop cb_sound_pop)
       (simp add: packet_bytes_def packet_of_def)
qed

section \<open>Properties\<close>

definition slots_allocated :: "modac_circ_buf \<Rightarrow> bool" where
  "slots_allocated cb \<longleftrightarrow> (\<forall>n. length (cbe_data (cb_buf cb n)) = CBUF_EVENT_ENTRY_DATA_LENGTH)"

text \<open>
  C24: Through any history of writes and reads on a freshly initialised queue in which every
  write finds at least two free slots, the bytes the reads return, followed by the bytes still
  queued, are exactly the bytes of the packets written, in order: nothing is lost, duplicated,
  reordered or torn, whatever the memory of the ring held before.
\<close>
theorem cb_history_is_fifo:
  assumes "slots_allocated cb"
    and "fifo_accepted cb_room cb_put modac_cb_get xs (modac_cb_init cb)"
    and "fifo_run cb_put modac_cb_get xs (modac_cb_init cb) = (bs, cb')"
  shows "bs @ stream_bytes (packets cb') = stream_bytes (fifo_written xs)"
  using cbq.run_fifo [OF cb_invar_init assms(2,3)] assms(1) by (simp add: slots_allocated_def)

definition blank_cb :: modac_circ_buf where
  "blank_cb = \<lparr>cb_head = 5, cb_tail = 3, cb_overflow_written = True,
     cb_buf = (\<lambda>_. \<lparr>cbe_event = 7, cbe_length = 9, cbe_data = replicate 12 1\<rparr>)\<rparr>"

lemma cb_history_is_fifo_witness:
  "fifo_accepted cb_room cb_put modac_cb_get [Fifo_put 1 [8, 9], Fifo_get, Fifo_get] (modac_cb_init blank_cb)
   \<and> fst (fifo_run cb_put modac_cb_get [Fifo_put 1 [8, 9], Fifo_get, Fifo_get] (modac_cb_init blank_cb))
       @ stream_bytes (packets (snd (fifo_run cb_put modac_cb_get
            [Fifo_put 1 [8, 9], Fifo_get, Fifo_get] (modac_cb_init blank_cb))))
     = stream_bytes [(1, [8, 9])]"
proof -
  have acc: "fifo_accepted cb_room cb_put modac_cb_get [Fifo_put 1 [8, 9], Fifo_get, Fifo_get]
      (modac_cb_init blank_cb)"
    by (simp add: cb_room_def)
  have "slots_allocated blank_cb" by (simp add: slots_allocated_def blank_cb_def)
  from cb_history_is_fifo [OF this acc] acc show ?thesis
    by (metis (no_types, lifting) prod.collapse fifo_written.simps fifo_op.simps word_of_int_1)
qed

text \<open>
  What a write does on every branch: data longer than a slot or a ring without a free slot is
  refused with \<open>-ENOMEM\<close>, changes nothing and wakes nobody; with two or more free slots the packet
  is appended; with exactly one free slot the packet is dropped and an overflow event without data
  is appended in its place, unless the previous accepted write already appended one. Every write
  that appends anything wakes the readers once.
\<close>
theorem modac_cb_put_branches:
  assumes "cb_wf cb" and "len \<le> length data"
    and "modac_cb_put cb event data len wq = (r, cb', wq')"
  shows "if len > CBUF_EVENT_ENTRY_DATA_LENGTH \<or> cb_count cb = 1023 then r = Inl ENOMEM \<and> cb' = cb \<and> wq' = wq
    else r = Inr 0 \<and> wq' = wq + 1 \<and> cb_wf cb' \<and> cb_count cb' = cb_count cb + 1 \<and>
      (if cb_count cb < 1022
       then packets cb' = packets cb @ [(word_of_int event, take len data)] \<and> \<not> cb_overflow_written cb'
       else cb_overflow_written cb' \<and>
         (\<not> cb_overflow_written cb \<longrightarrow> packets cb' = packets cb @ [(MODAC_EVENT_READ_OVERFLOW, [])]))"
proof -
  let ?e = "pushed_slot cb event data len" and ?ow = "\<not> cb_count cb < 1022"
  show ?thesis
  proof (cases "len > CBUF_EVENT_ENTRY_DATA_LENGTH \<or> cb_count cb = 1023")
    case True
    with assms(3) show ?thesis by (auto simp: modac_cb_put_eq)
  next
    case False
    then have room: "cb_count cb < 1023" and len: "len \<le> CBUF_EVENT_ENTRY_DATA_LENGTH"
      using cb_count_less [of cb] by auto
    have e: "length (cbe_data ?e) = CBUF_EVENT_ENTRY_DATA_LENGTH"
      using assms(1,2) len
      by (simp add: pushed_slot_def filled_slot_facts overflow_slot_facts cb_invar_length)
    have cb': "r = Inr 0" "wq' = wq + 1" "cb' = cb_push cb ?e ?ow"
      using assms(3) False by (auto simp: modac_cb_put_eq)
    show ?thesis
      using False assms(1,2) len
      by (simp add: cb' cb_wf_push [OF assms(1) e] cb_count_push [OF assms(1) room e]
          packets_push [OF assms(1) room e] cb_push_sel [OF assms(1)])
        (simp add: pushed_slot_def filled_slot_facts overflow_slot_facts)
  qed
qed

lemma modac_cb_put_branches_witness:
  "cb_wf (modac_cb_init blank_cb) \<and>
   packets (fst (snd (modac_cb_put (modac_cb_init blank_cb) 3 [1, 2] 2 0))) = [(3, [1, 2])]"
proof -
  have wf: "cb_wf (modac_cb_init blank_cb)"
    by (simp add: cb_wf_def modac_cb_init_def blank_cb_def)
  obtain r cb' wq' where put: "modac_cb_put (modac_cb_init blank_cb) 3 [1, 2] 2 0 = (r, cb', wq')"
    by (cases "modac_cb_put (modac_cb_init blank_cb) 3 [1, 2] 2 0") auto
  from modac_cb_put_branches [OF wf _ put] wf put show ?thesis by simp
qed

text \<open>The queue after \<open>n\<close> writes of the same packet to a fresh ring.\<close>

definition cb_flood :: "nat \<Rightarrow> int \<Rightarrow> u8 list \<Rightarrow> modac_circ_buf \<Rightarrow> modac_circ_buf" where
  "cb_flood n e data cb = ((\<lambda>q. cb_put q e data) ^^ n) (modac_cb_init cb)"

lemma cb_count_from_0: "cb_wf q \<Longrightarrow> cb_tail q = 0 \<Longrightarrow> cb_count q = unat (cb_head q)"
  by (simp add: cb_count_nat)

lemma cb_flood_state:
  assumes "slots_allocated cb" and "length data \<le> CBUF_EVENT_ENTRY_DATA_LENGTH"
  shows "n \<le> 1023 \<Longrightarrow> cb_wf (cb_flood n e data cb) \<and> unat (cb_head (cb_flood n e data cb)) = n
    \<and> cb_tail (cb_flood n e data cb) = 0 \<and> cb_overflow_written (cb_flood n e data cb) = (n = 1023)
    \<and> (\<forall>i\<ge>n. cb_buf (cb_flood n e data cb) i = cb_buf cb i)"
proof (induction n)
  case 0
  then show ?case
    using assms(1) by (simp add: cb_flood_def modac_cb_init_def cb_wf_def slots_allocated_def)
next
  case (Suc n)
  define q where "q = cb_flood n e data cb"
  have q: "cb_wf q" "unat (cb_head q) = n" "cb_tail q = 0" "\<not> cb_overflow_written q"
    "\<forall>i\<ge>n. cb_buf q i = cb_buf cb i" "cb_count q = n"
    using Suc by (auto simp: q_def cb_count_from_0)
  define s where "s = pushed_slot q e data (length data)"
  have s: "length (cbe_data s) = CBUF_EVENT_ENTRY_DATA_LENGTH"
    using q assms(2)
    by (simp add: s_def pushed_slot_def filled_slot_facts overflow_slot_facts)
  have step: "cb_flood (Suc n) e data cb = cb_push q s (\<not> n < 1022)"
    using q Suc.prems assms(2)
    by (simp add: cb_flood_def flip: q_def [unfolded cb_flood_def])
      (simp add: cb_put_def modac_cb_put_eq s_def)
  show ?case
    unfolding step using q Suc.prems cb_wf_push [OF q(1) s]
    by (auto simp: cb_push_sel [OF q(1)]) (simp add: cb_push_def)
qed

text \<open>
  The overflow flag does not keep the queue from publishing garbage. Fill a fresh queue until
  the overflow event is written, let the reader take one packet, write once more: the write reports
  success, wakes the readers and makes the last slot of the ring readable although nothing was ever
  stored in it; its content is whatever the allocator left there.
\<close>
theorem overflow_republishes_stale_slot:
  assumes "slots_allocated cb" and "length data \<le> CBUF_EVENT_ENTRY_DATA_LENGTH"
    and "modac_cb_get (cb_flood 1023 e data cb) = (r, bs, q)"
  shows "fst (modac_cb_put q e' data (length data) wq) = Inr 0 \<and>
    packets (fst (snd (modac_cb_put q e' data (length data) wq))) = packets q @ [packet_of (cb_buf cb 1023)]"
proof -
  define f where "f = cb_flood 1023 e data cb"
  have f: "cb_wf f" "unat (cb_head f) = 1023" "cb_tail f = 0" "cb_overflow_written f"
    "cb_buf f 1023 = cb_buf cb 1023"
    using cb_flood_state [OF assms(1,2), of 1023 e] by (simp_all add: f_def)
  have c: "cb_count f = 1023" using f by (simp add: cb_count_from_0)
  have q: "q = cb_pop f"
    using assms(3) c f(1) by (simp add: modac_cb_get_eq flip: f_def)
  have wf: "cb_wf q" and cq: "cb_count q = 1022"
    using f c by (simp_all add: q cb_wf_pop cb_count_pop)
  have slot: "cb_head_slot q = cb_buf cb 1023" and ow: "cb_overflow_written q"
    using f by (simp_all add: q cb_head_slot_def cb_pop_sel)
  have "packets (cb_push q (cb_head_slot q) True) = packets q @ [packet_of (cb_head_slot q)]"
    using cb_invar_length [OF wf] cq by (intro packets_push [OF wf]) simp_all
  then show ?thesis
    using assms(2) cq ow by (simp add: modac_cb_put_eq pushed_slot_def slot)
qed

lemma overflow_republishes_stale_slot_witness:
  "\<exists>q. packets (fst (snd (modac_cb_put q 2 [] 0 0))) = packets q @ [(7, replicate 9 1)]"
proof -
  have "slots_allocated blank_cb" by (simp add: slots_allocated_def blank_cb_def)
  obtain r bs q where get: "modac_cb_get (cb_flood 1023 1 [] blank_cb) = (r, bs, q)"
    by (cases "modac_cb_get (cb_flood 1023 1 [] blank_cb)") auto
  from overflow_republishes_stale_slot [OF \<open>slots_allocated blank_cb\<close> _ get, of 2 0]
  have "packets (fst (snd (modac_cb_put q 2 [] 0 0))) = packets q @ [packet_of (cb_buf blank_cb 1023)]"
    by simp
  moreover have "packet_of (cb_buf blank_cb 1023) = (7, replicate 9 1)"
    by (simp add: packet_of_def blank_cb_def)
  ultimately show ?thesis by auto
qed

end
