(* ===== verification/Virt_Dev.thy ===== *)
theory Virt_Dev
  imports Packet_Queue Hw_Support "HOL-Library.Signed_Division"
begin

text \<open>
  The VIRT_DEV without its file operations that go through the MNG_DEV (src/src/virt-dev.c,
  virt-dev.h): the two objects of a VIRT_DEV (its description, which the MNG_DEV allocates, and
  its private data), the table of all VIRT_DEVs by minor number, their creation and
  destruction, the delivery of events from the interrupt and the read loop. Objects from
  \<open>kmalloc\<close> live in partial maps from addresses; an allocation is given by its result, the fresh
  address with what the memory held before, or \<open>None\<close>.
\<close>

section \<open>State\<close>

abbreviation (input) MAX_VIRT_DEVS_PER_MNG_DEV :: int where "MAX_VIRT_DEVS_PER_MNG_DEV \<equiv> 31"
abbreviation (input) MINOR_MULTIPLICATOR :: int where "MINOR_MULTIPLICATOR \<equiv> 32"
abbreviation (input) MODAC_RES_PER_VIRT_DEV_MAX_COUNT :: int where
  "MODAC_RES_PER_VIRT_DEV_MAX_COUNT \<equiv> 32"

record res_type_data =
  res_alloc_count :: int
  res_alloc_index :: "int list"

text \<open>The pointer to the parent and the list item are in the state of the MNG_DEV.\<close>

record modac_vdev_des =
  vdd_id :: u8
  vdd_major :: int
  vdd_minor :: int
  vdd_name :: "u8 list"
  vdd_res_type_data :: "int \<Rightarrow> res_type_data"
  vdd_usage_counter :: int
  vdd_direct_access_active_count :: int
  vdd_direct_access_denied :: bool
  vdd_leave_res_set_on_last_close :: int
  vdd_priv :: "ptr option"

text \<open>\<open>wait_queue_events\<close> counts the wake-ups sent to it.\<close>

record vdev_data =
  vdev_devt :: "int \<times> int"
  vdev_des :: ptr
  notified_events :: event_list_type
  cb_events :: modac_circ_buf
  wait_queue_events :: nat

text \<open>
  What all the VIRT_DEVs share: the table by MNG_DEV and VIRT_DEV, the objects with the
  private data, and the names of the devices that exist in the class of the VIRT_DEVs.
\<close>

record vdev_system =
  vdev_mng_first_minor :: int
  vdev_table_size :: int
  vdev_table :: "int \<Rightarrow> int \<Rightarrow> ptr option"
  vdev_objs :: "ptr \<rightharpoonup> vdev_data"
  vdev_class :: "u8 list list"

section \<open>Minor numbers\<close>

text \<open>C's division truncates towards 0.\<close>

definition calc_table_indices :: "vdev_system \<Rightarrow> int \<Rightarrow> (int \<times> int) res" where
  "calc_table_indices vs minor =
     (if minor smod MINOR_MULTIPLICATOR = 0 then Inl ENODEV
      else
        let imngdev = (minor - vdev_mng_first_minor vs) sdiv MINOR_MULTIPLICATOR;
            ivdev = (minor - vdev_mng_first_minor vs) smod MINOR_MULTIPLICATOR - 1
        in if imngdev < 0 \<or> imngdev \<ge> vdev_table_size vs then Inl ENODEV
           else if ivdev < 0 \<or> ivdev \<ge> MAX_VIRT_DEVS_PER_MNG_DEV then Inl ENODEV
           else Inr (imngdev, ivdev))"

section \<open>Creation and destruction\<close>

text \<open>\<open>init_dev\<close> initializes the private data and the direct access of its description.\<close>

definition vdev_init_dev :: "vdev_data \<Rightarrow> vdev_data" where
  "vdev_init_dev v = v\<lparr>cb_events := modac_cb_init (cb_events v), wait_queue_events := 0,
     notified_events := event_list_clear (notified_events v)\<rparr>"

definition des_init_dev :: "modac_vdev_des \<Rightarrow> modac_vdev_des" where
  "des_init_dev d = d\<lparr>vdd_direct_access_denied := False, vdd_direct_access_active_count := 0\<rparr>"

definition dev_exists_for_vdev_class :: "vdev_system \<Rightarrow> u8 list \<Rightarrow> bool" where
  "dev_exists_for_vdev_class vs name \<longleftrightarrow> (\<exists>n\<in>set (vdev_class vs). STRINGS_EQUAL name n)"

text \<open>The cleanup of one VIRT_DEV: the device of the class (\<open>CLEAN_DEV\<close>) and the object.\<close>

definition vdev_cleanup :: "vdev_system \<Rightarrow> u8 list \<Rightarrow> ptr \<Rightarrow> bool \<Rightarrow> vdev_system" where
  "vdev_cleanup vs name q clean_dev =
     (let vs = (if clean_dev then vs\<lparr>vdev_class := remove1 (cstr name) (vdev_class vs)\<rparr> else vs)
      in vs\<lparr>vdev_objs := (vdev_objs vs)(q := None)\<rparr>)"

text \<open>
  \<open>p\<close> is the address of the description \<open>d\<close>; \<open>device_create\<close> succeeds or gives an error.
\<close>

definition modac_vdev_create :: "(ptr \<times> vdev_data) option \<Rightarrow> errno option \<Rightarrow>
    ptr \<Rightarrow> modac_vdev_des \<Rightarrow> vdev_system \<Rightarrow> int res \<times> modac_vdev_des \<times> vdev_system" where
  "modac_vdev_create kmalloc device_create p d vs =
     (case calc_table_indices vs (vdd_minor d) of
        Inl e \<Rightarrow> (Inl e, d, vs)
      | Inr (imngdev, ivdev) \<Rightarrow>
          let d = d\<lparr>vdd_priv := None\<rparr> in
          case kmalloc of
            None \<Rightarrow> (Inl ENOMEM, d, vs)
          | Some (q, raw) \<Rightarrow>
              let v = (vdev_init_dev (raw\<lparr>vdev_des := p\<rparr>))\<lparr>vdev_devt := (vdd_major d, vdd_minor d)\<rparr>;
                  d = des_init_dev d;
                  vs = vs\<lparr>vdev_objs := (vdev_objs vs)(q \<mapsto> v)\<rparr>
              in
              if dev_exists_for_vdev_class vs (vdd_name d)
              then (Inl EEXIST, d, vdev_cleanup vs (vdd_name d) q False)
              else case device_create of
                Some e \<Rightarrow> (Inl e, d, vdev_cleanup vs (vdd_name d) q False)
              | None \<Rightarrow>
                  let vs = vs\<lparr>vdev_class := cstr (vdd_name d) # vdev_class vs\<rparr> in
                  if vdev_table vs imngdev ivdev \<noteq> None
                  then (Inl EEXIST, d, vdev_cleanup vs (vdd_name d) q True)
                  else (Inr 0, d\<lparr>vdd_priv := Some q\<rparr>,
                        vs\<lparr>vdev_table := (vdev_table vs)(imngdev := (vdev_table vs imngdev)(ivdev := Some q))\<rparr>))"

definition modac_vdev_destroy :: "modac_vdev_des \<Rightarrow> vdev_system \<Rightarrow> vdev_system" where
  "modac_vdev_destroy d vs =
     (case calc_table_indices vs (vdd_minor d) of
        Inl e \<Rightarrow> vs
      | Inr (imngdev, ivdev) \<Rightarrow>
          vdev_cleanup
            (vs\<lparr>vdev_table := (vdev_table vs)(imngdev := (vdev_table vs imngdev)(ivdev := None))\<rparr>)
            (vdd_name d) (the (vdd_priv d)) True)"

text \<open>An index out of the table is a kernel \<open>BUG\<close>, here \<open>None\<close>.\<close>

definition modac_vdev_table_reset :: "int \<Rightarrow> vdev_system \<Rightarrow> vdev_system option" where
  "modac_vdev_table_reset mngdev_minor vs =
     (let imngdev = (mngdev_minor - vdev_mng_first_minor vs) sdiv MINOR_MULTIPLICATOR in
      if imngdev < 0 \<or> imngdev \<ge> vdev_table_size vs then None
      else Some (vs\<lparr>vdev_table := (vdev_table vs)(imngdev :=
           (\<lambda>i. if 0 \<le> i \<and> i < MAX_VIRT_DEVS_PER_MNG_DEV then None else vdev_table vs imngdev i))\<rparr>))"

section \<open>Events from the interrupt\<close>

definition modac_vdev_notify :: "vdev_data \<Rightarrow> int \<Rightarrow> vdev_data" where
  "modac_vdev_notify v event =
     v\<lparr>notified_events := event_list_add (notified_events v) event,
       wait_queue_events := wait_queue_events v + 1\<rparr>"

definition modac_vdev_put_cb :: "vdev_data \<Rightarrow> int \<Rightarrow> u8 list \<Rightarrow> nat \<Rightarrow> vdev_data" where
  "modac_vdev_put_cb v event data len =
     (case modac_cb_put (cb_events v) event data len (wait_queue_events v) of
        (r, cb, wq) \<Rightarrow> v\<lparr>cb_events := cb, wait_queue_events := wq\<rparr>)"

section \<open>Direct access\<close>

text \<open>
  The lock that keeps a VIRT_DEV from being destroyed under a call that may not sleep: the number of
  calls inside and the flag that refuses new ones.
\<close>

definition lock_direct_call :: "modac_vdev_des \<Rightarrow> bool \<times> modac_vdev_des" where
  "lock_direct_call d =
     (if vdd_direct_access_denied d then (False, d)
      else (True, d\<lparr>vdd_direct_access_active_count := vdd_direct_access_active_count d + 1\<rparr>))"

definition unlock_direct_call :: "modac_vdev_des \<Rightarrow> modac_vdev_des" where
  "unlock_direct_call d = d\<lparr>vdd_direct_access_active_count := vdd_direct_access_active_count d - 1\<rparr>"

section \<open>Reading\<close>

definition read_has_data :: "vdev_data \<Rightarrow> bool" where
  "read_has_data v = (if modac_cb_available (cb_events v) then True
     else \<not> event_list_is_empty (notified_events v))"

text \<open>The number of bytes, the bytes and the VIRT_DEV without them.\<close>

definition read_get :: "vdev_data \<Rightarrow> int \<times> u8 list \<times> vdev_data" where
  "read_get v =
     (let event = event_list_extract_one (notified_events v) in
      if event \<ge> 0
      then (2, le16_bytes (word_of_int event),
            v\<lparr>notified_events := event_list_remove (notified_events v) event\<rparr>)
      else case modac_cb_get (cb_events v) of (ret, bs, cb) \<Rightarrow> (ret, bs, v\<lparr>cb_events := cb\<rparr>))"

text \<open>
  How a sleep in \<open>wait_event_interruptible\<close> ends, by a signal or by a wake-up in a state in which \<open>read_has_data\<close> holds; both
  with the state of the VIRT_DEV that the other calls and the interrupts have left by then.
\<close>

datatype sleep = Signal modac_vdev_des vdev_data | Woken modac_vdev_des vdev_data

text \<open>The state of the read: the two objects and the user's buffer.\<close>

type_synonym read_state = "modac_vdev_des \<times> vdev_data \<times> umem"

abbreviation (input) READ_EVENT_MAX :: int where
  "READ_EVENT_MAX \<equiv> 2 + int CBUF_EVENT_ENTRY_DATA_LENGTH"

text \<open>
  The loop. \<open>ss\<close> says how the successive sleeps end; the result is \<open>None\<close> while the
  reader is still asleep after them. A read of \<open>n > 0\<close> bytes leaves less free space, so the loop
  ends. A sleeping reader holds no direct access; a signal ends the call without taking it again.
  The kernel limits the length of a read to the range of \<open>int\<close>; a packet longer than the local
  buffer of 14 bytes would overrun that buffer, and what the code does then is not modelled.
\<close>

function vdev_read_loop :: "bool \<Rightarrow> sleep list \<Rightarrow> int \<Rightarrow> int \<Rightarrow> read_state \<Rightarrow> (int res \<times> read_state) option" where
  "vdev_read_loop nonblock ss count_read buf_still_free (d, v, m) =
     (if buf_still_free < READ_EVENT_MAX then Some (Inr count_read, unlock_direct_call d, v, m)
      else case read_get v of (n, evbuf, v1) \<Rightarrow>
        if n \<le> 0 then
          (if count_read > 0 then Some (Inr count_read, unlock_direct_call d, v1, m)
           else if nonblock then Some (Inl EAGAIN, unlock_direct_call d, v1, m)
           else case ss of
             [] \<Rightarrow> None
           | Signal d2 v2 # ss1 \<Rightarrow> Some (Inl ERESTARTSYS, d2, v2, m)
           | Woken d2 v2 # ss1 \<Rightarrow>
               (case lock_direct_call d2 of (locked, d3) \<Rightarrow>
                  if \<not> locked then Some (Inl ENODEV, d3, v2, m)
                  else vdev_read_loop nonblock ss1 count_read buf_still_free (d3, v2, m)))
        else case copy_to_user m (nat count_read) evbuf of
               None \<Rightarrow> Some (Inl EFAULT, unlock_direct_call d, v1, m)
             | Some m1 \<Rightarrow> vdev_read_loop nonblock ss (count_read + n) (buf_still_free - n) (d, v1, m1))"
  by pat_completeness auto

termination
  by (relation "measures [\<lambda>(_, ss, _, _, _). length ss, \<lambda>(_, _, _, free, _). nat free]") auto

definition vdev_read :: "bool \<Rightarrow> sleep list \<Rightarrow> int \<Rightarrow> read_state \<Rightarrow> (int res \<times> read_state) option" where
  "vdev_read nonblock ss buf_len rs =
     (case rs of (d, v, m) \<Rightarrow> case lock_direct_call d of (locked, d1) \<Rightarrow>
        if \<not> locked then Some (Inl ENODEV, d1, v, m)
        else if buf_len < READ_EVENT_MAX then Some (Inl EINVAL, unlock_direct_call d1, v, m)
        else vdev_read_loop nonblock ss 0 buf_len (d1, v, m))"

abbreviation (input) POLLIN_POLLRDNORM :: int where "POLLIN_POLLRDNORM \<equiv> 0x41"

definition vdev_poll :: "modac_vdev_des \<Rightarrow> vdev_data \<Rightarrow> int res \<times> modac_vdev_des" where
  "vdev_poll d v =
     (case lock_direct_call d of (locked, d1) \<Rightarrow>
        if \<not> locked then (Inl ENODEV, d1)
        else (Inr (if read_has_data v then POLLIN_POLLRDNORM else 0), unlock_direct_call d1))"

declare vdev_read_loop.simps [simp del]

section \<open>What a reader gets\<close>

text \<open>The pending packets: the notified events in ascending order, then the queue.\<close>

definition mask_events :: "event_list_type \<Rightarrow> int list" where
  "mask_events m = filter (event_list_test m) (map int [0..<EVENT_LIST_TYPE_MAX_EVENTS])"

definition pending :: "vdev_data \<Rightarrow> packet list" where
  "pending v = map (\<lambda>e. (word_of_int e, [])) (mask_events (notified_events v)) @ packets (cb_events v)"

definition vdev_invar :: "vdev_data \<Rightarrow> bool" where
  "vdev_invar v \<longleftrightarrow> cb_invar (cb_events v)"

lemma filter_upt_least:
  assumes "P i" and "\<And>j. j < i \<Longrightarrow> \<not> P j" and "i < n"
  shows "filter P [0..<n] = i # filter (\<lambda>j. P j \<and> j \<noteq> i) [0..<n]"
proof -
  have split: "[0..<n] = [0..<i] @ i # [Suc i..<n]"
    using assms(3) upt_add_eq_append [of 0 i "n - i"] by (simp add: upt_conv_Cons)
  have none: "filter P [0..<i] = []" using assms(2) by (auto simp: filter_empty_conv)
  have rest: "filter (\<lambda>j. P j \<and> j \<noteq> i) [Suc i..<n] = filter P [Suc i..<n]"
    by (auto intro!: filter_cong)
  show ?thesis unfolding split using assms(1,2) none rest by (auto simp: filter_empty_conv)
qed

lemma mask_events_Nil: "event_list_extract_one m < 0 \<longleftrightarrow> mask_events m = []"
proof -
  have "\<not> event_list_test m e" if none: "\<forall>i<EVENT_LIST_TYPE_MAX_EVENTS. \<not> event_list_test m (int i)" for e
  proof
    assume e: "event_list_test m e"
    then have "0 \<le> e \<and> nat e < EVENT_LIST_TYPE_MAX_EVENTS" by (rule event_okD [OF event_list_test_ok])
    with none [rule_format, of "nat e"] e show False by simp
  qed
  then have "(\<forall>i<EVENT_LIST_TYPE_MAX_EVENTS. \<not> event_list_test m (int i)) \<longleftrightarrow> (\<forall>e. \<not> event_list_test m e)"
    by blast
  then have "mask_events m = [] \<longleftrightarrow> (\<forall>e. \<not> event_list_test m e)"
    by (simp add: mask_events_def filter_map comp_def filter_empty_conv atLeast0LessThan Ball_def)
  then show ?thesis unfolding event_list_extract_one_none event_list_is_empty_iff by simp
qed

lemma mask_events_Cons:
  assumes "event_list_extract_one m = e" and "0 \<le> e"
  shows "mask_events m = e # mask_events (event_list_remove m e)"
proof -
  from event_list_extract_one_some [OF assms] have e: "event_list_test m e" "\<forall>f<e. \<not> event_list_test m f" by auto
  then have n: "nat e < EVENT_LIST_TYPE_MAX_EVENTS" by (auto dest: event_list_test_ok event_okD)
  have "filter (\<lambda>i. event_list_test m (int i)) [0..<EVENT_LIST_TYPE_MAX_EVENTS]
      = nat e # filter (\<lambda>i. event_list_test m (int i) \<and> i \<noteq> nat e) [0..<EVENT_LIST_TYPE_MAX_EVENTS]"
    using e n assms(2) by (intro filter_upt_least) auto
  moreover have "(\<lambda>i. event_list_test m (int i) \<and> i \<noteq> nat e)
      = (\<lambda>i. event_list_test (event_list_remove m e) (int i))"
    using assms(2) by (auto simp: fun_eq_iff)
  ultimately show ?thesis using assms(2) unfolding mask_events_def filter_map comp_def by simp
qed

lemma length_packet_bytes: "length (packet_bytes p) = 2 + length (snd p)"
  by (simp add: packet_bytes_def)

interpretation vdr: packet_source vdev_invar pending read_get
proof unfold_locales
  fix v
  assume "vdev_invar v" "pending v = []"
  then show "read_get v = (0, [], v)"
    using cbq.get_empty [of "cb_events v"] mask_events_Nil [of "notified_events v"]
    by (simp add: read_get_def pending_def vdev_invar_def Let_def)
next
  fix v p ps
  assume v: "vdev_invar v" and p: "pending v = p # ps"
  let ?e = "event_list_extract_one (notified_events v)"
  show "\<exists>v1. read_get v = (int (length (packet_bytes p)), packet_bytes p, v1) \<and> vdev_invar v1 \<and> pending v1 = ps"
  proof (cases "0 \<le> ?e")
    case True
    with mask_events_Cons [OF refl True] p v show ?thesis
      by (simp add: read_get_def pending_def vdev_invar_def Let_def length_packet_bytes)
        (auto simp: packet_bytes_def)
  next
    case False
    then have "packets (cb_events v) = p # ps"
      using p mask_events_Nil [of "notified_events v"] by (simp add: pending_def)
    with cbq.get_head [of "cb_events v" p ps] v obtain cb1 where
      "modac_cb_get (cb_events v) = (int (length (packet_bytes p)), packet_bytes p, cb1)"
      "cb_invar cb1" "packets cb1 = ps" by (auto simp: vdev_invar_def)
    with False mask_events_Nil [of "notified_events v"] show ?thesis
      by (simp add: read_get_def pending_def vdev_invar_def Let_def)
  qed
qed

text \<open>The pending packets that one read returns: as long as a packet of full size still fits.\<close>

fun fitting :: "int \<Rightarrow> packet list \<Rightarrow> packet list" where
  "fitting free [] = []"
| "fitting free (p # ps) = (if free < READ_EVENT_MAX then []
     else p # fitting (free - int (length (packet_bytes p))) ps)"

definition writable :: "umem \<Rightarrow> int \<Rightarrow> int \<Rightarrow> bool" where
  "writable m from to \<longleftrightarrow> (\<forall>i. from \<le> int i \<and> int i < to \<longrightarrow> m i \<noteq> None)"

lemma copy_to_user_writable:
  assumes "writable m c (c + free)" and "0 \<le> c" and "int (length bs) \<le> free"
  obtains m1 where "copy_to_user m (nat c) bs = Some m1"
    and "writable m1 (c + int (length bs)) (c + free)"
    and "\<And>i. i < nat c \<Longrightarrow> m1 i = m i"
    and "\<And>i. nat c \<le> i \<Longrightarrow> i < nat c + length bs \<Longrightarrow> m1 i = Some (bs ! (i - nat c))"
    and "\<And>i. nat c + length bs \<le> i \<Longrightarrow> m1 i = m i"
proof -
  have "\<forall>i<length bs. m (nat c + i) \<noteq> None"
    using assms by (auto simp: writable_def)
  then obtain m1 where m1: "copy_to_user m (nat c) bs = Some m1" by (auto simp: copy_to_user_def)
  moreover have "writable m1 (c + int (length bs)) (c + free)"
    using assms m1 by (auto simp: writable_def copy_to_user_def split: if_splits)
  ultimately show ?thesis using that m1 by (auto simp: copy_to_user_def split: if_splits)
qed

lemma packet_bytes_max:
  assumes "vdev_invar v" and "pending v = p # ps"
  shows "2 \<le> length (packet_bytes p) \<and> int (length (packet_bytes p)) \<le> READ_EVENT_MAX"
proof -
  have "length (snd q) \<le> CBUF_EVENT_ENTRY_DATA_LENGTH" if "q \<in> set (packets (cb_events v))" for q
    using that assms(1) by (auto simp: packets_def packet_of_def vdev_invar_def cb_invar_def cb_sound_def)
  moreover have "p \<in> set (pending v)" by (simp add: assms(2))
  then have "snd p = [] \<or> p \<in> set (packets (cb_events v))" by (auto simp: pending_def)
  ultimately have "length (snd p) \<le> CBUF_EVENT_ENTRY_DATA_LENGTH" by (elim disjE) (simp, blast)
  then show ?thesis by (simp add: length_packet_bytes)
qed

definition read_into :: "umem \<Rightarrow> int \<Rightarrow> u8 list \<Rightarrow> umem" where
  "read_into m c bs = (\<lambda>i. if nat c \<le> i \<and> i < nat c + length bs then Some (bs ! (i - nat c)) else m i)"

lemma read_into_Nil [simp]: "read_into m c [] = m"
  by (auto simp: read_into_def fun_eq_iff)

lemma vdev_read_loop_delivers:
  "vdev_invar v \<Longrightarrow> pending v = ps \<Longrightarrow> writable m c (c + free) \<Longrightarrow> 0 \<le> c \<Longrightarrow>
   c > 0 \<or> (READ_EVENT_MAX \<le> free \<and> ps \<noteq> []) \<Longrightarrow>
   \<exists>v1. vdev_read_loop nonblock ss c free (d, v, m) =
      Some (Inr (c + int (length (stream_bytes (fitting free ps)))), unlock_direct_call d, v1,
            read_into m c (stream_bytes (fitting free ps)))
     \<and> vdev_invar v1 \<and> ps = fitting free ps @ pending v1"
proof (induction ps arbitrary: v m c free)
  case Nil
  from vdr.get_empty [OF Nil.prems(1,2)] Nil.prems show ?case
    by (auto simp: vdev_read_loop.simps [of nonblock ss c])
next
  case (Cons p ps)
  show ?case
  proof (cases "free < READ_EVENT_MAX")
    case True
    with Cons.prems show ?thesis
      by (auto simp: vdev_read_loop.simps [of nonblock ss c])
  next
    case False
    from vdr.get_head [OF Cons.prems(1,2)] obtain v1 where
      get: "read_get v = (int (length (packet_bytes p)), packet_bytes p, v1)"
      and v1: "vdev_invar v1" "pending v1 = ps" by auto
    note max = packet_bytes_max [OF Cons.prems(1,2)]
    let ?n = "int (length (packet_bytes p))"
    from copy_to_user_writable [OF Cons.prems(3,4), of "packet_bytes p"] max False
    obtain m1 where copy: "copy_to_user m (nat c) (packet_bytes p) = Some m1"
      and w: "writable m1 (c + ?n) (c + free)"
      and m1: "\<And>i. i < nat c \<Longrightarrow> m1 i = m i"
        "\<And>i. nat c \<le> i \<Longrightarrow> i < nat c + length (packet_bytes p) \<Longrightarrow> m1 i = Some (packet_bytes p ! (i - nat c))"
        "\<And>i. nat c + length (packet_bytes p) \<le> i \<Longrightarrow> m1 i = m i" by auto
    have step: "vdev_read_loop nonblock ss c free (d, v, m)
        = vdev_read_loop nonblock ss (c + ?n) (free - ?n) (d, v1, m1)"
    proof -
      have "\<not> ?n \<le> 0" using max by linarith
      with False get copy show ?thesis
        unfolding vdev_read_loop.simps [of nonblock ss c free d v m] by simp
    qed
    have into: "read_into m1 (c + ?n) bs = read_into m c (packet_bytes p @ bs)" for bs
      using m1 Cons.prems(4) by (auto simp: read_into_def fun_eq_iff nth_append nat_add_distrib)
    from w have w': "writable m1 (c + ?n) (c + ?n + (free - ?n))" by simp
    have pos: "0 \<le> c + ?n" "0 < c + ?n" using Cons.prems(4) max by auto
    from Cons.IH [OF v1 w' pos(1)] pos(2) obtain v2 where
      "vdev_read_loop nonblock ss (c + ?n) (free - ?n) (d, v1, m1) =
        Some (Inr (c + ?n + int (length (stream_bytes (fitting (free - ?n) ps)))), unlock_direct_call d, v2,
              read_into m1 (c + ?n) (stream_bytes (fitting (free - ?n) ps)))"
      "vdev_invar v2" "ps = fitting (free - ?n) ps @ pending v2" by blast
    with False show ?thesis unfolding step into by (auto simp: algebra_simps)
  qed
qed

text \<open>What a read does in the calls that need not sleep, and when there is nothing to read.\<close>

lemma direct_call_balanced: "\<not> vdd_direct_access_denied d \<Longrightarrow> unlock_direct_call (snd (lock_direct_call d)) = d"
  by (simp add: unlock_direct_call_def lock_direct_call_def)

lemma vdev_read_denied:
  "vdd_direct_access_denied d \<Longrightarrow> vdev_read nonblock ss n (d, v, m) = Some (Inl ENODEV, d, v, m)"
  by (simp add: vdev_read_def lock_direct_call_def)

section \<open>Properties\<close>

lemma vdev_read_run:
  assumes "\<not> vdd_direct_access_denied d" and "vdev_invar v" and "pending v \<noteq> []"
    and "READ_EVENT_MAX \<le> buf_len" and "writable m 0 buf_len"
  shows "\<exists>v1. vdev_read nonblock ss buf_len (d, v, m) =
      Some (Inr (int (length (stream_bytes (fitting buf_len (pending v))))), d, v1,
            read_into m 0 (stream_bytes (fitting buf_len (pending v))))
    \<and> vdev_invar v1 \<and> pending v = fitting buf_len (pending v) @ pending v1
    \<and> fitting buf_len (pending v) \<noteq> []"
proof -
  from vdev_read_loop_delivers [OF assms(2) refl, of m 0 buf_len nonblock ss "snd (lock_direct_call d)"] assms
  obtain v1 where "vdev_read_loop nonblock ss 0 buf_len (snd (lock_direct_call d), v, m) =
      Some (Inr (int (length (stream_bytes (fitting buf_len (pending v))))), d, v1,
            read_into m 0 (stream_bytes (fitting buf_len (pending v))))"
    "vdev_invar v1" "pending v = fitting buf_len (pending v) @ pending v1"
    by (auto simp: direct_call_balanced)
  moreover have "fitting buf_len (pending v) \<noteq> []"
    using assms(3,4) by (cases "pending v") simp_all
  ultimately show ?thesis
    using assms(1,4) by (auto simp: vdev_read_def lock_direct_call_def)
qed

text \<open>
  C25: A read with pending packets returns at once: it stores in the user's buffer the bytes of as many
  pending packets as leave room for a full one before each (the notified events in ascending
  order first, then the queue in its order), returns their number, removes exactly these packets
  and leaves the rest pending, writes nothing behind them and gives the direct access back.
\<close>
theorem vdev_read_delivers:
  assumes "\<not> vdd_direct_access_denied d" and "vdev_invar v" and "pending v \<noteq> []"
    and "READ_EVENT_MAX \<le> buf_len" and "writable m 0 buf_len"
  shows "\<exists>v1. vdev_read nonblock ss buf_len (d, v, m) =
      Some (Inr (int (length (stream_bytes (fitting buf_len (pending v))))), d, v1,
            read_into m 0 (stream_bytes (fitting buf_len (pending v))))
    \<and> vdev_invar v1 \<and> pending v = fitting buf_len (pending v) @ pending v1
    \<and> fitting buf_len (pending v) \<noteq> []"
  by (rule vdev_read_run [OF assms])

text \<open>A VIRT_DEV with two notified events and an empty queue, read into a buffer of 14 bytes.\<close>

definition des_ex :: modac_vdev_des where
  "des_ex = \<lparr>vdd_id = 1, vdd_major = 0, vdd_minor = 1, vdd_name = [118], vdd_res_type_data =
     (\<lambda>_. \<lparr>res_alloc_count = 0, res_alloc_index = []\<rparr>), vdd_usage_counter = 1,
     vdd_direct_access_active_count = 0, vdd_direct_access_denied = False,
     vdd_leave_res_set_on_last_close = 0, vdd_priv = Some 7\<rparr>"

definition vdev_ex :: vdev_data where
  "vdev_ex = \<lparr>vdev_devt = (0, 1), vdev_des = 5, notified_events = event_list_add (event_list_add 0 9) 4,
     cb_events = modac_cb_init blank_cb, wait_queue_events = 0\<rparr>"

lemma vdev_ex_invar: "vdev_invar vdev_ex"
  by (simp add: vdev_invar_def vdev_ex_def) (rule cb_invar_init, simp add: blank_cb_def)

lemma vdev_ex_pending: "pending vdev_ex = [(4, []), (9, [])]"
proof -
  have t0: "event_list_test 0 e = False" for e
    using event_list_test_simps(1) [of 0 e] by (simp add: event_list_clear_def)
  have "filter (\<lambda>i. i = 9 \<or> i = 4) [0..<EVENT_LIST_TYPE_MAX_EVENTS]
      = 4 # filter (\<lambda>i. (i = 9 \<or> i = 4) \<and> i \<noteq> 4) [0..<EVENT_LIST_TYPE_MAX_EVENTS]"
    by (rule filter_upt_least) auto
  also have "filter (\<lambda>i. (i = 9 \<or> i = 4) \<and> i \<noteq> 4) [0..<EVENT_LIST_TYPE_MAX_EVENTS]
      = 9 # filter (\<lambda>i. ((i = 9 \<or> i = 4) \<and> i \<noteq> 4) \<and> i \<noteq> 9) [0..<EVENT_LIST_TYPE_MAX_EVENTS]"
    by (rule filter_upt_least) auto
  also have "filter (\<lambda>i. ((i = 9 \<or> i = 4) \<and> i \<noteq> 4) \<and> i \<noteq> 9) [0..<EVENT_LIST_TYPE_MAX_EVENTS] = []"
    by (auto simp: filter_empty_conv)
  moreover have "(\<lambda>i. int i = 9 \<or> int i = 4) = (\<lambda>i. i = 9 \<or> i = 4)" by (auto simp: fun_eq_iff)
  ultimately have "mask_events (notified_events vdev_ex) = [4, 9]"
    by (simp add: mask_events_def vdev_ex_def t0 event_ok_def filter_map comp_def)
  then show ?thesis by (simp add: pending_def) (simp add: vdev_ex_def)
qed

lemma vdev_read_delivers_witness:
  "\<exists>v1. vdev_read False [] 14 (des_ex, vdev_ex, \<lambda>_. Some 0) =
     Some (Inr 2, des_ex, v1, read_into (\<lambda>_. Some 0) 0 (le16_bytes 4)) \<and> pending v1 = [(9, [])]"
proof -
  have "\<not> vdd_direct_access_denied des_ex" "pending vdev_ex \<noteq> []" "writable (\<lambda>_. Some 0) 0 14"
    by (simp_all add: des_ex_def vdev_ex_pending writable_def)
  from vdev_read_delivers [OF this(1) vdev_ex_invar this(2) _ this(3), of False "[]"]
  show ?thesis by (auto simp: vdev_ex_pending packet_bytes_def)
qed

text \<open>
  A read that finds nothing pending returns EAGAIN on a non-blocking file; otherwise it sleeps
  without holding the direct access, returns ERESTARTSYS when a signal ends the sleep, returns ENODEV
  when the device is being destroyed meanwhile, and else reads what the wake-up brought. In every case
  nothing was stored in the buffer before.
\<close>
theorem vdev_read_empty:
  assumes "\<not> vdd_direct_access_denied d" and "vdev_invar v" and "pending v = []"
    and "READ_EVENT_MAX \<le> buf_len"
  shows "vdev_read True ss buf_len (d, v, m) = Some (Inl EAGAIN, d, v, m)
    \<and> vdev_read False [] buf_len (d, v, m) = None
    \<and> vdev_read False (Signal d2 v2 # ss) buf_len (d, v, m) = Some (Inl ERESTARTSYS, d2, v2, m)
    \<and> vdev_read False (Woken d2 v2 # ss) buf_len (d, v, m) = vdev_read False ss buf_len (d2, v2, m)"
  using assms vdr.get_empty [OF assms(2,3)]
  by (simp add: vdev_read_def lock_direct_call_def vdev_read_loop.simps [of _ _ 0 buf_len]
      unlock_direct_call_def)

lemma vdev_read_empty_witness:
  "\<exists>v1. vdev_read False [Woken des_ex vdev_ex] 14 (des_ex, vdev_ex\<lparr>notified_events := 0\<rparr>, \<lambda>_. Some 0) =
     vdev_read False [] 14 (des_ex, vdev_ex, \<lambda>_. Some 0)"
proof -
  have "mask_events 0 = []"
    by (simp add: event_list_extract_one_none event_list_is_empty_def flip: mask_events_Nil)
  then have "pending (vdev_ex\<lparr>notified_events := 0\<rparr>) = []"
    by (simp add: pending_def) (simp add: vdev_ex_def)
  moreover have "vdev_invar (vdev_ex\<lparr>notified_events := 0\<rparr>)"
    using vdev_ex_invar by (simp add: vdev_invar_def)
  moreover have "\<not> vdd_direct_access_denied des_ex" by (simp add: des_ex_def)
  ultimately show ?thesis
    using vdev_read_empty [of des_ex "vdev_ex\<lparr>notified_events := 0\<rparr>" 14 "[]" "\<lambda>_. Some 0" des_ex vdev_ex]
    by simp
qed

text \<open>The outcome of a creation that got as far as the registration, and of one that did not.\<close>

lemma modac_vdev_create_cases:
  assumes fresh: "\<forall>q raw. kmalloc = Some (q, raw) \<longrightarrow> vdev_objs vs q = None"
    and create: "modac_vdev_create kmalloc device_create p d vs = (r, d1, vs1)"
  shows "(\<exists>e. r = Inl e \<and> vs1 = vs \<and> vdd_id d1 = vdd_id d) \<or>
    (\<exists>i j q raw. r = Inr 0 \<and> kmalloc = Some (q, raw) \<and> calc_table_indices vs (vdd_minor d) = Inr (i, j)
       \<and> vdev_table vs i j = None \<and> \<not> dev_exists_for_vdev_class vs (vdd_name d)
       \<and> d1 = des_init_dev (d\<lparr>vdd_priv := Some q\<rparr>)
       \<and> vs1 = vs\<lparr>vdev_objs := (vdev_objs vs)(q \<mapsto> (vdev_init_dev (raw\<lparr>vdev_des := p\<rparr>))\<lparr>vdev_devt := (vdd_major d, vdd_minor d)\<rparr>),
              vdev_class := cstr (vdd_name d) # vdev_class vs,
              vdev_table := (vdev_table vs)(i := (vdev_table vs i)(j := Some q))\<rparr>)"
proof (cases "calc_table_indices vs (vdd_minor d)")
  case (Inl e)
  with create show ?thesis by (auto simp: modac_vdev_create_def)
next
  case (Inr ij)
  obtain i j where ij: "ij = (i, j)" by (cases ij)
  show ?thesis
  proof (cases kmalloc)
    case None
    with create Inr ij show ?thesis by (auto simp: modac_vdev_create_def)
  next
    case (Some qr)
    obtain q raw where qr: "qr = (q, raw)" by (cases qr)
    with fresh Some have "(vdev_objs vs)(q := None) = vdev_objs vs" by (auto simp: fun_eq_iff)
    with create Inr ij Some qr show ?thesis
      by (cases device_create)
        (auto simp: modac_vdev_create_def Let_def vdev_cleanup_def des_init_dev_def
          dev_exists_for_vdev_class_def split: if_splits)
  qed
qed

text \<open>
  Creating a VIRT_DEV either fails and leaves the table, the objects and the class of devices as they
  were, or succeeds on an empty slot and an unused name and fills that slot with the new object; destroying
  the VIRT_DEV it made takes all of it back.
\<close>
theorem vdev_create_destroy:
  assumes "\<forall>q raw. kmalloc = Some (q, raw) \<longrightarrow> vdev_objs vs q = None"
    and "modac_vdev_create kmalloc device_create p d vs = (r, d1, vs1)"
  shows "case r of Inl e \<Rightarrow> vs1 = vs
    | Inr v \<Rightarrow> v = 0 \<and> modac_vdev_destroy d1 vs1 = vs \<and> \<not> dev_exists_for_vdev_class vs (vdd_name d)
        \<and> (\<exists>i j q. fst (the kmalloc) = q
             \<and> calc_table_indices vs (vdd_minor d) = Inr (i, j) \<and> vdev_table vs i j = None
             \<and> vdev_table vs1 i j = Some q \<and> vdd_priv d1 = Some q
             \<and> (\<exists>x. vdev_objs vs1 q = Some x \<and> vdev_des x = p \<and> event_list_is_empty (notified_events x)
                  \<and> packets (cb_events x) = []))"
proof -
  have objs: "(vdev_objs vs)(q := None) = vdev_objs vs" if "kmalloc = Some (q, raw)" for q raw
    using assms(1) that by (auto simp: fun_eq_iff)
  have indices: "calc_table_indices (vs\<lparr>vdev_objs := a, vdev_class := b, vdev_table := c\<rparr>)
      = calc_table_indices vs" for a b c
    by (simp add: calc_table_indices_def fun_eq_iff)
  have slot: "t(i := (t i)(j := None)) = t" if "t i j = None" for t :: "int \<Rightarrow> int \<Rightarrow> ptr option" and i j
    using that by (auto simp: fun_eq_iff)
  from modac_vdev_create_cases [OF assms] show ?thesis
    by (auto simp: modac_vdev_destroy_def vdev_cleanup_def des_init_dev_def indices objs slot Let_def
        vdev_init_dev_def event_list_is_empty_def event_list_clear_def)
qed

definition vs_ex :: vdev_system where
  "vs_ex = \<lparr>vdev_mng_first_minor = 0, vdev_table_size = 8, vdev_table = (\<lambda>_ _. None),
     vdev_objs = Map.empty, vdev_class = []\<rparr>"

lemma vdev_create_destroy_witness:
  "case modac_vdev_create (Some (7, vdev_ex)) None 5 des_ex vs_ex of (r, d1, vs1) \<Rightarrow>
     r = Inr 0 \<and> vdev_table vs1 0 0 = Some 7 \<and> modac_vdev_destroy d1 vs1 = vs_ex"
proof -
  obtain r d1 vs1 where c: "modac_vdev_create (Some (7, vdev_ex)) None 5 des_ex vs_ex = (r, d1, vs1)"
    by (cases "modac_vdev_create (Some (7, vdev_ex)) None 5 des_ex vs_ex") auto
  have idx: "calc_table_indices vs_ex (vdd_minor des_ex) = Inr (0, 0)"
    by (simp add: calc_table_indices_def vs_ex_def des_ex_def Let_def signed_divide_int_def signed_modulo_int_def)
  have "r = Inr 0" using c idx
    by (simp add: modac_vdev_create_def Let_def dev_exists_for_vdev_class_def) (simp add: vs_ex_def)
  moreover have "\<forall>q raw. Some (7, vdev_ex) = Some (q, raw) \<longrightarrow> vdev_objs vs_ex q = None"
    by (simp add: vs_ex_def)
  ultimately show ?thesis using vdev_create_destroy [OF _ c] idx c by auto
qed

end
