(* ===== verification/Mng_Dev.thy ===== *)
theory Mng_Dev
  imports Rm Devref Virt_Dev
begin

text \<open>
  One MNG_DEV (src/src/mng-dev.c): its state, the list of its VIRT_DEVs, the resources they own, the
  event subscriptions, the \<open>ioctl\<close> calls of its file, the calls its VIRT_DEVs make into it and
  the processing of events from the interrupt. The state also holds the objects the list points to
  and the tables that the VIRT_DEVs share, so that each operation is a function on it. The operations
  run with the mutex of the device reference held where the code takes it; taking it while it is
  held blocks, which is \<open>None\<close>.
\<close>

section \<open>State\<close>

abbreviation (input) NO_PID :: int where "NO_PID \<equiv> 0"

record 's mngdev_data =
  mg_des :: modac_mngdev_des
  mg_pid :: int
  mg_vdev_list :: "ptr list"
  mg_vdevs :: "ptr \<rightharpoonup> modac_vdev_des"
  mg_dispatch :: event_dispatch_list
  mg_regs_offset :: u32
  mg_regs_length :: u32
  mg_event_counters :: "int \<Rightarrow> u32"
  mg_hw :: 's
  mg_rm :: "'s modac_rm_data"
  mg_ref :: "unit devref"
  mg_sys :: vdev_system

text \<open>The object behind a pointer to a description.\<close>

abbreviation vdev_at :: "'s mngdev_data \<Rightarrow> ptr \<Rightarrow> modac_vdev_des" where
  "vdev_at mg p \<equiv> the (mg_vdevs mg p)"

definition upd_vdev :: "ptr \<Rightarrow> (modac_vdev_des \<Rightarrow> modac_vdev_des) \<Rightarrow> 's mngdev_data \<Rightarrow> 's mngdev_data" where
  "upd_vdev p f mg = mg\<lparr>mg_vdevs := (mg_vdevs mg)(p \<mapsto> f (vdev_at mg p))\<rparr>"

definition upd_vdata :: "ptr \<Rightarrow> (vdev_data \<Rightarrow> vdev_data) \<Rightarrow> 's mngdev_data \<Rightarrow> 's mngdev_data" where
  "upd_vdata q f mg = mg\<lparr>mg_sys := (mg_sys mg)\<lparr>vdev_objs := (vdev_objs (mg_sys mg))(q \<mapsto> f (the (vdev_objs (mg_sys mg) q)))\<rparr>\<rparr>"

text \<open>
  What a call gets from its surroundings: the test of the user's address range, the results of its
  allocations and of \<open>device_create\<close>, and what its uninitialised locals hold.
\<close>

record call_env =
  env_access_ok :: "nat \<Rightarrow> bool"
  env_vdev_des :: "(ptr \<times> modac_vdev_des) option"
  env_vdev_data :: "(ptr \<times> vdev_data) option"
  env_device_create :: "errno option"
  env_stack :: modac_rm_vres_desc

section \<open>The device reference\<close>

definition mngdev_devref_lock :: "'s mngdev_data \<Rightarrow> (int res \<times> 's mngdev_data) option" where
  "mngdev_devref_lock mg = (case devref_lock (mg_ref mg) of
     None \<Rightarrow> None
   | Some ref \<Rightarrow>
       if ref_ptr ref = None then Some (Inl ENODEV, mg\<lparr>mg_ref := devref_unlock ref\<rparr>)
       else Some (Inr 0, mg\<lparr>mg_ref := ref\<rparr>))"

definition mngdev_devref_unlock :: "'s mngdev_data \<Rightarrow> 's mngdev_data" where
  "mngdev_devref_unlock mg = mg\<lparr>mg_ref := devref_unlock (mg_ref mg)\<rparr>"

section \<open>Event subscriptions\<close>

definition on_subscribe_change :: "'s modac_hw_support_def \<Rightarrow> 's mngdev_data \<Rightarrow> int res \<times> 's mngdev_data" where
  "on_subscribe_change hws mg =
     (let all_subscriptions = event_dispatch_list_add_subscribed_events (mg_dispatch mg) (event_list_clear 0) in
      if ref_ptr (mg_ref mg) \<noteq> None then
        case hw_on_subscribe_change hws (mg_hw mg) all_subscriptions of (ret, hw) \<Rightarrow> (ret, mg\<lparr>mg_hw := hw\<rparr>)
      else (Inl ENODEV, mg))"

definition mngdev_event_dispatch_list_remove_all ::
  "'s modac_hw_support_def \<Rightarrow> ptr \<Rightarrow> 's mngdev_data \<Rightarrow> 's mngdev_data" where
  "mngdev_event_dispatch_list_remove_all hws p mg =
     snd (on_subscribe_change hws (mg\<lparr>mg_dispatch := event_dispatch_list_remove_all (mg_dispatch mg) p\<rparr>))"

section \<open>The list of the VIRT_DEVs\<close>

definition list_find_vdev :: "'s mngdev_data \<Rightarrow> u8 \<Rightarrow> ptr option" where
  "list_find_vdev mg vid = find (\<lambda>p. vdd_id (vdev_at mg p) = vid) (mg_vdev_list mg)"

definition list_find_vdev_by_name :: "'s mngdev_data \<Rightarrow> u8 list \<Rightarrow> ptr option" where
  "list_find_vdev_by_name mg name = find (\<lambda>p. STRINGS_EQUAL (vdd_name (vdev_at mg p)) name) (mg_vdev_list mg)"

definition list_create_vdev :: "(ptr \<times> modac_vdev_des) option \<Rightarrow> u8 \<Rightarrow> 's mngdev_data \<Rightarrow>
    ptr res \<times> 's mngdev_data" where
  "list_create_vdev kmalloc vid mg = (case kmalloc of
     None \<Rightarrow> (Inl ENOMEM, mg)
   | Some (p, raw) \<Rightarrow> (Inr p, mg\<lparr>mg_vdevs := (mg_vdevs mg)(p \<mapsto> raw\<lparr>vdd_id := vid\<rparr>),
                               mg_vdev_list := p # mg_vdev_list mg\<rparr>))"

definition list_destroy_vdev :: "'s modac_hw_support_def \<Rightarrow> bool \<Rightarrow> ptr \<Rightarrow> 's mngdev_data \<Rightarrow> 's mngdev_data" where
  "list_destroy_vdev hws modac_vdev_create_was_done p mg =
     (let mg = (if modac_vdev_create_was_done then
                  let mg = mngdev_event_dispatch_list_remove_all hws p mg;
                      mg = mg\<lparr>mg_rm := modac_rm_free_owner (mg_rm mg) (uint (vdd_id (vdev_at mg p)))\<rparr>
                  in mg\<lparr>mg_sys := modac_vdev_destroy (vdev_at mg p) (mg_sys mg)\<rparr>
                else mg)
      in mg\<lparr>mg_vdev_list := remove1 p (mg_vdev_list mg), mg_vdevs := (mg_vdevs mg)(p := None)\<rparr>)"

definition list_stop_and_destroy_vdevs :: "'s modac_hw_support_def \<Rightarrow> 's mngdev_data \<Rightarrow> 's mngdev_data" where
  "list_stop_and_destroy_vdevs hws mg = fold (list_destroy_vdev hws True) (mg_vdev_list mg) mg"

section \<open>The resources of a VIRT_DEV\<close>

definition vdev_on_res_add :: "ptr \<Rightarrow> modac_rm_vres_desc \<Rightarrow> 's mngdev_data \<Rightarrow> int res \<times> 's mngdev_data" where
  "vdev_on_res_add p vres_desc mg = (case modac_rm_get_res_count_for_type (mg_rm mg) (vd_type vres_desc) of
     Inl e \<Rightarrow> (Inl e, mg)
   | Inr res_count_for_type \<Rightarrow>
       if vd_index vres_desc < 0 \<or> vd_index vres_desc \<ge> res_count_for_type then (Inl EINVAL, mg)
       else
         let t = vd_type vres_desc; td = vdd_res_type_data (vdev_at mg p) t in
         if res_alloc_count td \<ge> MODAC_RES_PER_VIRT_DEV_MAX_COUNT then (Inl ENOSYS, mg)
         else (Inr 0, upd_vdev p (\<lambda>d. d\<lparr>vdd_res_type_data := (vdd_res_type_data d)(t :=
                \<lparr>res_alloc_count = res_alloc_count td + 1,
                 res_alloc_index = (res_alloc_index td)[nat (res_alloc_count td) := vd_index vres_desc]\<rparr>)\<rparr>) mg))"

text \<open>An undefined resource keeps the index the description had before.\<close>

definition mngdev_vdev_get_vres_desc :: "'s mngdev_data \<Rightarrow> modac_vdev_des \<Rightarrow>
    mngdev_ioctl_hw_header_vres \<Rightarrow> modac_rm_vres_desc \<Rightarrow> modac_rm_vres_desc" where
  "mngdev_vdev_get_vres_desc mg d vres_rel_on_vdev vres_desc =
     (let type = vres_type vres_rel_on_vdev; index = vres_index vres_rel_on_vdev in
      if type < 0 \<or> type \<ge> hw_res_def_count (mg_rm mg) then vres_desc\<lparr>vd_type := MODAC_RES_TYPE_NONE\<rparr>
      else if index < 0 \<or> index \<ge> res_alloc_count (vdd_res_type_data d type)
      then vres_desc\<lparr>vd_type := MODAC_RES_TYPE_NONE\<rparr>
      else \<lparr>vd_type = type, vd_index = res_alloc_index (vdd_res_type_data d type) ! nat index\<rparr>)"

section \<open>The \<open>ioctl\<close> calls of the MNG_DEV\<close>

text \<open>
  Each case returns the result, the user memory and the device. \<open>id_owner\<close> is a VIRT_DEV's id
  as the owner the resource manager keeps.
\<close>

abbreviation id_owner :: "u8 \<Rightarrow> int" where
  "id_owner vid \<equiv> uint vid"

text \<open>
  The loop over the two resources of a hardware call: each defined one must be owned by \<open>vdev_id\<close>.
  The number \<open>modac_rm_get_owner\<close> returns, error or owner, is compared with the id.
\<close>

fun check_resources :: "'s mngdev_data \<Rightarrow> modac_vdev_des option \<Rightarrow> int \<Rightarrow> modac_rm_vres_desc \<Rightarrow>
    mngdev_ioctl_hw_header_vres list \<Rightarrow> modac_rm_vres_desc list res" where
  "check_resources mg vdes vdev_id raw [] = Inr []"
| "check_resources mg vdes vdev_id raw (vres # vs) =
     (if vres_type vres = MODAC_RES_TYPE_NONE
      then map_sum (\<lambda>e. e) ((#) \<lparr>vd_type = MODAC_RES_TYPE_NONE, vd_index = -1\<rparr>)
             (check_resources mg vdes vdev_id raw vs)
      else
        let vres_desc = (case vdes of
               None \<Rightarrow> \<lparr>vd_type = MODAC_RES_TYPE_NONE, vd_index = -1\<rparr>
             | Some d \<Rightarrow> mngdev_vdev_get_vres_desc mg d vres raw)
        in if ret_int (modac_rm_get_owner (mg_rm mg) vres_desc) \<noteq> vdev_id then Inl EACCES
           else map_sum (\<lambda>e. e) ((#) vres_desc) (check_resources mg vdes vdev_id raw vs))"

definition mng_ioctl_hw :: "'s modac_hw_support_def \<Rightarrow> call_env \<Rightarrow> u32 \<Rightarrow> umem \<Rightarrow> 's mngdev_data \<Rightarrow>
    int res \<times> umem \<times> 's mngdev_data" where
  "mng_ioctl_hw hws env cmd m mg = (case copy_from_user m 20 of
     None \<Rightarrow> (Inl EFAULT, m, mg)
   | Some bs \<Rightarrow>
       let header_args = get_hw_header bs;
           vdes = map_option (vdev_at mg) (list_find_vdev mg (word_of_int (hwh_vdev_id header_args)))
       in if (case vdes of Some d \<Rightarrow> vdd_usage_counter d > 0 | None \<Rightarrow> False) then (Inl EACCES, m, mg)
          else case check_resources mg vdes (hwh_vdev_id header_args) (env_stack env) (hwh_vres header_args) of
            Inl e \<Rightarrow> (Inl e, m, mg)
          | Inr resources \<Rightarrow>
              (case hw_ioctl hws of
                 None \<Rightarrow> (Inl ENOSYS, m, mg)
               | Some ioctl \<Rightarrow> (case ioctl (mg_hw mg) resources cmd m of
                   (ret, m', hw) \<Rightarrow> (ret, m', mg\<lparr>mg_hw := hw\<rparr>))))"

definition mng_ioctl_find :: "umem \<Rightarrow> 's mngdev_data \<Rightarrow> int res \<times> umem \<times> 's mngdev_data" where
  "mng_ioctl_find m mg = (case copy_from_user m 33 of
     None \<Rightarrow> (Inl EFAULT, m, mg)
   | Some bs \<Rightarrow>
       let vid = (case list_find_vdev_by_name mg (ids_name (get_vdev_ids bs)) of
                    None \<Rightarrow> 0
                  | Some p \<Rightarrow> vdd_id (vdev_at mg p))
       in case copy_to_user m 0 [vid] of
            None \<Rightarrow> (Inl EFAULT, m, mg)
          | Some m' \<Rightarrow> (Inr 0, m', mg))"

text \<open>The first id that no VIRT_DEV has, from 1 to 31.\<close>

definition first_free_id :: "'s mngdev_data \<Rightarrow> u8 option" where
  "first_free_id mg = find (\<lambda>vid. list_find_vdev mg vid = None) (map of_nat [1..<32])"

definition init_vdev_des :: "'s mngdev_data \<Rightarrow> u8 \<Rightarrow> u8 list \<Rightarrow> modac_vdev_des \<Rightarrow> modac_vdev_des" where
  "init_vdev_des mg vid name d = d\<lparr>
     vdd_major := md_major (mg_des mg),
     vdd_minor := md_minor (mg_des mg) + id_owner vid,
     vdd_name := strncpy name (MODAC_DEVICE_MAX_NAME + 1),
     vdd_res_type_data := (\<lambda>i. if 0 \<le> i \<and> i < hw_res_def_count (mg_rm mg)
        then (vdd_res_type_data d i)\<lparr>res_alloc_count := 0\<rparr> else vdd_res_type_data d i),
     vdd_usage_counter := 0,
     vdd_leave_res_set_on_last_close := 0\<rparr>"

definition mng_create_vdev :: "'s modac_hw_support_def \<Rightarrow> call_env \<Rightarrow> u8 \<Rightarrow> u8 list \<Rightarrow> 's mngdev_data \<Rightarrow>
    int res \<times> 's mngdev_data" where
  "mng_create_vdev hws env vid name mg = (case list_create_vdev (env_vdev_des env) vid mg of
     (Inl e, mg) \<Rightarrow> (Inl e, mg)
   | (Inr p, mg) \<Rightarrow>
       let mg = upd_vdev p (init_vdev_des mg vid name) mg in
       case modac_vdev_create (env_vdev_data env) (env_device_create env) p (vdev_at mg p) (mg_sys mg) of
         (ret, d, vs) \<Rightarrow>
           let mg = (upd_vdev p (\<lambda>_. d) mg)\<lparr>mg_sys := vs\<rparr> in
           case ret of
             Inl e \<Rightarrow> (Inl e, list_destroy_vdev hws False p mg)
           | Inr v \<Rightarrow> (Inr v, mg))"

definition mng_ioctl_create :: "'s modac_hw_support_def \<Rightarrow> call_env \<Rightarrow> umem \<Rightarrow> 's mngdev_data \<Rightarrow>
    int res \<times> umem \<times> 's mngdev_data" where
  "mng_ioctl_create hws env m mg = (case copy_from_user m 33 of
     None \<Rightarrow> (Inl EFAULT, m, mg)
   | Some bs \<Rightarrow>
       let create_args = get_vdev_ids bs in
       if id_owner (ids_id create_args) > MAX_VIRT_DEVS_PER_MNG_DEV then (Inl EINVAL, m, mg)
       else if list_find_vdev_by_name mg (ids_name create_args) \<noteq> None then (Inl EEXIST, m, mg)
       else if ids_id create_args = 0 then
         (case first_free_id mg of
            None \<Rightarrow> (Inl EMFILE, m, mg)
          | Some vid \<Rightarrow> (case mng_create_vdev hws env vid (ids_name create_args) mg of (ret, mg) \<Rightarrow> (ret, m, mg)))
       else if list_find_vdev mg (ids_id create_args) \<noteq> None then (Inl EEXIST, m, mg)
       else (case mng_create_vdev hws env (ids_id create_args) (ids_name create_args) mg of (ret, mg) \<Rightarrow> (ret, m, mg)))"

definition mng_ioctl_destroy :: "'s modac_hw_support_def \<Rightarrow> umem \<Rightarrow> 's mngdev_data \<Rightarrow>
    int res \<times> umem \<times> 's mngdev_data" where
  "mng_ioctl_destroy hws m mg = (case copy_from_user m 1 of
     None \<Rightarrow> (Inl EFAULT, m, mg)
   | Some bs \<Rightarrow>
       (case list_find_vdev mg (destroy_id (get_destroy bs)) of
          None \<Rightarrow> (Inl ENODEV, m, mg)
        | Some p \<Rightarrow> (Inr 0, m, list_destroy_vdev hws True p mg)))"

text \<open>The result of \<open>vdev_on_res_add\<close> is not looked at.\<close>

definition mng_ioctl_alloc :: "umem \<Rightarrow> 's mngdev_data \<Rightarrow> int res \<times> umem \<times> 's mngdev_data" where
  "mng_ioctl_alloc m mg = (case copy_from_user m 72 of
     None \<Rightarrow> (Inl EFAULT, m, mg)
   | Some bs \<Rightarrow>
       let res_args = get_ioctl_res bs in
       case list_find_vdev mg (res_id_vdev res_args) of
         None \<Rightarrow> (Inl ENXIO, m, mg)
       | Some p \<Rightarrow>
           if vdd_usage_counter (vdev_at mg p) > 0 then (Inl EACCES, m, mg)
           else case modac_rm_alloc (mg_rm mg) (mg_hw mg) (id_owner (res_id_vdev res_args))
                   (res_resource_id res_args) (res_resource_real_index res_args) (res_arg_filter res_args) of
             (ret, vres_desc, rm) \<Rightarrow>
               let mg = mg\<lparr>mg_rm := rm\<rparr> in
               (ret, m, case vres_desc of Some v \<Rightarrow> snd (vdev_on_res_add p v mg) | None \<Rightarrow> mg))"

text \<open>The size of the IO memory is stored in an \<open>int\<close>.\<close>

definition mng_ioctl_config :: "umem \<Rightarrow> 's mngdev_data \<Rightarrow> int res \<times> umem \<times> 's mngdev_data" where
  "mng_ioctl_config m mg =
     (let config = \<lparr>io_memory_length = (if md_io_start (mg_des mg) = None then 0
                       else sint (ucast (md_io_size (mg_des mg)) :: u32))\<rparr>
      in case copy_to_user m 0 (config_bytes config) of
           None \<Rightarrow> (Inl EFAULT, m, mg)
         | Some m' \<Rightarrow> (Inr 0, m', mg))"

definition mng_ioctl_locked :: "'s modac_hw_support_def \<Rightarrow> call_env \<Rightarrow> u32 \<Rightarrow> umem \<Rightarrow> 's mngdev_data \<Rightarrow>
    int res \<times> umem \<times> 's mngdev_data" where
  "mng_ioctl_locked hws env cmd m mg =
     (if IOC_TYPE cmd \<noteq> MNG_DEV_IOC_MAGIC then (Inl ENOTTY, m, mg)
      else if ioctl_access_denied (env_access_ok env) cmd then (Inl EFAULT, m, mg)
      else if \<not> IOC_NR cmd \<le> MNG_DEV_IOC_MAX \<and> MNG_DEV_HW_IOC_MIN \<le> IOC_NR cmd \<and> IOC_NR cmd \<le> MNG_DEV_HW_IOC_MAX
      then mng_ioctl_hw hws env cmd m mg
      else if \<not> IOC_NR cmd \<le> MNG_DEV_IOC_MAX \<and> \<not> (MNG_DEV_DBG_IOC_MIN \<le> IOC_NR cmd \<and> IOC_NR cmd \<le> MNG_DEV_DBG_IOC_MAX)
      then (Inl ENOTTY, m, mg)
      else if cmd = MNG_DEV_IOC_VIRT_DEV_FIND then mng_ioctl_find m mg
      else if cmd = MNG_DEV_IOC_CREATE then mng_ioctl_create hws env m mg
      else if cmd = MNG_DEV_IOC_DESTROY then mng_ioctl_destroy hws m mg
      else if cmd = MNG_DEV_IOC_ALLOC then mng_ioctl_alloc m mg
      else if cmd = MNG_DEV_IOC_CONFIG then mng_ioctl_config m mg
      else (Inl ENOSYS, m, mg))"

definition mngdev_unlocked_ioctl :: "'s modac_hw_support_def \<Rightarrow> call_env \<Rightarrow> u32 \<Rightarrow> umem \<Rightarrow> 's mngdev_data \<Rightarrow>
    (int res \<times> umem \<times> 's mngdev_data) option" where
  "mngdev_unlocked_ioctl hws env cmd m mg = (case mngdev_devref_lock mg of
     None \<Rightarrow> None
   | Some (Inl e, mg) \<Rightarrow> Some (Inl e, m, mg)
   | Some (Inr _, mg) \<Rightarrow> (case mng_ioctl_locked hws env cmd m mg of
       (ret, m, mg) \<Rightarrow> Some (ret, m, mngdev_devref_unlock mg)))"

section \<open>Memory mapping\<close>

text \<open>\<open>offset\<close> and \<open>vsize\<close> are those of the mapping; \<open>remap_ok\<close> is the kernel's mapping of the pages.\<close>

definition mngdev_mmap :: "bool \<Rightarrow> ulong \<Rightarrow> ulong \<Rightarrow> 's mngdev_data \<Rightarrow> (int res \<times> 's mngdev_data) option" where
  "mngdev_mmap remap_ok offset vsize mg = (case mngdev_devref_lock mg of
     None \<Rightarrow> None
   | Some (Inl e, mg) \<Rightarrow> Some (Inl e, mg)
   | Some (Inr _, mg) \<Rightarrow>
       Some (if vsize > md_io_size (mg_des mg) then Inl EINVAL
             else if offset \<noteq> 0 then Inl EINVAL
             else if \<not> remap_ok then Inl EAGAIN
             else Inr 0, mngdev_devref_unlock mg))"

section \<open>Events from the interrupt\<close>

text \<open>
  A regular event goes to the queue of each subscriber, a notifying one sets its bit in their
  masks. The length of the data is that of the object the caller passes.
\<close>

definition irq_process :: "hw_event \<Rightarrow> ptr \<Rightarrow> 's mngdev_data \<Rightarrow> 's mngdev_data" where
  "irq_process arg subscriber mg =
     upd_vdata (the (vdd_priv (vdev_at mg subscriber)))
       (\<lambda>v. case arg of
          Notify event \<Rightarrow> modac_vdev_notify v event
        | Put_Event event data \<Rightarrow> modac_vdev_put_cb v event data (length data)) mg"

definition event_of :: "hw_event \<Rightarrow> int" where
  "event_of arg = (case arg of Notify event \<Rightarrow> event | Put_Event event data \<Rightarrow> event)"

definition modac_mngdev_process_event :: "hw_event \<Rightarrow> 's mngdev_data \<Rightarrow> 's mngdev_data" where
  "modac_mngdev_process_event arg mg =
     (let event = event_of arg;
          mg = (if event \<ge> 0 \<and> event < int EVENT_LIST_TYPE_MAX_EVENTS
                then mg\<lparr>mg_event_counters := (mg_event_counters mg)(event := mg_event_counters mg event + 1)\<rparr>
                else mg)
      in event_dispatch_list_for_all_subscribers (mg_dispatch mg) event (irq_process arg) mg)"

definition modac_mngdev_isr :: "'s modac_hw_support_def \<Rightarrow> 's mngdev_data \<Rightarrow> 's mngdev_data" where
  "modac_mngdev_isr hws mg = (case hw_isr hws (mg_hw mg) of
     (events, hw) \<Rightarrow> fold modac_mngdev_process_event events (mg\<lparr>mg_hw := hw\<rparr>))"

section \<open>Calls from the VIRT_DEVs\<close>

definition modac_mng_check_on_open :: "inode \<Rightarrow> bool \<Rightarrow> 's mngdev_data \<Rightarrow> (int res \<times> 's mngdev_data) option" where
  "modac_mng_check_on_open i kmalloc_ok mg = (case devref_get (mg_ref mg) (Some i) kmalloc_ok of
     None \<Rightarrow> None
   | Some (Inl e, ref) \<Rightarrow> Some (Inl e, mg\<lparr>mg_ref := ref\<rparr>)
   | Some (Inr v, ref) \<Rightarrow> Some (Inr v, mg\<lparr>mg_ref := devref_unlock ref\<rparr>))"

definition modac_c_vdev_on_open :: "ptr \<Rightarrow> inode \<Rightarrow> bool \<Rightarrow> 's mngdev_data \<Rightarrow> (int res \<times> 's mngdev_data) option" where
  "modac_c_vdev_on_open p i kmalloc_ok mg = (case modac_mng_check_on_open i kmalloc_ok mg of
     None \<Rightarrow> None
   | Some (Inl e, mg) \<Rightarrow> Some (Inl e, mg)
   | Some (Inr v, mg) \<Rightarrow>
       Some (Inr v, upd_vdev p (\<lambda>d. d\<lparr>vdd_usage_counter := vdd_usage_counter d + 1\<rparr>) mg))"

text \<open>All the resources the VIRT_DEV lists are brought to their idle state.\<close>

definition vdev_resources :: "'s mngdev_data \<Rightarrow> modac_vdev_des \<Rightarrow> (int \<times> int) list" where
  "vdev_resources mg d = concat (map (\<lambda>i. map (\<lambda>j. (i, res_alloc_index (vdd_res_type_data d i) ! nat j))
       [0..res_alloc_count (vdd_res_type_data d i) - 1]) [0..hw_res_def_count (mg_rm mg) - 1])"

definition modac_c_vdev_init_res :: "'s modac_hw_support_def \<Rightarrow> ptr \<Rightarrow> 's mngdev_data \<Rightarrow> 's mngdev_data" where
  "modac_c_vdev_init_res hws p mg =
     mg\<lparr>mg_hw := fold (\<lambda>(i, x) hw. snd (hw_init_res hws hw i x)) (vdev_resources mg (vdev_at mg p)) (mg_hw mg)\<rparr>"

text \<open>The cleanup of the device itself, in the order of the fall-through from \<open>CLEAN_DEV\<close>.\<close>

definition mngdev_destroy_now :: "'s modac_hw_support_def \<Rightarrow> 's mngdev_data \<Rightarrow> 's mngdev_data" where
  "mngdev_destroy_now hws mg =
     (let mg = list_stop_and_destroy_vdevs hws mg in mg\<lparr>mg_hw := hw_end hws (mg_hw mg)\<rparr>)"

text \<open>
  Whether the device was destroyed, which frees the object. Before a VIRT_DEV's close destroys the
  device it denies the direct access and waits until no direct call is inside; \<open>None\<close> is the wait.
\<close>

definition drvdat_put :: "'s modac_hw_support_def \<Rightarrow> inode option \<Rightarrow> ptr option \<Rightarrow> 's mngdev_data \<Rightarrow>
    (bool \<times> 's mngdev_data) option" where
  "drvdat_put hws inod vdes mg = (case devref_put (mg_ref mg) inod of
     (n, ref) \<Rightarrow>
       let mg = mg\<lparr>mg_ref := ref\<rparr> in
       if n = 0 then
         (case vdes of
            None \<Rightarrow> Some (True, mngdev_destroy_now hws mg)
          | Some p \<Rightarrow>
              let mg = upd_vdev p (\<lambda>d. d\<lparr>vdd_direct_access_denied := True\<rparr>) mg in
              if vdd_direct_access_active_count (vdev_at mg p) > 0 then None
              else Some (True, mngdev_destroy_now hws mg))
       else Some (False, mg))"

definition modac_c_vdev_on_close :: "'s modac_hw_support_def \<Rightarrow> ptr \<Rightarrow> inode \<Rightarrow> 's mngdev_data \<Rightarrow>
    (bool \<times> 's mngdev_data) option" where
  "modac_c_vdev_on_close hws p i mg = (case devref_lock (mg_ref mg) of
     None \<Rightarrow> None
   | Some ref \<Rightarrow>
       let mg = mg\<lparr>mg_ref := ref\<rparr>;
           mg = upd_vdev p (\<lambda>d. d\<lparr>vdd_usage_counter := vdd_usage_counter d - 1\<rparr>) mg;
           mg = (if vdd_usage_counter (vdev_at mg p) < 1 then
                   let mg = (if vdd_leave_res_set_on_last_close (vdev_at mg p) = 0 \<and> ref_ptr (mg_ref mg) \<noteq> None
                             then modac_c_vdev_init_res hws p mg else mg)
                   in mngdev_event_dispatch_list_remove_all hws p mg
                 else mg)
       in drvdat_put hws (Some i) (Some p) mg)"

definition modac_c_vdev_do_ioctl :: "'s modac_hw_support_def \<Rightarrow> call_env \<Rightarrow> ptr \<Rightarrow>
    mngdev_ioctl_hw_header_vres \<Rightarrow> u32 \<Rightarrow> umem \<Rightarrow> 's mngdev_data \<Rightarrow> int res \<times> umem \<times> 's mngdev_data" where
  "modac_c_vdev_do_ioctl hws env p vres cmd m mg =
     (let res = (if vres_type vres \<noteq> MODAC_RES_TYPE_NONE
                 then mngdev_vdev_get_vres_desc mg (vdev_at mg p) vres (env_stack env) else env_stack env)
      in if vres_type vres \<noteq> MODAC_RES_TYPE_NONE
            \<and> ret_int (modac_rm_get_owner (mg_rm mg) res) \<noteq> id_owner (vdd_id (vdev_at mg p))
         then (Inl EACCES, m, mg)
         else case hw_ioctl hws of
           None \<Rightarrow> (Inl ENOSYS, m, mg)
         | Some ioctl \<Rightarrow> (case ioctl (mg_hw mg) [res] cmd m of
             (ret, m', hw) \<Rightarrow> (ret, m', mg\<lparr>mg_hw := hw\<rparr>)))"

definition modac_c_vdev_do_direct_ioctl :: "'s modac_hw_support_def \<Rightarrow> u32 \<Rightarrow> umem \<Rightarrow> 's mngdev_data \<Rightarrow>
    int res \<times> umem \<times> 's mngdev_data" where
  "modac_c_vdev_do_direct_ioctl hws cmd m mg = (case hw_direct_ioctl hws of
     None \<Rightarrow> (Inl ENOSYS, m, mg)
   | Some ioctl \<Rightarrow> (case ioctl (mg_hw mg) cmd m of (ret, m', hw) \<Rightarrow> (ret, m', mg\<lparr>mg_hw := hw\<rparr>)))"

definition modac_c_vdev_subscribe :: "'s modac_hw_support_def \<Rightarrow> ptr \<Rightarrow> int \<Rightarrow> u8 \<Rightarrow> 's mngdev_data \<Rightarrow>
    int res \<times> 's mngdev_data" where
  "modac_c_vdev_subscribe hws p event action mg =
     (case (if action = VIRT_DEV_IOCTL_SUBSCRIBE_ACTION_SUBSCRIBE
            then event_dispatch_list_add (mg_dispatch mg) p event
            else if action = VIRT_DEV_IOCTL_SUBSCRIBE_ACTION_UNSUBSCRIBE
            then (Inr 0, event_dispatch_list_remove (mg_dispatch mg) p event)
            else if action = VIRT_DEV_IOCTL_SUBSCRIBE_ACTION_CLEAR
            then (Inr 0, event_dispatch_list_remove_all (mg_dispatch mg) p)
            else (Inr 0, mg_dispatch mg)) of
       (Inl e, l) \<Rightarrow> (Inl e, mg\<lparr>mg_dispatch := l\<rparr>)
     | (Inr v, l) \<Rightarrow> on_subscribe_change hws (mg\<lparr>mg_dispatch := l\<rparr>))"

definition modac_c_vdev_get_res_status :: "ptr \<Rightarrow> vdev_ioctl_res_status \<Rightarrow> 's mngdev_data \<Rightarrow>
    vdev_ioctl_res_status res" where
  "modac_c_vdev_get_res_status p res_status mg =
     (if rs_res_type res_status < 0 \<or> rs_res_type res_status \<ge> hw_res_def_count (mg_rm mg) then Inl EINVAL
      else Inr (res_status\<lparr>rs_count :=
             res_alloc_count (vdd_res_type_data (vdev_at mg p) (rs_res_type res_status))\<rparr>))"

definition modac_c_vdev_mmap_ro :: "'s modac_hw_support_def \<Rightarrow> ulong \<Rightarrow> ulong \<Rightarrow> 's mngdev_data \<Rightarrow> ulong res" where
  "modac_c_vdev_mmap_ro hws offset vsize mg = (case hw_vdev_mmap_ro hws of
     None \<Rightarrow> Inl ENOSYS
   | Some f \<Rightarrow> f (mg_hw mg) offset vsize)"

section \<open>The initial state\<close>

text \<open>\<open>init_dev\<close>, with the parts that \<open>modac_mngdev_create\<close> fills in around it.\<close>

definition mngdev_init_dev :: "modac_mngdev_des \<Rightarrow> 's \<Rightarrow> 's modac_rm_data \<Rightarrow> vdev_system \<Rightarrow> 's mngdev_data" where
  "mngdev_init_dev des hw rm vs = \<lparr>mg_des = des, mg_pid = NO_PID, mg_vdev_list = [], mg_vdevs = Map.empty,
     mg_dispatch = event_dispatch_list_init, mg_regs_offset = 0, mg_regs_length = 1024, mg_event_counters = (\<lambda>_. 0), mg_hw = hw, mg_rm = rm,
     mg_ref = devref_init (), mg_sys = vs\<rparr>"

end
