(* ===== verification/Mng_Invariants.thy ===== *)
theory Mng_Invariants
  imports Mng_Dev
begin

text \<open>
  The invariant of a MNG_DEV and its preservation by every operation of the \<open>ioctl\<close> calls, of the
  VIRT_DEVs' calls and of the interrupt. It ties the list of the VIRT_DEVs, the objects, the dispatch
  table and the resource manager together: the ids and the names are distinct, every subscriber is
  a VIRT_DEV of the list, and a VIRT_DEV lists only resources it owns.
\<close>

section \<open>The invariant\<close>

text \<open>
  What holds of one VIRT_DEV \<open>p\<close>: an id from 1 to 31, the minor number that goes with it, private
  data pointing back to it, and room for 32 resources of each type.
\<close>

definition vdev_ok :: "int \<Rightarrow> (ptr \<rightharpoonup> vdev_data) \<Rightarrow> ptr \<Rightarrow> modac_vdev_des \<Rightarrow> bool" where
  "vdev_ok minor objs p d \<longleftrightarrow> 1 \<le> id_owner (vdd_id d) \<and> id_owner (vdd_id d) \<le> 31
     \<and> vdd_minor d = minor + id_owner (vdd_id d)
     \<and> (\<exists>q x. vdd_priv d = Some q \<and> objs q = Some x \<and> vdev_des x = p)
     \<and> (\<forall>t. length (res_alloc_index (vdd_res_type_data d t)) = nat MODAC_RES_PER_VIRT_DEV_MAX_COUNT)"

text \<open>The list: no duplicates, exactly the live objects, with distinct ids and names.\<close>

definition vlist_ok :: "int \<Rightarrow> (ptr \<rightharpoonup> vdev_data) \<Rightarrow> ptr list \<Rightarrow> (ptr \<rightharpoonup> modac_vdev_des) \<Rightarrow> bool" where
  "vlist_ok minor objs l vdevs \<longleftrightarrow> distinct l \<and> dom vdevs = set l
     \<and> inj_on (\<lambda>p. vdd_id (the (vdevs p))) (set l)
     \<and> inj_on (\<lambda>p. cstr (vdd_name (the (vdevs p)))) (set l)
     \<and> (\<forall>p\<in>set l. vdev_ok minor objs p (the (vdevs p)))"

text \<open>The resources that a VIRT_DEV lists are its own.\<close>

definition owns :: "'s modac_rm_data \<Rightarrow> modac_vdev_des \<Rightarrow> bool" where
  "owns rm d \<longleftrightarrow> (\<forall>t. 0 \<le> t \<and> t < hw_res_def_count rm \<longrightarrow>
     0 \<le> res_alloc_count (vdd_res_type_data d t) \<and>
     res_alloc_count (vdd_res_type_data d t) \<le> MODAC_RES_PER_VIRT_DEV_MAX_COUNT \<and>
     (\<forall>j. 0 \<le> j \<and> j < res_alloc_count (vdd_res_type_data d t) \<longrightarrow>
        modac_rm_get_owner rm \<lparr>vd_type = t, vd_index = res_alloc_index (vdd_res_type_data d t) ! nat j\<rparr>
          = Inr (id_owner (vdd_id d))))"

definition rm_ok :: "'s modac_rm_data \<Rightarrow> ptr list \<Rightarrow> (ptr \<rightharpoonup> modac_vdev_des) \<Rightarrow> bool" where
  "rm_ok rm l vdevs \<longleftrightarrow> rm_wf rm \<and> (\<forall>p\<in>set l. owns rm (the (vdevs p)))
     \<and> (\<forall>v w. modac_rm_get_owner rm v = Inr w \<longrightarrow> (\<exists>p\<in>set l. w = id_owner (vdd_id (the (vdevs p)))))"

definition subs_ok :: "event_dispatch_list \<Rightarrow> ptr list \<Rightarrow> bool" where
  "subs_ok disp l \<longleftrightarrow> dispatch_ok disp \<and> (\<forall>e. set (subscribers disp e) \<subseteq> set l)"

definition mg_ok :: "'s mngdev_data \<Rightarrow> bool" where
  "mg_ok mg \<longleftrightarrow> vlist_ok (md_minor (mg_des mg)) (vdev_objs (mg_sys mg)) (mg_vdev_list mg) (mg_vdevs mg)
     \<and> rm_ok (mg_rm mg) (mg_vdev_list mg) (mg_vdevs mg) \<and> subs_ok (mg_dispatch mg) (mg_vdev_list mg)"

text \<open>Operations that touch none of this: the hardware, the counters, the reference, the process.\<close>

lemma mg_ok_frame [simp]:
  "mg_ok (mg\<lparr>mg_hw := a\<rparr>) \<longleftrightarrow> mg_ok mg"
  "mg_ok (mg\<lparr>mg_event_counters := b\<rparr>) \<longleftrightarrow> mg_ok mg"
  "mg_ok (mg\<lparr>mg_ref := r\<rparr>) \<longleftrightarrow> mg_ok mg"
  "mg_ok (mg\<lparr>mg_pid := i\<rparr>) \<longleftrightarrow> mg_ok mg"
  by (simp_all add: mg_ok_def)

lemma on_subscribe_change_hw: "\<exists>hw. snd (on_subscribe_change hws mg) = mg\<lparr>mg_hw := hw\<rparr>"
proof (cases "ref_ptr (mg_ref mg)")
  case None
  then have "snd (on_subscribe_change hws mg) = mg\<lparr>mg_hw := mg_hw mg\<rparr>"
    by (simp add: on_subscribe_change_def Let_def)
  then show ?thesis ..
qed (auto simp: on_subscribe_change_def Let_def split: prod.splits)

lemma mg_ok_subscribe_change [simp]: "mg_ok (snd (on_subscribe_change hws mg)) \<longleftrightarrow> mg_ok mg"
  using on_subscribe_change_hw [of hws mg] by auto

lemma subscribe_change_sel [simp]:
  "mg_vdev_list (snd (on_subscribe_change hws mg)) = mg_vdev_list mg"
  "mg_vdevs (snd (on_subscribe_change hws mg)) = mg_vdevs mg"
  "mg_rm (snd (on_subscribe_change hws mg)) = mg_rm mg"
  "mg_sys (snd (on_subscribe_change hws mg)) = mg_sys mg"
  "mg_dispatch (snd (on_subscribe_change hws mg)) = mg_dispatch mg"
  "mg_des (snd (on_subscribe_change hws mg)) = mg_des mg"
  "mg_ref (snd (on_subscribe_change hws mg)) = mg_ref mg"
  using on_subscribe_change_hw [of hws mg] by auto

text \<open>
  An update of one description that keeps its identity and its lists, and one of private data
  that keeps the way back.
\<close>

lemma mg_ok_upd_vdev:
  assumes ok: "mg_ok mg" and p: "p \<in> set (mg_vdev_list mg)"
    and keep: "\<And>d. vdd_id (f d) = vdd_id d \<and> vdd_minor (f d) = vdd_minor d \<and> vdd_name (f d) = vdd_name d
      \<and> vdd_priv (f d) = vdd_priv d \<and> vdd_res_type_data (f d) = vdd_res_type_data d"
  shows "mg_ok (upd_vdev p f mg)"
proof -
  define V where "V = (mg_vdevs mg)(p \<mapsto> f (vdev_at mg p))"
  have same: "vdd_id (the (V r)) = vdd_id (vdev_at mg r)"
    "cstr (vdd_name (the (V r))) = cstr (vdd_name (vdev_at mg r))"
    "owns rm (the (V r)) = owns rm (vdev_at mg r)"
    "vdev_ok minor objs r (the (V r)) = vdev_ok minor objs r (vdev_at mg r)" for r rm minor objs
    using keep by (auto simp: V_def owns_def vdev_ok_def)
  have "dom V = dom (mg_vdevs mg)"
    using p ok by (auto simp: V_def mg_ok_def vlist_ok_def)
  with ok show ?thesis
    unfolding mg_ok_def vlist_ok_def rm_ok_def upd_vdev_def V_def [symmetric] by (simp add: same)
qed

lemma mg_ok_upd_vdata:
  assumes ok: "mg_ok mg" and keep: "\<And>x. vdev_des (f x) = vdev_des x"
    and p: "p \<in> set (mg_vdev_list mg)" "vdd_priv (vdev_at mg p) = Some q"
  shows "mg_ok (upd_vdata q f mg)"
proof -
  from ok p obtain x where x: "vdev_objs (mg_sys mg) q = Some x"
    by (auto simp: mg_ok_def vlist_ok_def vdev_ok_def)
  have "vdev_ok minor ((vdev_objs (mg_sys mg))(q \<mapsto> f x)) r d"
    if "vdev_ok minor (vdev_objs (mg_sys mg)) r d" for minor r d
    using that x keep by (auto simp: vdev_ok_def)
  with ok x show ?thesis by (auto simp: mg_ok_def vlist_ok_def upd_vdata_def)
qed

section \<open>Destruction of a VIRT_DEV\<close>

lemma uint_eq_uint [simp]: "uint x = uint y \<longleftrightarrow> x = y"
  by (simp add: word_uint_eq_iff)

lemma uint_not_NO_OWNER [simp]: "uint (x::'a::len word) \<noteq> NO_OWNER"
  using uint_ge_0 [of x] by linarith

lemma vdev_destroy_objs:
  "vdev_objs (modac_vdev_destroy d vs) = vdev_objs vs
   \<or> vdev_objs (modac_vdev_destroy d vs) = (vdev_objs vs)(the (vdd_priv d) := None)"
  by (auto simp: modac_vdev_destroy_def vdev_cleanup_def Let_def split: sum.splits)

lemma free_owner_defs [simp]: "rm_hw_res_defs (modac_rm_free_owner rm w) = rm_hw_res_defs rm"
  by (simp add: modac_rm_free_owner_def)

lemma vlist_ok_remove:
  assumes ok: "vlist_ok minor objs l V" and p: "p \<in> set l"
    and objs: "objs' = objs \<or> objs' = objs(the (vdd_priv (the (V p))) := None)"
  shows "vlist_ok minor objs' (remove1 p l) (V(p := None))"
proof -
  from ok p obtain q x where q: "vdd_priv (the (V p)) = Some q" "objs q = Some x" "vdev_des x = p"
    by (auto simp: vlist_ok_def vdev_ok_def)
  have "vdev_ok minor objs' r d" if "vdev_ok minor objs r d" "r \<noteq> p" for r d
    using that objs q by (auto simp: vdev_ok_def)
  with ok p show ?thesis
    by (auto simp: vlist_ok_def inj_on_def)
qed

lemma rm_ok_remove:
  assumes ok: "rm_ok rm l V" and p: "p \<in> set l" and l: "distinct l"
    and inj: "inj_on (\<lambda>p. vdd_id (the (V p))) (set l)"
  shows "rm_ok (modac_rm_free_owner rm (id_owner (vdd_id (the (V p))))) (remove1 p l) (V(p := None))"
proof -
  let ?w = "id_owner (vdd_id (the (V p)))"
  have wf: "rm_wf rm" and w: "?w \<noteq> NO_OWNER" using ok by (auto simp: rm_ok_def)
  have other: "id_owner (vdd_id (the (V r))) \<noteq> ?w" if "r \<in> set l" "r \<noteq> p" for r
    using inj that p by (auto simp: inj_on_def)
  have "owns (modac_rm_free_owner rm ?w) (the (V r))" if "r \<in> set l" "r \<noteq> p" for r
    using ok that(1) rmi.free_others [OF wf w other [OF that]]
    by (simp add: rm_ok_def owns_def hw_res_def_count_def)
  moreover have "\<exists>r\<in>set l - {p}. u = id_owner (vdd_id (the (V r)))"
    if u: "modac_rm_get_owner (modac_rm_free_owner rm ?w) v = Inr u" for u v
  proof -
    from u rmi.free_law [OF wf w, of v] have "modac_rm_get_owner rm v = Inr u" "u \<noteq> ?w"
      by (auto split: if_splits)
    with ok show ?thesis unfolding rm_ok_def by blast
  qed
  ultimately show ?thesis
    using wf l by (auto simp: rm_ok_def free_owner_wf)
qed

lemma list_destroy_vdev_components:
  shows "mg_vdev_list (list_destroy_vdev hws True p mg) = remove1 p (mg_vdev_list mg)"
    "mg_vdevs (list_destroy_vdev hws True p mg) = (mg_vdevs mg)(p := None)"
    "mg_dispatch (list_destroy_vdev hws True p mg) = event_dispatch_list_remove_all (mg_dispatch mg) p"
    "mg_rm (list_destroy_vdev hws True p mg) = modac_rm_free_owner (mg_rm mg) (id_owner (vdd_id (vdev_at mg p)))"
    "mg_sys (list_destroy_vdev hws True p mg) = modac_vdev_destroy (vdev_at mg p) (mg_sys mg)"
    "mg_des (list_destroy_vdev hws True p mg) = mg_des mg"
    "mg_ref (list_destroy_vdev hws True p mg) = mg_ref mg"
  by (simp_all add: list_destroy_vdev_def mngdev_event_dispatch_list_remove_all_def Let_def)

lemma mg_ok_destroy_vdev [modac_wf]:
  assumes ok: "mg_ok mg" and p: "p \<in> set (mg_vdev_list mg)"
  shows "mg_ok (list_destroy_vdev hws True p mg)"
proof -
  have l: "distinct (mg_vdev_list mg)" and inj: "inj_on (\<lambda>p. vdd_id (vdev_at mg p)) (set (mg_vdev_list mg))"
    using ok by (simp_all add: mg_ok_def vlist_ok_def)
  have "subs_ok (event_dispatch_list_remove_all (mg_dispatch mg) p) (remove1 p (mg_vdev_list mg))"
    using ok l edl.remove_all_within edl.remove_all_invar by (auto simp: mg_ok_def subs_ok_def)
  moreover have "rm_ok (mg_rm mg) (mg_vdev_list mg) (mg_vdevs mg)"
    and "vlist_ok (md_minor (mg_des mg)) (vdev_objs (mg_sys mg)) (mg_vdev_list mg) (mg_vdevs mg)"
    using ok by (simp_all add: mg_ok_def)
  ultimately show ?thesis
    unfolding mg_ok_def list_destroy_vdev_components
    using vlist_ok_remove [OF _ p vdev_destroy_objs] rm_ok_remove [OF _ p l inj] by blast
qed

section \<open>Creation of a VIRT_DEV\<close>

text \<open>What \<open>kmalloc\<close> gives is not in use, and the memory of a description has room for its lists.\<close>

definition env_ok :: "call_env \<Rightarrow> 's mngdev_data \<Rightarrow> bool" where
  "env_ok env mg \<longleftrightarrow>
     (case env_vdev_des env of None \<Rightarrow> True | Some (p, raw) \<Rightarrow> mg_vdevs mg p = None \<and>
        (\<forall>t. length (res_alloc_index (vdd_res_type_data raw t)) = nat MODAC_RES_PER_VIRT_DEV_MAX_COUNT))
     \<and> (case env_vdev_data env of None \<Rightarrow> True | Some (q, raw) \<Rightarrow> vdev_objs (mg_sys mg) q = None)"

text \<open>A creation that fails leaves the device as it was.\<close>

lemma mng_create_vdev_cases:
  assumes env: "env_ok env mg" and create: "mng_create_vdev hws env vid name mg = (r, mg1)"
    and list: "set (mg_vdev_list mg) = dom (mg_vdevs mg)"
  shows "(\<exists>e. r = Inl e \<and> mg1 = mg) \<or>
    (\<exists>p q raw x d i j. r = Inr 0 \<and> env_vdev_des env = Some (p, raw) \<and> mg_vdevs mg p = None
      \<and> d = init_vdev_des mg vid name (raw\<lparr>vdd_id := vid\<rparr>)
      \<and> calc_table_indices (mg_sys mg) (vdd_minor d) = Inr (i, j)
      \<and> vdev_objs (mg_sys mg) q = None \<and> vdev_des x = p
      \<and> mg1 = mg\<lparr>mg_vdev_list := p # mg_vdev_list mg,
          mg_vdevs := (mg_vdevs mg)(p \<mapsto> des_init_dev (d\<lparr>vdd_priv := Some q\<rparr>)),
          mg_sys := (mg_sys mg)\<lparr>vdev_objs := (vdev_objs (mg_sys mg))(q \<mapsto> x),
            vdev_class := cstr (vdd_name d) # vdev_class (mg_sys mg),
            vdev_table := (vdev_table (mg_sys mg))(i := (vdev_table (mg_sys mg) i)(j := Some q))\<rparr>\<rparr>)"
proof (cases "env_vdev_des env")
  case None
  with create show ?thesis by (auto simp: mng_create_vdev_def list_create_vdev_def)
next
  case (Some pr)
  obtain p raw where pr: "pr = (p, raw)" by (cases pr)
  define d where "d = init_vdev_des mg vid name (raw\<lparr>vdd_id := vid\<rparr>)"
  have init: "init_vdev_des (mg\<lparr>mg_vdevs := a, mg_vdev_list := b\<rparr>) vid name (raw\<lparr>vdd_id := vid\<rparr>) = d" for a b
    by (simp add: d_def init_vdev_des_def)
  obtain ret d1 vs where c: "modac_vdev_create (env_vdev_data env) (env_device_create env) p d (mg_sys mg) = (ret, d1, vs)"
    by (cases "modac_vdev_create (env_vdev_data env) (env_device_create env) p d (mg_sys mg)") auto
  have fresh: "mg_vdevs mg p = None"
    and q: "\<forall>q raw. env_vdev_data env = Some (q, raw) \<longrightarrow> vdev_objs (mg_sys mg) q = None"
    using env Some pr by (auto simp: env_ok_def)
  then have upd: "(mg_vdevs mg)(p := None) = mg_vdevs mg" by (auto simp: fun_eq_iff)
  note run = mng_create_vdev_def list_create_vdev_def upd_vdev_def list_destroy_vdev_def Let_def init
  from modac_vdev_create_cases [OF q c] show ?thesis
  proof (elim disjE exE conjE)
    fix e assume "ret = Inl e" "vs = mg_sys mg"
    with create Some pr c upd show ?thesis by (auto simp: run)
  next
    fix i j q' qraw
    assume ret: "ret = Inr 0" and q': "env_vdev_data env = Some (q', qraw)"
      and ij: "calc_table_indices (mg_sys mg) (vdd_minor d) = Inr (i, j)"
      and d1: "d1 = des_init_dev (d\<lparr>vdd_priv := Some q'\<rparr>)"
      and vs: "vs = (mg_sys mg)\<lparr>vdev_objs := (vdev_objs (mg_sys mg))(q' \<mapsto> (vdev_init_dev (qraw\<lparr>vdev_des := p\<rparr>))\<lparr>vdev_devt := (vdd_major d, vdd_minor d)\<rparr>),
          vdev_class := cstr (vdd_name d) # vdev_class (mg_sys mg),
          vdev_table := (vdev_table (mg_sys mg))(i := (vdev_table (mg_sys mg) i)(j := Some q'))\<rparr>"
    define x where "x = (vdev_init_dev (qraw\<lparr>vdev_des := p\<rparr>))\<lparr>vdev_devt := (vdd_major d, vdd_minor d)\<rparr>"
    have x: "vdev_des x = p" by (simp add: x_def vdev_init_dev_def)
    have objs: "vdev_objs (mg_sys mg) q' = None" using q q' by blast
    have "r = Inr 0" "mg1 = mg\<lparr>mg_vdev_list := p # mg_vdev_list mg,
          mg_vdevs := (mg_vdevs mg)(p \<mapsto> d1), mg_sys := vs\<rparr>"
      using create Some pr c ret by (auto simp: run)
    with ij d1 vs [folded x_def] x objs Some pr fresh d_def show ?thesis by blast
  qed
qed

lemma list_find_vdev_Some: "list_find_vdev mg vid = Some p \<Longrightarrow> p \<in> set (mg_vdev_list mg) \<and> vdd_id (vdev_at mg p) = vid"
  by (auto simp: list_find_vdev_def find_Some_iff)

lemma list_find_vdev_None: "list_find_vdev mg vid = None \<longleftrightarrow> (\<forall>p\<in>set (mg_vdev_list mg). vdd_id (vdev_at mg p) \<noteq> vid)"
  by (auto simp: list_find_vdev_def find_None_iff)

lemma list_find_vdev_by_name_None: "list_find_vdev_by_name mg name = None \<longleftrightarrow>
    (\<forall>p\<in>set (mg_vdev_list mg). cstr (vdd_name (vdev_at mg p)) \<noteq> cstr name)"
  by (auto simp: list_find_vdev_by_name_def find_None_iff STRINGS_EQUAL_def)

lemma cstr_vdev_name: "length name \<le> 32 \<Longrightarrow> cstr (strncpy name (MODAC_DEVICE_MAX_NAME + 1)) = cstr name"
  by (rule cstr_strncpy) simp

lemma mg_ok_create_vdev:
  assumes ok: "mg_ok mg" and env: "env_ok env mg" and create: "mng_create_vdev hws env vid name mg = (r, mg1)"
    and vid: "1 \<le> id_owner vid" "id_owner vid \<le> 31" "list_find_vdev mg vid = None"
    and name: "list_find_vdev_by_name mg name = None" "length name \<le> 32"
  shows "mg_ok mg1"
proof -
  let ?l = "mg_vdev_list mg" and ?V = "mg_vdevs mg"
  have dom: "set ?l = dom ?V" using ok by (auto simp: mg_ok_def vlist_ok_def)
  from mng_create_vdev_cases [OF env create dom] show ?thesis
  proof (elim disjE exE conjE)
    fix e assume "mg1 = mg"
    with ok show ?thesis by simp
  next
    fix p q raw x d i j
    assume p: "?V p = None" and raw: "env_vdev_des env = Some (p, raw)"
      and d: "d = init_vdev_des mg vid name (raw\<lparr>vdd_id := vid\<rparr>)"
      and q: "vdev_objs (mg_sys mg) q = None" and x: "vdev_des x = p"
      and mg1: "mg1 = mg\<lparr>mg_vdev_list := p # ?l, mg_vdevs := ?V(p \<mapsto> des_init_dev (d\<lparr>vdd_priv := Some q\<rparr>)),
          mg_sys := (mg_sys mg)\<lparr>vdev_objs := (vdev_objs (mg_sys mg))(q \<mapsto> x),
            vdev_class := cstr (vdd_name d) # vdev_class (mg_sys mg),
            vdev_table := (vdev_table (mg_sys mg))(i := (vdev_table (mg_sys mg) i)(j := Some q))\<rparr>\<rparr>"
    define d1 where "d1 = des_init_dev (d\<lparr>vdd_priv := Some q\<rparr>)"
    have d1: "vdd_id d1 = vid" "vdd_minor d1 = md_minor (mg_des mg) + id_owner vid" "cstr (vdd_name d1) = cstr name"
      "vdd_priv d1 = Some q"
      and counts: "\<And>t. 0 \<le> t \<and> t < hw_res_def_count (mg_rm mg) \<Longrightarrow> res_alloc_count (vdd_res_type_data d1 t) = 0"
      and lens: "\<And>t. length (res_alloc_index (vdd_res_type_data d1 t)) = nat 32"
      using env raw cstr_vdev_name [OF name(2)]
      by (simp_all add: d1_def d des_init_dev_def init_vdev_des_def env_ok_def)
    have notin: "p \<notin> set ?l" using p by (auto simp: dom)
    have neq: "r \<noteq> p" if "r \<in> set ?l" for r using notin that by auto
    have "vdev_ok (md_minor (mg_des mg)) ((vdev_objs (mg_sys mg))(q \<mapsto> x)) p d1"
      using d1 vid x lens by (auto simp: vdev_ok_def)
    moreover have "vdev_ok minor ((vdev_objs (mg_sys mg))(q \<mapsto> x)) r e"
      if "vdev_ok minor (vdev_objs (mg_sys mg)) r e" for minor r e
      using that q by (auto simp: vdev_ok_def)
    ultimately have "vlist_ok (md_minor (mg_des mg)) ((vdev_objs (mg_sys mg))(q \<mapsto> x)) (p # ?l) (?V(p \<mapsto> d1))"
      using ok notin neq d1 vid(3) name(1)
      by (auto simp: mg_ok_def vlist_ok_def list_find_vdev_None list_find_vdev_by_name_None inj_on_def)
    moreover have "owns (mg_rm mg) d1" using counts by (auto simp: owns_def)
    then have "rm_ok (mg_rm mg) (p # ?l) (?V(p \<mapsto> d1))"
      using ok neq unfolding mg_ok_def rm_ok_def by (auto simp: Bex_def) metis
    moreover have "subs_ok (mg_dispatch mg) (p # ?l)" using ok by (auto simp: mg_ok_def subs_ok_def)
    ultimately show ?thesis by (simp add: mg_ok_def mg1 d1_def)
  qed
qed

lemma first_free_id_Some:
  assumes "first_free_id mg = Some vid"
  shows "list_find_vdev mg vid = None \<and> 1 \<le> id_owner vid \<and> id_owner vid \<le> 31"
proof -
  from find_SomeD [OF assms [unfolded first_free_id_def]]
  obtain n :: nat where "list_find_vdev mg vid = None" "vid = of_nat n" "1 \<le> n" "n < 32" by auto
  moreover from this have "uint (of_nat n :: u8) = int n"
    by (simp add: unsigned_of_nat take_bit_nat_eq_self_iff)
  ultimately show ?thesis by simp
qed

lemma get_vdev_ids_name: "length (ids_name (get_vdev_ids bs)) \<le> 32"
  by (simp add: get_vdev_ids_def)

lemma mg_ok_ioctl_create:
  assumes ok: "mg_ok mg" and env: "env_ok env mg"
  shows "mg_ok (snd (snd (mng_ioctl_create hws env m mg)))"
proof (cases "copy_from_user m 33")
  case (Some bs)
  note C = mg_ok_create_vdev [OF ok env _ _ _ _ _ get_vdev_ids_name]
  have pos: "1 \<le> id_owner v \<longleftrightarrow> v \<noteq> 0" for v :: u8
    using uint_ge_0 [of v] uint_0_iff [of v] by linarith
  show ?thesis
    using Some ok first_free_id_Some [of mg] C pos
    by (auto simp: mng_ioctl_create_def Let_def not_less split: option.splits prod.splits)
qed (use ok in \<open>simp add: mng_ioctl_create_def\<close>)

lemma mg_ok_ioctl_destroy:
  "mg_ok mg \<Longrightarrow> mg_ok (snd (snd (mng_ioctl_destroy hws m mg)))"
  using list_find_vdev_Some
  by (auto simp: mng_ioctl_destroy_def split: option.splits intro!: mg_ok_destroy_vdev)

section \<open>Allocation\<close>

lemma res_count_Inr:
  "modac_rm_get_res_count_for_type rm t = Inr n \<Longrightarrow> 0 \<le> t \<and> t < hw_res_def_count rm"
  by (simp add: modac_rm_get_res_count_for_type_def split: if_splits)

lemma set_owner_defs: "rm_hw_res_defs (snd (snd (modac_rm_alloc rm s w nm fx af))) = rm_hw_res_defs rm"
  by (auto simp: modac_rm_alloc_def Let_def set_owner_def split: sum.splits)

text \<open>The resources after an allocation by a VIRT_DEV, before it is entered in its list.\<close>

lemma rm_ok_alloc:
  assumes ok: "rm_ok rm l V" and p: "p \<in> set l"
    and alloc: "modac_rm_alloc rm s (id_owner (vdd_id (the (V p)))) nm fx af = (r, d, rm1)"
  shows "rm_ok rm1 l V \<and> (\<forall>v. d = Some v \<longrightarrow> modac_rm_get_owner rm1 v = Inr (id_owner (vdd_id (the (V p)))))"
proof -
  let ?w = "id_owner (vdd_id (the (V p)))"
  have wf: "rm_wf rm" and w: "?w \<noteq> NO_OWNER" using ok by (auto simp: rm_ok_def)
  note law = rmi.alloc_law [OF wf w alloc]
  have cnt: "hw_res_def_count rm1 = hw_res_def_count rm"
    using set_owner_defs [of rm s ?w nm fx af] by (simp add: alloc hw_res_def_count_def)
  have keep: "modac_rm_get_owner rm v = Inr u \<Longrightarrow> modac_rm_get_owner rm1 v = Inr u" for v u
    using rmi.alloc_keeps [OF wf w, of v u s nm fx af] by (simp add: alloc)
  have owners: "\<exists>r\<in>set l. u = id_owner (vdd_id (the (V r)))" if "modac_rm_get_owner rm1 v = Inr u" for v u
  proof (cases "modac_rm_get_owner rm v = Inr u")
    case True
    with ok show ?thesis unfolding rm_ok_def by blast
  next
    case False
    with that law have "u = ?w" by (cases r) (auto split: if_splits)
    with p show ?thesis by blast
  qed
  have "rm_wf rm1" using law by simp
  moreover have "\<forall>r\<in>set l. owns rm1 (the (V r))"
    using ok keep by (auto simp: rm_ok_def owns_def cnt)
  ultimately show ?thesis
    using law owners unfolding rm_ok_def by (cases r) auto
qed

lemma mg_ok_res_add:
  assumes ok: "mg_ok mg" and p: "p \<in> set (mg_vdev_list mg)"
    and own: "modac_rm_get_owner (mg_rm mg) v = Inr (id_owner (vdd_id (vdev_at mg p)))"
  shows "mg_ok (snd (vdev_on_res_add p v mg))"
proof -
  let ?t = "vd_type v" and ?d = "vdev_at mg p"
  let ?td = "vdd_res_type_data ?d ?t"
  let ?f = "\<lambda>d. d\<lparr>vdd_res_type_data := (vdd_res_type_data d)(?t :=
    \<lparr>res_alloc_count = res_alloc_count ?td + 1,
     res_alloc_index = (res_alloc_index ?td)[nat (res_alloc_count ?td) := vd_index v]\<rparr>)\<rparr>"
  have vp: "vdev_ok (md_minor (mg_des mg)) (vdev_objs (mg_sys mg)) p ?d" and op: "owns (mg_rm mg) ?d"
    using ok p by (auto simp: mg_ok_def vlist_ok_def rm_ok_def)
  have main: "mg_ok (upd_vdev p ?f mg)"
    if t: "0 \<le> ?t" "?t < hw_res_def_count (mg_rm mg)" and room: "res_alloc_count ?td < 32"
  proof -
    define V where "V = (mg_vdevs mg)(p \<mapsto> ?f ?d)"
    have new: "owns (mg_rm mg) (?f ?d)"
      unfolding owns_def
    proof (intro allI impI)
      fix t assume "0 \<le> t \<and> t < hw_res_def_count (mg_rm mg)"
      then have old: "0 \<le> res_alloc_count (vdd_res_type_data ?d t)" "res_alloc_count (vdd_res_type_data ?d t) \<le> 32"
        "\<And>j. 0 \<le> j \<Longrightarrow> j < res_alloc_count (vdd_res_type_data ?d t) \<Longrightarrow>
          modac_rm_get_owner (mg_rm mg) \<lparr>vd_type = t, vd_index = res_alloc_index (vdd_res_type_data ?d t) ! nat j\<rparr>
            = Inr (id_owner (vdd_id ?d))"
        using op by (auto simp: owns_def)
      have len: "length (res_alloc_index ?td) = 32" using vp by (simp add: vdev_ok_def)
      have v: "\<lparr>vd_type = ?t, vd_index = vd_index v\<rparr> = v" by simp
      show "0 \<le> res_alloc_count (vdd_res_type_data (?f ?d) t) \<and>
        res_alloc_count (vdd_res_type_data (?f ?d) t) \<le> 32 \<and>
        (\<forall>j. 0 \<le> j \<and> j < res_alloc_count (vdd_res_type_data (?f ?d) t) \<longrightarrow>
          modac_rm_get_owner (mg_rm mg) \<lparr>vd_type = t, vd_index = res_alloc_index (vdd_res_type_data (?f ?d) t) ! nat j\<rparr>
            = Inr (id_owner (vdd_id (?f ?d))))"
      proof (cases "t = ?t")
        case True
        have "modac_rm_get_owner (mg_rm mg) \<lparr>vd_type = ?t,
            vd_index = (res_alloc_index ?td)[nat (res_alloc_count ?td) := vd_index v] ! nat j\<rparr>
            = Inr (id_owner (vdd_id ?d))" if "0 \<le> j" "j < res_alloc_count ?td + 1" for j
        proof (cases "j = res_alloc_count ?td")
          case True
          moreover have "modac_rm_get_owner (mg_rm mg) \<lparr>vd_type = ?t, vd_index = vd_index v\<rparr> = Inr (id_owner (vdd_id ?d))"
            using own unfolding v .
          ultimately show ?thesis using that(1) room len by simp
        next
          case False
          then have "nat (res_alloc_count ?td) \<noteq> nat j" "j < res_alloc_count ?td" using that by auto
          with old(3) [of j] that(1) True show ?thesis by simp
        qed
        with True old room show ?thesis by simp
      next
        case False
        with old show ?thesis by simp
      qed
    qed
    have same: "vdd_id (the (V r)) = vdd_id (vdev_at mg r)"
      "cstr (vdd_name (the (V r))) = cstr (vdd_name (vdev_at mg r))"
      "owns (mg_rm mg) (vdev_at mg r) \<Longrightarrow> owns (mg_rm mg) (the (V r))"
      "vdev_ok minor objs r (vdev_at mg r) \<Longrightarrow> vdev_ok minor objs r (the (V r))" for r minor objs
      using new by (auto simp: V_def vdev_ok_def)
    have "dom V = dom (mg_vdevs mg)"
      using p ok by (auto simp: V_def mg_ok_def vlist_ok_def)
    with ok show ?thesis
      unfolding mg_ok_def vlist_ok_def rm_ok_def upd_vdev_def V_def [symmetric] by (simp add: same)
  qed
  show ?thesis
    using ok main res_count_Inr [of "mg_rm mg" ?t] unfolding vdev_on_res_add_def
    by (auto simp: Let_def not_le split: sum.splits)
qed

lemma mg_ok_ioctl_alloc:
  assumes ok: "mg_ok mg"
  shows "mg_ok (snd (snd (mng_ioctl_alloc m mg)))"
proof (cases "copy_from_user m 72")
  case (Some bs)
  let ?a = "get_ioctl_res bs"
  show ?thesis
  proof (cases "list_find_vdev mg (res_id_vdev ?a)")
    case None
    with Some ok show ?thesis by (simp add: mng_ioctl_alloc_def Let_def)
  next
    case found: (Some p)
    from list_find_vdev_Some [OF found] have p: "p \<in> set (mg_vdev_list mg)"
      and w: "vdd_id (vdev_at mg p) = res_id_vdev ?a" by auto
    obtain r d rm1 where alloc: "modac_rm_alloc (mg_rm mg) (mg_hw mg) (id_owner (res_id_vdev ?a))
        (res_resource_id ?a) (res_resource_real_index ?a) (res_arg_filter ?a) = (r, d, rm1)"
      by (cases "modac_rm_alloc (mg_rm mg) (mg_hw mg) (id_owner (res_id_vdev ?a))
        (res_resource_id ?a) (res_resource_real_index ?a) (res_arg_filter ?a)") auto
    from ok have rm: "rm_ok (mg_rm mg) (mg_vdev_list mg) (mg_vdevs mg)" by (simp add: mg_ok_def)
    from rm_ok_alloc [OF rm p, unfolded w, OF alloc]
    have ok1: "mg_ok (mg\<lparr>mg_rm := rm1\<rparr>)"
      and own: "\<And>v. d = Some v \<Longrightarrow> modac_rm_get_owner rm1 v = Inr (id_owner (res_id_vdev ?a))"
      using ok by (simp_all add: mg_ok_def)
    have "mg_ok (snd (vdev_on_res_add p v (mg\<lparr>mg_rm := rm1\<rparr>)))" if "d = Some v" for v
      using mg_ok_res_add [OF ok1, of p v] p own [OF that] w by simp
    with Some found alloc ok ok1 show ?thesis
      by (auto simp: mng_ioctl_alloc_def Let_def split: option.splits)
  qed
qed (use ok in \<open>simp add: mng_ioctl_alloc_def\<close>)

section \<open>Events, subscriptions, files\<close>

lemma upd_vdata_sel [simp]:
  "mg_vdev_list (upd_vdata q f mg) = mg_vdev_list mg" "mg_vdevs (upd_vdata q f mg) = mg_vdevs mg"
  "mg_dispatch (upd_vdata q f mg) = mg_dispatch mg" "mg_rm (upd_vdata q f mg) = mg_rm mg"
  "mg_hw (upd_vdata q f mg) = mg_hw mg" "mg_ref (upd_vdata q f mg) = mg_ref mg"
  "mg_des (upd_vdata q f mg) = mg_des mg" "mg_event_counters (upd_vdata q f mg) = mg_event_counters mg"
  by (simp_all add: upd_vdata_def)

lemma irq_process_sel [simp]:
  "mg_vdev_list (irq_process a p mg) = mg_vdev_list mg" "mg_vdevs (irq_process a p mg) = mg_vdevs mg"
  "mg_dispatch (irq_process a p mg) = mg_dispatch mg" "mg_rm (irq_process a p mg) = mg_rm mg"
  "mg_hw (irq_process a p mg) = mg_hw mg" "mg_event_counters (irq_process a p mg) = mg_event_counters mg"
  by (simp_all add: irq_process_def)

lemma mg_ok_irq_process:
  assumes ok: "mg_ok mg" and p: "p \<in> set (mg_vdev_list mg)"
  shows "mg_ok (irq_process a p mg)"
proof -
  from ok p obtain q where "vdd_priv (vdev_at mg p) = Some q"
    by (auto simp: mg_ok_def vlist_ok_def vdev_ok_def)
  then show ?thesis
    unfolding irq_process_def
    by (intro mg_ok_upd_vdata [OF ok _ p])
      (auto simp: modac_vdev_notify_def modac_vdev_put_cb_def split: hw_event.splits prod.splits)
qed

lemma mg_ok_irq_fold:
  "mg_ok mg \<Longrightarrow> set ps \<subseteq> set (mg_vdev_list mg) \<Longrightarrow> mg_ok (fold (irq_process a) ps mg)"
  by (induction ps arbitrary: mg) (simp_all add: mg_ok_irq_process)

lemma mg_ok_process_event [modac_wf]: "mg_ok mg \<Longrightarrow> mg_ok (modac_mngdev_process_event a mg)"
  unfolding modac_mngdev_process_event_def Let_def for_all_subscribers_fold
  by (rule mg_ok_irq_fold) (auto simp: mg_ok_def subs_ok_def)

lemma mg_ok_isr [modac_wf]:
  assumes "mg_ok mg"
  shows "mg_ok (modac_mngdev_isr hws mg)"
proof -
  have "mg_ok (fold modac_mngdev_process_event evs mg)" if "mg_ok mg" for evs and mg :: "'a mngdev_data"
    using that by (induction evs arbitrary: mg) (auto intro: mg_ok_process_event)
  with assms show ?thesis by (auto simp: modac_mngdev_isr_def split: prod.splits)
qed

lemma mg_ok_dispatch:
  "mg_ok mg \<Longrightarrow> subs_ok l (mg_vdev_list mg) \<Longrightarrow> mg_ok (mg\<lparr>mg_dispatch := l\<rparr>)"
  by (simp add: mg_ok_def)

lemma subs_ok_upd:
  assumes "subs_ok disp l" and "p \<in> set l"
  shows "subs_ok (snd (event_dispatch_list_add disp p e)) l"
    "subs_ok (event_dispatch_list_remove disp p e) l" "subs_ok (event_dispatch_list_remove_all disp p) l"
proof -
  have d: "dispatch_ok disp" and s: "\<And>f. set (subscribers disp f) \<subseteq> set l"
    using assms by (auto simp: subs_ok_def)
  show "subs_ok (snd (event_dispatch_list_add disp p e)) l"
    using edl.add_invar [OF d] edl.add_within [OF d s assms(2)] by (simp add: subs_ok_def)
  show "subs_ok (event_dispatch_list_remove disp p e) l"
    using edl.remove_invar [OF d] edl.remove_within [OF d s] by (simp add: subs_ok_def)
  show "subs_ok (event_dispatch_list_remove_all disp p) l"
    using edl.remove_all_invar [OF d] edl.remove_all_within [OF d s] by (auto simp: subs_ok_def)
qed

lemma mg_ok_remove_all:
  "mg_ok mg \<Longrightarrow> p \<in> set (mg_vdev_list mg) \<Longrightarrow> mg_ok (mngdev_event_dispatch_list_remove_all hws p mg)"
  by (auto simp: mngdev_event_dispatch_list_remove_all_def mg_ok_def intro: subs_ok_upd)

lemma mg_ok_subscribe [modac_wf]:
  assumes "mg_ok mg" and "p \<in> set (mg_vdev_list mg)"
  shows "mg_ok (snd (modac_c_vdev_subscribe hws p event action mg))"
proof -
  from assms have s: "subs_ok (mg_dispatch mg) (mg_vdev_list mg)" by (simp add: mg_ok_def)
  have "subs_ok l (mg_vdev_list mg)" if "event_dispatch_list_add (mg_dispatch mg) p event = (r, l)" for r l
    using subs_ok_upd(1) [OF s assms(2), of event] that by simp
  then show ?thesis
    using assms(1) s subs_ok_upd(2,3) [OF s assms(2)]
    by (auto simp: modac_c_vdev_subscribe_def intro!: mg_ok_dispatch split: prod.splits sum.splits if_splits)
qed

lemma mg_ok_ioctl_hw: "mg_ok mg \<Longrightarrow> mg_ok (snd (snd (mng_ioctl_hw hws env cmd m mg)))"
  by (auto simp: mng_ioctl_hw_def Let_def split: option.splits sum.splits prod.splits)

lemma mg_ok_ioctl_locked:
  assumes "mg_ok mg" and "env_ok env mg"
  shows "mg_ok (snd (snd (mng_ioctl_locked hws env cmd m mg)))"
proof -
  have "snd (snd (mng_ioctl_find m mg)) = mg" "snd (snd (mng_ioctl_config m mg)) = mg"
    by (auto simp: mng_ioctl_find_def mng_ioctl_config_def Let_def split: option.splits)
  with assms show ?thesis
    by (simp add: mng_ioctl_locked_def mg_ok_ioctl_hw mg_ok_ioctl_create mg_ok_ioctl_destroy mg_ok_ioctl_alloc
        )
qed

lemma env_ok_frame [simp]: "env_ok env (mg\<lparr>mg_ref := r\<rparr>) = env_ok env mg"
  by (auto simp: env_ok_def split: option.splits)

lemma mngdev_devref_lock_Some:
  "mngdev_devref_lock mg = Some (r, mg1) \<Longrightarrow> \<exists>ref. mg1 = mg\<lparr>mg_ref := ref\<rparr>"
  by (auto simp: mngdev_devref_lock_def split: option.splits if_splits)

lemma mg_ok_unlocked_ioctl [modac_wf]:
  assumes ok: "mg_ok mg" and env: "env_ok env mg"
    and run: "mngdev_unlocked_ioctl hws env cmd m mg = Some (r, m1, mg1)"
  shows "mg_ok mg1"
proof -
  from run obtain l mg0 where lock: "mngdev_devref_lock mg = Some (l, mg0)"
    by (auto simp: mngdev_unlocked_ioctl_def split: option.splits)
  with mngdev_devref_lock_Some ok env have "mg_ok mg0" "env_ok env mg0" by fastforce+
  with mg_ok_ioctl_locked [OF this, of hws cmd m] run lock show ?thesis
    by (auto simp: mngdev_unlocked_ioctl_def mngdev_devref_unlock_def split: sum.splits prod.splits)
qed

lemma mg_ok_on_open [modac_wf]:
  assumes "mg_ok mg" and "p \<in> set (mg_vdev_list mg)" and "modac_c_vdev_on_open p i k mg = Some (r, mg1)"
  shows "mg_ok mg1"
  using assms mg_ok_upd_vdev [of "mg\<lparr>mg_ref := a\<rparr>" p for a]
  by (auto simp: modac_c_vdev_on_open_def modac_mng_check_on_open_def split: option.splits sum.splits)

lemma mg_ok_init_res [simp]: "mg_ok (modac_c_vdev_init_res hws p mg) = mg_ok mg"
  by (simp add: modac_c_vdev_init_res_def)

section \<open>Closing a VIRT_DEV\<close>

lemma init_res_sel [simp]:
  "mg_vdev_list (modac_c_vdev_init_res hws p mg) = mg_vdev_list mg"
  "mg_vdevs (modac_c_vdev_init_res hws p mg) = mg_vdevs mg"
  "mg_ref (modac_c_vdev_init_res hws p mg) = mg_ref mg"
  by (simp_all add: modac_c_vdev_init_res_def)

lemma remove_all_sel [simp]:
  "mg_vdev_list (mngdev_event_dispatch_list_remove_all hws p mg) = mg_vdev_list mg"
  "mg_vdevs (mngdev_event_dispatch_list_remove_all hws p mg) = mg_vdevs mg"
  "mg_ref (mngdev_event_dispatch_list_remove_all hws p mg) = mg_ref mg"
  by (simp_all add: mngdev_event_dispatch_list_remove_all_def)

text \<open>The state at the \<open>drvdat_put\<close> of a close.\<close>

definition close_prepare :: "'s modac_hw_support_def \<Rightarrow> ptr \<Rightarrow> 's mngdev_data \<Rightarrow> 's mngdev_data" where
  "close_prepare hws p mg =
     (let mg = upd_vdev p (\<lambda>d. d\<lparr>vdd_usage_counter := vdd_usage_counter d - 1\<rparr>) mg in
      if vdd_usage_counter (vdev_at mg p) < 1 then
        mngdev_event_dispatch_list_remove_all hws p
          (if vdd_leave_res_set_on_last_close (vdev_at mg p) = 0 \<and> ref_ptr (mg_ref mg) \<noteq> None
           then modac_c_vdev_init_res hws p mg else mg)
      else mg)"

lemma on_close_eq: "modac_c_vdev_on_close hws p i mg = (case devref_lock (mg_ref mg) of None \<Rightarrow> None
   | Some ref \<Rightarrow> drvdat_put hws (Some i) (Some p) (close_prepare hws p (mg\<lparr>mg_ref := ref\<rparr>)))"
  by (cases "devref_lock (mg_ref mg)") (simp_all add: modac_c_vdev_on_close_def close_prepare_def Let_def)

lemma mg_ok_close_prepare:
  assumes "mg_ok mg" and p: "p \<in> set (mg_vdev_list mg)"
  shows "mg_ok (close_prepare hws p mg) \<and> mg_vdev_list (close_prepare hws p mg) = mg_vdev_list mg"
proof -
  let ?f = "\<lambda>d. d\<lparr>vdd_usage_counter := vdd_usage_counter d - 1\<rparr>"
  have ok: "mg_ok (upd_vdev p ?f mg)" by (rule mg_ok_upd_vdev [OF assms]) simp
  have p': "p \<in> set (mg_vdev_list (upd_vdev p ?f mg))" "mg_vdev_list (upd_vdev p ?f mg) = mg_vdev_list mg"
    using p by (simp_all add: upd_vdev_def)
  show ?thesis
    using ok p' by (simp add: close_prepare_def Let_def mg_ok_remove_all)
qed

lemma mg_ok_destroy_list:
  "mg_ok mg \<Longrightarrow> set ps \<subseteq> set (mg_vdev_list mg) \<Longrightarrow> distinct ps \<Longrightarrow>
   mg_ok (fold (list_destroy_vdev hws True) ps mg) \<and>
   set (mg_vdev_list (fold (list_destroy_vdev hws True) ps mg)) = set (mg_vdev_list mg) - set ps"
proof (induction ps arbitrary: mg)
  case (Cons p ps)
  let ?mg = "list_destroy_vdev hws True p mg"
  have "distinct (mg_vdev_list mg)" using Cons.prems(1) by (simp add: mg_ok_def vlist_ok_def)
  then have "set (mg_vdev_list ?mg) = set (mg_vdev_list mg) - {p}" by (simp add: list_destroy_vdev_components)
  with Cons.IH [of ?mg] Cons.prems show ?case by (auto simp: mg_ok_destroy_vdev)
qed simp

lemma mg_ok_destroy_now:
  assumes "mg_ok mg"
  shows "mg_ok (mngdev_destroy_now hws mg) \<and> mg_vdev_list (mngdev_destroy_now hws mg) = []
    \<and> mg_vdevs (mngdev_destroy_now hws mg) = Map.empty \<and> (\<forall>e. subscribers (mg_dispatch (mngdev_destroy_now hws mg)) e = [])
    \<and> (\<forall>v w. modac_rm_get_owner (mg_rm (mngdev_destroy_now hws mg)) v \<noteq> Inr w)"
proof -
  have "distinct (mg_vdev_list mg)" using assms by (simp add: mg_ok_def vlist_ok_def)
  from mg_ok_destroy_list [OF assms subset_refl this, of hws]
  have ok: "mg_ok (mngdev_destroy_now hws mg)" and l: "mg_vdev_list (mngdev_destroy_now hws mg) = []"
    by (simp_all add: mngdev_destroy_now_def list_stop_and_destroy_vdevs_def Let_def)
  from ok show ?thesis
    by (auto simp: l mg_ok_def vlist_ok_def rm_ok_def subs_ok_def)
qed

lemma mg_ok_drvdat_put:
  assumes "mg_ok mg" and "\<And>p. vdes = Some p \<Longrightarrow> p \<in> set (mg_vdev_list mg)"
    and "drvdat_put hws inod vdes mg = Some (b, mg1)"
  shows "mg_ok mg1"
proof -
  have "mg_ok (upd_vdev p (\<lambda>d. d\<lparr>vdd_direct_access_denied := True\<rparr>) (mg\<lparr>mg_ref := ref\<rparr>))" if "vdes = Some p" for p ref
    using assms(1) assms(2) [OF that] by (intro mg_ok_upd_vdev) auto
  with assms show ?thesis
    by (auto simp: drvdat_put_def Let_def mg_ok_destroy_now split: prod.splits option.splits if_splits)
qed

lemma mg_ok_on_close [modac_wf]:
  assumes "mg_ok mg" and "p \<in> set (mg_vdev_list mg)" and "modac_c_vdev_on_close hws p i mg = Some (b, mg1)"
  shows "mg_ok mg1"
proof -
  from assms(3) obtain ref where
    put: "drvdat_put hws (Some i) (Some p) (close_prepare hws p (mg\<lparr>mg_ref := ref\<rparr>)) = Some (b, mg1)"
    by (auto simp: on_close_eq split: option.splits)
  have "mg_ok (mg\<lparr>mg_ref := ref\<rparr>)" "p \<in> set (mg_vdev_list (mg\<lparr>mg_ref := ref\<rparr>))" using assms by simp_all
  from mg_ok_close_prepare [OF this, of hws] assms(2) show ?thesis
    by (intro mg_ok_drvdat_put [OF _ _ put]) simp_all
qed

end
