(* ===== verification/Mng_System.thy ===== *)
theory Mng_System
  imports Mng_Invariants
begin

text \<open>
  The MNG_DEV as a system: its steps (the \<open>ioctl\<close> calls, the files of its VIRT_DEVs opening,
  calling in and closing, readers taking data, the interrupt), the states they reach and the properties of the
  MNG_DEV. A VIRT_DEV's file acts here as long as its VIRT_DEV exists.
\<close>

section \<open>Steps\<close>

inductive mng_step :: "'s modac_hw_support_def \<Rightarrow> 's mngdev_data \<Rightarrow> 's mngdev_data \<Rightarrow> bool"
  for hws :: "'s modac_hw_support_def" where
  ioctl: "env_ok env mg \<Longrightarrow> mngdev_unlocked_ioctl hws env cmd m mg = Some (r, m1, mg1) \<Longrightarrow> mng_step hws mg mg1"
| vdev_open: "p \<in> set (mg_vdev_list mg) \<Longrightarrow> modac_c_vdev_on_open p i k mg = Some (r, mg1) \<Longrightarrow> mng_step hws mg mg1"
| vdev_close: "p \<in> set (mg_vdev_list mg) \<Longrightarrow> modac_c_vdev_on_close hws p i mg = Some (b, mg1) \<Longrightarrow> mng_step hws mg mg1"
| vdev_subscribe: "p \<in> set (mg_vdev_list mg) \<Longrightarrow>
    mng_step hws mg (snd (modac_c_vdev_subscribe hws p event action mg))"
| vdev_ioctl: "p \<in> set (mg_vdev_list mg) \<Longrightarrow>
    mng_step hws mg (snd (snd (modac_c_vdev_do_ioctl hws env p vres cmd m mg)))"
| vdev_direct: "p \<in> set (mg_vdev_list mg) \<Longrightarrow>
    mng_step hws mg (snd (snd (modac_c_vdev_do_direct_ioctl hws cmd m mg)))"
| vdev_data: "p \<in> set (mg_vdev_list mg) \<Longrightarrow> vdd_priv (vdev_at mg p) = Some q \<Longrightarrow>
    read_get (the (vdev_objs (mg_sys mg) q)) = (n, bs, v) \<Longrightarrow> mng_step hws mg (upd_vdata q (\<lambda>_. v) mg)"
| isr: "mng_step hws mg (modac_mngdev_isr hws mg)"

inductive_cases mng_stepE: "mng_step hws mg mg1"

abbreviation mng_reachable :: "'s modac_hw_support_def \<Rightarrow> 's mngdev_data \<Rightarrow> 's mngdev_data \<Rightarrow> bool" where
  "mng_reachable hws mg0 mg \<equiv> (mng_step hws)\<^sup>*\<^sup>* mg0 mg"

lemma read_get_des: "read_get v = (n, bs, v1) \<Longrightarrow> vdev_des v1 = vdev_des v"
  by (auto simp: read_get_def Let_def split: prod.splits if_splits)

lemma mg_ok_data:
  assumes ok: "mg_ok mg" and p: "p \<in> set (mg_vdev_list mg)" "vdd_priv (vdev_at mg p) = Some q"
    and get: "read_get (the (vdev_objs (mg_sys mg) q)) = (n, bs, v)"
  shows "mg_ok (upd_vdata q (\<lambda>_. v) mg)"
proof -
  let ?x = "the (vdev_objs (mg_sys mg) q)"
  have "v\<lparr>vdev_des := vdev_des ?x\<rparr> = v" unfolding read_get_des [OF get, symmetric] by simp
  then have eq: "upd_vdata q (\<lambda>x. v\<lparr>vdev_des := vdev_des x\<rparr>) mg = upd_vdata q (\<lambda>_. v) mg"
    by (simp only: upd_vdata_def)
  show ?thesis unfolding eq [symmetric] by (rule mg_ok_upd_vdata [OF ok _ p]) simp
qed

lemma mg_ok_vdev_ioctl: "mg_ok mg \<Longrightarrow> mg_ok (snd (snd (modac_c_vdev_do_ioctl hws env p vres cmd m mg)))"
  by (simp add: modac_c_vdev_do_ioctl_def Let_def split: option.split prod.split)

lemma mg_ok_vdev_direct: "mg_ok mg \<Longrightarrow> mg_ok (snd (snd (modac_c_vdev_do_direct_ioctl hws cmd m mg)))"
  by (simp add: modac_c_vdev_do_direct_ioctl_def split: option.split prod.split)

lemma mg_ok_step: "mng_step hws mg mg1 \<Longrightarrow> mg_ok mg \<Longrightarrow> mg_ok mg1"
  by (induction rule: mng_step.induct)
    (rule mg_ok_unlocked_ioctl mg_ok_on_open mg_ok_on_close mg_ok_subscribe mg_ok_vdev_ioctl
      mg_ok_vdev_direct mg_ok_data mg_ok_isr; assumption)+

lemma mg_ok_reachable: "mng_reachable hws mg0 mg \<Longrightarrow> mg_ok mg0 \<Longrightarrow> mg_ok mg"
  by (induction rule: rtranclp_induct) (auto intro: mg_ok_step)

lemma mg_ok_init:
  assumes "modac_rm_init ok defs = Inr rm"
  shows "mg_ok (mngdev_init_dev des hw rm vs)"
proof -
  have "rm_agrees (rm, Map.empty)" by (rule rm_agrees_init [OF assms])
  then show ?thesis
    by (auto simp: mg_ok_def mngdev_init_dev_def vlist_ok_def rm_ok_def subs_ok_def rm_agrees_def)
qed

section \<open>An instance for the witnesses\<close>

text \<open>A hardware support that counts its calls, and a MNG_DEV with two pulse generators.\<close>

definition hws_ex :: "unit modac_hw_support_def" where
  "hws_ex = \<lparr>hw_init = (\<lambda>_ s. (Inr 0, [], s)), hw_end = (\<lambda>s. s), hw_on_subscribe_change = (\<lambda>s _. (Inr 0, s)),
     hw_init_res = (\<lambda>s _ _. (Inr 0, s)), hw_isr = (\<lambda>s. ([Notify 258], s)),
     hw_ioctl = Some (\<lambda>s _ _ m. (Inr 0, m, s)), hw_direct_ioctl = None, hw_vdev_mmap_ro = None\<rparr>"

definition mdes_ex :: modac_mngdev_des where
  "mdes_ex = \<lparr>md_major = 240, md_minor = 0, md_io_start = Some 1, md_io_start_phys = 0, md_io_size = 65536,
     md_name = [109], md_hw_support_hint1 = -1\<rparr>"

definition mg_ex :: "unit mngdev_data" where
  "mg_ex = mngdev_init_dev mdes_ex () two_pulsegens_rm vs_ex"

lemma mg_ok_ex: "mg_ok mg_ex"
  unfolding mg_ex_def by (rule mg_ok_init [OF two_pulsegens_init])

definition raw_des_ex :: modac_vdev_des where
  "raw_des_ex = des_ex\<lparr>vdd_res_type_data := (\<lambda>_. \<lparr>res_alloc_count = 9, res_alloc_index = replicate 32 0\<rparr>)\<rparr>"

definition env_ex :: call_env where
  "env_ex = \<lparr>env_access_ok = (\<lambda>_. True), env_vdev_des = Some (100, raw_des_ex),
     env_vdev_data = Some (200, vdev_ex), env_device_create = None,
     env_stack = \<lparr>vd_type = 77, vd_index = 77\<rparr>\<rparr>"

lemma env_ok_ex: "env_ok env_ex mg_ex"
  by (simp add: env_ok_def env_ex_def mg_ex_def mngdev_init_dev_def vs_ex_def raw_des_ex_def)

text \<open>The MNG_DEV after a first VIRT_DEV with id 1 and the name \<open>v\<close> was created.\<close>

definition mg_ex1 :: "unit mngdev_data" where
  "mg_ex1 = snd (mng_create_vdev hws_ex env_ex 1 [118] mg_ex)"

lemmas ex_simps = mg_ex1_def mg_ex_def mngdev_init_dev_def mng_create_vdev_def list_create_vdev_def env_ex_def
  upd_vdev_def init_vdev_des_def Let_def modac_vdev_create_def calc_table_indices_def vs_ex_def mdes_ex_def
  signed_modulo_int_def signed_divide_int_def dev_exists_for_vdev_class_def strncpy_def cstr_def
  des_init_dev_def vdev_cleanup_def raw_des_ex_def des_ex_def

lemma mg_ex1_list: "mg_vdev_list mg_ex1 = [100]" "mg_vdevs mg_ex1 100 \<noteq> None" "vdd_id (vdev_at mg_ex1 100) = 1"
  "vdd_usage_counter (vdev_at mg_ex1 100) = 0" "mg_rm mg_ex1 = two_pulsegens_rm"
  by (simp_all add: ex_simps)

lemma mg_ok_ex1: "mg_ok mg_ex1"
proof -
  obtain r mg1 where c: "mng_create_vdev hws_ex env_ex 1 [118] mg_ex = (r, mg1)" by (cases "mng_create_vdev hws_ex env_ex 1 [118] mg_ex")
  have "mg_ok mg1"
    by (rule mg_ok_create_vdev [OF mg_ok_ex env_ok_ex c])
      (simp_all add: list_find_vdev_def list_find_vdev_by_name_def mg_ex_def mngdev_init_dev_def)
  then show ?thesis by (simp add: mg_ex1_def c)
qed

section \<open>Properties\<close>

lemma mg_ok_count:
  assumes "mg_ok mg"
  shows "length (mg_vdev_list mg) \<le> 31"
proof -
  let ?f = "\<lambda>p. id_owner (vdd_id (vdev_at mg p))"
  have d: "distinct (mg_vdev_list mg)" and inj: "inj_on ?f (set (mg_vdev_list mg))"
    and range: "?f ` set (mg_vdev_list mg) \<subseteq> {1..31}"
    using assms by (auto simp: mg_ok_def vlist_ok_def vdev_ok_def inj_on_def)
  have "card (set (mg_vdev_list mg)) = card (?f ` set (mg_vdev_list mg))" using inj by (simp add: card_image)
  also have "\<dots> \<le> card {1..31::int}" using range by (intro card_mono) auto
  finally show ?thesis using d by (simp add: distinct_card)
qed


lemma mng_step_ex: "mng_step hws_ex mg_ex (modac_mngdev_isr hws_ex mg_ex)"
  by (rule mng_step.isr)


lemma vres_desc_owned:
  assumes "mg_ok mg" and "p \<in> set (mg_vdev_list mg)"
    and "vd_type (mngdev_vdev_get_vres_desc mg (vdev_at mg p) a x) \<noteq> MODAC_RES_TYPE_NONE"
  shows "modac_rm_get_owner (mg_rm mg) (mngdev_vdev_get_vres_desc mg (vdev_at mg p) a x)
    = Inr (id_owner (vdd_id (vdev_at mg p)))"
proof -
  have "owns (mg_rm mg) (vdev_at mg p)" using assms(1,2) by (simp add: mg_ok_def rm_ok_def)
  with assms(3) show ?thesis
    by (auto simp: mngdev_vdev_get_vres_desc_def owns_def Let_def split: if_splits)
qed


text \<open>A VIRT_DEV with one resource, reached by two \<open>ioctl\<close> calls.\<close>

definition create_args :: "u8 \<Rightarrow> u8 \<Rightarrow> umem" where
  "create_args vid ch = (\<lambda>i. Some (if i = 0 then vid else if i = 1 then ch else 0))"

definition alloc_args :: "u8 \<Rightarrow> umem" where
  "alloc_args vid = (\<lambda>i. Some (if i = 0 then vid else if i = 1 then 112 else if 36 \<le> i \<and> i < 40 then 255 else 0))"

definition env_none :: call_env where
  "env_none = env_ex\<lparr>env_vdev_des := None, env_vdev_data := None\<rparr>"

definition ioctl_ex :: "call_env \<Rightarrow> u32 \<Rightarrow> umem \<Rightarrow> unit mngdev_data \<Rightarrow> unit mngdev_data" where
  "ioctl_ex env cmd m mg = snd (snd (the (mngdev_unlocked_ioctl hws_ex env cmd m mg)))"

definition st_a :: "unit mngdev_data" where "st_a = ioctl_ex env_ex MNG_DEV_IOC_CREATE (create_args 1 118) mg_ex"
definition st_b :: "unit mngdev_data" where "st_b = ioctl_ex env_none MNG_DEV_IOC_ALLOC (alloc_args 1) st_a"

lemma ioctl_numbers:
  "IOC_TYPE 0x4021F001 = MNG_DEV_IOC_MAGIC" "IOC_NR 0x4021F001 = 1"
  "IOC_TYPE 0x4048F003 = MNG_DEV_IOC_MAGIC" "IOC_NR 0x4048F003 = 3"
  by (simp_all add: IOC_TYPE_def IOC_NR_def)

lemma ioctl_ex_cmds:
  assumes "ref_mtx (mg_ref mg) = False" "ref_ptr (mg_ref mg) \<noteq> None" "env_access_ok env = (\<lambda>_. True)"
  shows "mngdev_unlocked_ioctl hws env MNG_DEV_IOC_CREATE m mg =
    (case mng_ioctl_create hws env m (mg\<lparr>mg_ref := (mg_ref mg)\<lparr>ref_mtx := True\<rparr>\<rparr>) of
       (r, m1, mg1) \<Rightarrow> Some (r, m1, mngdev_devref_unlock mg1))"
    "mngdev_unlocked_ioctl hws env MNG_DEV_IOC_ALLOC m mg =
    (case mng_ioctl_alloc m (mg\<lparr>mg_ref := (mg_ref mg)\<lparr>ref_mtx := True\<rparr>\<rparr>) of
       (r, m1, mg1) \<Rightarrow> Some (r, m1, mngdev_devref_unlock mg1))"
  using assms by (auto simp: mngdev_unlocked_ioctl_def mngdev_devref_lock_def devref_lock_def mng_ioctl_locked_def
      mng_cmds ioctl_numbers ioctl_access_denied_def split: option.splits)

lemma ioctl_ex_reachable:
  assumes "mng_reachable hws_ex mg_ex mg" "ref_mtx (mg_ref mg) = False" "ref_ptr (mg_ref mg) \<noteq> None"
    and "env_ok env mg" "env_access_ok env = (\<lambda>_. True)" and "cmd = MNG_DEV_IOC_CREATE \<or> cmd = MNG_DEV_IOC_ALLOC"
  shows "mng_reachable hws_ex mg_ex (ioctl_ex env cmd m mg)"
proof -
  from assms(6) ioctl_ex_cmds [OF assms(2,3,5), of hws_ex m]
  obtain r m1 mg1 where *: "mngdev_unlocked_ioctl hws_ex env cmd m mg = Some (r, m1, mg1)"
    by (auto split: prod.splits)
  from mng_step.ioctl [OF assms(4) *] assms(1) * show ?thesis by (simp add: ioctl_ex_def)
qed

lemma create_args_copy: "copy_from_user (create_args vid ch) 33 = Some (vid # ch # replicate 31 0)"
  by (simp add: copy_from_user_def umem_bytes_def create_args_def upt_rec numeral_nat)

lemma create_args_ids: "get_vdev_ids (vid # ch # replicate 31 0) = \<lparr>ids_id = vid, ids_name = ch # replicate 31 0\<rparr>"
  by (simp add: get_vdev_ids_def byte_at_def)

lemma mg_ex_ref: "ref_mtx (mg_ref mg_ex) = False" "ref_ptr (mg_ref mg_ex) \<noteq> None" "env_access_ok env_ex = (\<lambda>_. True)"
  "env_access_ok env_none = (\<lambda>_. True)"
  by (simp_all add: mg_ex_def mngdev_init_dev_def devref_init_def env_ex_def env_none_def)

lemma st_a_facts:
  "mg_vdev_list st_a = [100]" "vdd_id (vdev_at st_a 100) = 1" "vdd_usage_counter (vdev_at st_a 100) = 0"
  "vdd_res_type_data (vdev_at st_a 100) 0 = \<lparr>res_alloc_count = 0, res_alloc_index = replicate 32 0\<rparr>"
  "mg_rm st_a = two_pulsegens_rm" "ref_mtx (mg_ref st_a) = False" "ref_ptr (mg_ref st_a) \<noteq> None"
  unfolding st_a_def ioctl_ex_def ioctl_ex_cmds(1) [OF mg_ex_ref(1-3)]
  by (simp_all add: mng_ioctl_create_def create_args_copy create_args_ids mngdev_devref_unlock_def list_find_vdev_def
      list_find_vdev_by_name_def ex_simps hw_res_def_count_def two_pulsegens_simps devref_unlock_def devref_init_def)

lemma alloc_args_copy: "copy_from_user (alloc_args vid) 72 =
    Some (vid # 112 # replicate 34 0 @ replicate 4 255 @ replicate 32 0)"
  by (simp add: copy_from_user_def umem_bytes_def alloc_args_def upt_rec numeral_nat)

lemma int_at_alloc:
  "int_at (vid # 112 # replicate 34 0 @ replicate 4 255 @ replicate 32 0) 36 = -1"
  "n < 8 \<Longrightarrow> int_at (vid # 112 # replicate 34 0 @ replicate 4 255 @ replicate 32 0) (40 + 4 * n) = 0"
  by (simp_all add: int_at_def u32_at_def nth_append nth_Cons')

lemma alloc_args_res: "get_ioctl_res (vid # 112 # replicate 34 0 @ replicate 4 255 @ replicate 32 0) =
    \<lparr>res_id_vdev = vid, res_resource_id = 112 # replicate 31 0, res_resource_real_index = -1,
     res_arg_filter = replicate 8 0\<rparr>"
  by (auto simp: get_ioctl_res_def byte_at_def int_at_alloc list_eq_iff_nth_eq)

lemma alloc_pulsegen:
  "modac_rm_alloc two_pulsegens_rm () 1 (112 # replicate 31 0) (-1) af =
     (Inr 1, Some \<lparr>vd_type = 0, vd_index = 1\<rparr>, set_owner two_pulsegens_rm 1 1)"
  by (simp add: modac_rm_alloc_def two_pulsegens_simps)

lemma st_b_alloc:
  "mng_ioctl_alloc (alloc_args 1) (st_a\<lparr>mg_ref := ref\<rparr>) =
     (Inr 1, alloc_args 1, upd_vdev 100 (\<lambda>d. d\<lparr>vdd_res_type_data := (vdd_res_type_data d)(0 :=
        \<lparr>res_alloc_count = 1, res_alloc_index = (replicate 32 0)[0 := 1]\<rparr>)\<rparr>)
      (st_a\<lparr>mg_ref := ref, mg_rm := set_owner two_pulsegens_rm 1 1\<rparr>))"
proof -
  have count: "modac_rm_get_res_count_for_type (set_owner two_pulsegens_rm 1 1) 0 = Inr 2"
    by (simp add: modac_rm_get_res_count_for_type_def two_pulsegens_simps)
  show ?thesis
    by (simp add: mng_ioctl_alloc_def alloc_args_copy alloc_args_res list_find_vdev_def st_a_facts alloc_pulsegen
        vdev_on_res_add_def count [unfolded One_nat_def] upd_vdev_def Let_def)
qed

lemma st_b_eq: "st_b = mngdev_devref_unlock (upd_vdev 100 (\<lambda>d. d\<lparr>vdd_res_type_data := (vdd_res_type_data d)(0 :=
        \<lparr>res_alloc_count = 1, res_alloc_index = (replicate 32 0)[0 := 1]\<rparr>)\<rparr>)
      (st_a\<lparr>mg_ref := (mg_ref st_a)\<lparr>ref_mtx := True\<rparr>, mg_rm := set_owner two_pulsegens_rm 1 1\<rparr>))"
  unfolding st_b_def ioctl_ex_def ioctl_ex_cmds(2) [OF st_a_facts(6,7) mg_ex_ref(4)] by (simp add: st_b_alloc)

lemma st_b_facts:
  "mg_vdev_list st_b = [100]"
  "mngdev_vdev_get_vres_desc st_b (vdev_at st_b 100) \<lparr>vres_type = 0, vres_index = 0\<rparr> x = \<lparr>vd_type = 0, vd_index = 1\<rparr>"
proof -
  have "hw_res_def_count (mg_rm st_b) = 1"
    by (simp add: st_b_eq mngdev_devref_unlock_def upd_vdev_def two_pulsegens_simps)
  then show "mngdev_vdev_get_vres_desc st_b (vdev_at st_b 100) \<lparr>vres_type = 0, vres_index = 0\<rparr> x = \<lparr>vd_type = 0, vd_index = 1\<rparr>"
    by (simp add: mngdev_vdev_get_vres_desc_def) (simp add: st_b_eq mngdev_devref_unlock_def upd_vdev_def)
qed (simp add: st_b_eq mngdev_devref_unlock_def upd_vdev_def st_a_facts)

lemma env_ok_none: "env_ok env_none mg"
  by (simp add: env_ok_def env_none_def env_ex_def)

lemma st_b_reachable: "mng_reachable hws_ex mg_ex st_b"
  unfolding st_b_def
  by (rule ioctl_ex_reachable [OF _ st_a_facts(6,7) env_ok_none mg_ex_ref(4)])
    (auto simp: st_a_def intro!: ioctl_ex_reachable env_ok_ex mg_ex_ref)


end
