(* ===== verification/Mng_Properties.thy ===== *)
theory Mng_Properties
  imports Mng_System
begin

text \<open>
  Properties of the single operations of a MNG_DEV in the states it reaches: the protection of the
  hardware calls, creation and destruction of VIRT_DEVs, allocation, the delivery of events and the
  subscriptions the hardware is told.
\<close>

section \<open>Hardware calls\<close>

text \<open>What the check of the resources lets through for the owner \<open>w\<close>.\<close>

definition res_granted :: "'s modac_rm_data \<Rightarrow> int \<Rightarrow> mngdev_ioctl_hw_header_vres \<Rightarrow> modac_rm_vres_desc \<Rightarrow> bool" where
  "res_granted rm w vres v \<longleftrightarrow>
     (if vres_type vres = MODAC_RES_TYPE_NONE then v = \<lparr>vd_type = MODAC_RES_TYPE_NONE, vd_index = -1\<rparr>
      else modac_rm_get_owner rm v = Inr w)"

lemma ret_int_eq_nonneg: "0 \<le> w \<Longrightarrow> ret_int r = w \<longleftrightarrow> r = Inr w"
  by (cases r) (auto simp: ret_int_def dest: order_trans [of 0 w] split: sum.splits)

lemma res_granted_simps:
  "vres_type vres = MODAC_RES_TYPE_NONE \<Longrightarrow> res_granted rm w vres \<lparr>vd_type = MODAC_RES_TYPE_NONE, vd_index = -1\<rparr>"
  "vres_type vres \<noteq> MODAC_RES_TYPE_NONE \<Longrightarrow> modac_rm_get_owner rm v = Inr w \<Longrightarrow> res_granted rm w vres v"
  by (simp_all add: res_granted_def)

lemma check_resources_granted:
  "0 \<le> w \<Longrightarrow> check_resources mg vdes w raw vs = Inr rs \<Longrightarrow> list_all2 (res_granted (mg_rm mg) w) vs rs"
proof (induction vs arbitrary: rs)
  case (Cons v vs)
  then show ?case
    by (cases "check_resources mg vdes w raw vs")
      (auto simp: Let_def ret_int_eq_nonneg intro: res_granted_simps split: if_splits)
qed simp

lemma check_resources_error: "check_resources mg vdes w raw vs = Inl e \<Longrightarrow> e = EACCES"
proof (induction vs)
  case (Cons v vs)
  then show ?case
    by (cases "check_resources mg vdes w raw vs") (auto simp: Let_def split: if_splits)
qed simp


text \<open>A header that names the first resource of the first type twice, for the VIRT_DEV 1.\<close>

definition hw_args :: umem where
  "hw_args = (\<lambda>i. Some (if i = 0 then 1 else 0))"

lemma hw_args_copy: "copy_from_user hw_args 20 = Some (1 # replicate 19 0)"
  by (simp add: copy_from_user_def umem_bytes_def hw_args_def upt_rec numeral_nat)

lemma hw_args_header: "get_hw_header (1 # replicate 19 0) =
    \<lparr>hwh_vdev_id = 1, hwh_vres = [\<lparr>vres_type = 0, vres_index = 0\<rparr>, \<lparr>vres_type = 0, vres_index = 0\<rparr>]\<rparr>"
  by (simp add: get_hw_header_def vres_at_def int_at_def u32_at_def nth_Cons')

lemma st_b_vdev: "vdd_id (vdev_at st_b 100) = 1" "vdd_usage_counter (vdev_at st_b 100) = 0"
  "mg_hw st_b = ()" "mg_rm st_b = set_owner two_pulsegens_rm 1 1"
  by (simp_all add: st_b_eq mngdev_devref_unlock_def upd_vdev_def st_a_facts)

lemma st_b_owner: "modac_rm_get_owner (mg_rm st_b) \<lparr>vd_type = 0, vd_index = 1\<rparr> = Inr 1"
  by (simp add: st_b_vdev two_pulsegens_simps)

lemma st_b_check: "check_resources st_b (Some (vdev_at st_b 100)) 1 raw
   [\<lparr>vres_type = 0, vres_index = 0\<rparr>, \<lparr>vres_type = 0, vres_index = 0\<rparr>]
   = Inr [\<lparr>vd_type = 0, vd_index = 1\<rparr>, \<lparr>vd_type = 0, vd_index = 1\<rparr>]"
  by (simp add: st_b_facts(2) st_b_owner Let_def)

lemma st_b_hw_ioctl: "mng_ioctl_hw hws_ex env_none cmd hw_args st_b = (Inr 0, hw_args, st_b)"
  using st_b_check [of "env_stack env_none"]
  by (simp add: mng_ioctl_hw_def hw_args_copy hw_args_header list_find_vdev_def st_b_facts(1) st_b_vdev(1,2)
      del: check_resources.simps) (simp add: hws_ex_def)


text \<open>
  Why a negative id is excluded above: the error of \<open>modac_rm_get_owner\<close> for an undefined resource is -22 (EINVAL), and the
  same number as an id passes the check, though no VIRT_DEV has it. The hardware is called with undefined resources.
\<close>

lemma list_find_vdev_unknown: "mg_ok mg \<Longrightarrow> list_find_vdev mg (word_of_int (- 22)) = None"
  unfolding list_find_vdev_None
  by (auto simp: mg_ok_def vlist_ok_def vdev_ok_def)

lemma check_resources_unknown:
  "check_resources mg None (- 22) raw vs = Inr (map (\<lambda>_. \<lparr>vd_type = MODAC_RES_TYPE_NONE, vd_index = -1\<rparr>) vs)"
  by (induction vs) (simp_all add: modac_rm_get_owner_def ret_int_def Let_def)

lemma hw_ioctl_unknown_vdev:
  assumes "mg_ok mg" and "hw_ioctl hws = Some ioctl" and "copy_from_user m 20 = Some bs"
    and "hwh_vdev_id (get_hw_header bs) = - 22"
  shows "mng_ioctl_hw hws env cmd m mg =
    (case ioctl (mg_hw mg) (map (\<lambda>_. \<lparr>vd_type = MODAC_RES_TYPE_NONE, vd_index = -1\<rparr>) (hwh_vres (get_hw_header bs))) cmd m of
       (r, m1, hw1) \<Rightarrow> (r, m1, mg\<lparr>mg_hw := hw1\<rparr>))"
  using assms by (simp add: mng_ioctl_hw_def list_find_vdev_unknown [simplified] check_resources_unknown)

section \<open>Creation and destruction\<close>

lemma first_free_id_least:
  assumes "first_free_id mg = Some vid" and "1 \<le> w" and "w < vid"
  shows "list_find_vdev mg w \<noteq> None"
proof -
  from assms(1) obtain i where i: "i < 31" "vid = of_nat (1 + i)"
    "\<And>j. j < i \<Longrightarrow> list_find_vdev mg (of_nat (1 + j)) \<noteq> None"
    by (auto simp: first_free_id_def find_Some_iff)
  have vid: "unat vid = 1 + i" using i(1) unfolding i(2) by (simp only: unsigned_of_nat) (simp add: take_bit_nat_eq_self_iff)
  have "1 \<le> unat w" "unat w < 1 + i"
    using assms(2,3) vid by (simp_all add: word_le_nat_alt word_less_nat_alt)
  with i(3) [of "unat w - 1"] show ?thesis by simp
qed

text \<open>A new VIRT_DEV: at the head of the list, idle, with nothing allocated and nothing subscribed.\<close>

definition new_vdev :: "u8 \<Rightarrow> u8 list \<Rightarrow> 's mngdev_data \<Rightarrow> 's mngdev_data \<Rightarrow> bool" where
  "new_vdev vid name mg mg1 \<longleftrightarrow> (\<exists>p. mg_vdevs mg p = None \<and> mg_vdev_list mg1 = p # mg_vdev_list mg
     \<and> list_find_vdev mg1 vid = Some p \<and> list_find_vdev_by_name mg1 name = Some p
     \<and> (\<forall>r. r \<noteq> p \<longrightarrow> mg_vdevs mg1 r = mg_vdevs mg r)
     \<and> vdd_usage_counter (vdev_at mg1 p) = 0 \<and> vdd_minor (vdev_at mg1 p) = md_minor (mg_des mg) + id_owner vid
     \<and> (\<forall>t. 0 \<le> t \<longrightarrow> t < hw_res_def_count (mg_rm mg) \<longrightarrow> res_alloc_count (vdd_res_type_data (vdev_at mg1 p) t) = 0)
     \<and> (\<forall>e. p \<notin> set (subscribers (mg_dispatch mg1) e))
     \<and> mg_rm mg1 = mg_rm mg \<and> mg_hw mg1 = mg_hw mg \<and> mg_dispatch mg1 = mg_dispatch mg)"

lemma create_vdev_new:
  assumes ok: "mg_ok mg" and env: "env_ok env mg" and create: "mng_create_vdev hws env vid name mg = (r, mg1)"
    and "length name \<le> 32"
  shows "case r of Inl e \<Rightarrow> mg1 = mg | Inr v \<Rightarrow> v = 0 \<and> new_vdev vid name mg mg1"
proof -
  have dom: "set (mg_vdev_list mg) = dom (mg_vdevs mg)" and subs: "\<And>e. set (subscribers (mg_dispatch mg) e) \<subseteq> set (mg_vdev_list mg)"
    using ok by (auto simp: mg_ok_def vlist_ok_def subs_ok_def)
  have nm: "cstr (strncpy name 32) = cstr name" using cstr_vdev_name [OF assms(4)] by simp
  from mng_create_vdev_cases [OF env create dom] show ?thesis
  proof (elim disjE exE conjE)
    fix p q raw x d i j
    assume p: "mg_vdevs mg p = None" and d: "d = init_vdev_des mg vid name (raw\<lparr>vdd_id := vid\<rparr>)" and r: "r = Inr 0"
      and mg1: "mg1 = mg\<lparr>mg_vdev_list := p # mg_vdev_list mg, mg_vdevs := (mg_vdevs mg)(p \<mapsto> des_init_dev (d\<lparr>vdd_priv := Some q\<rparr>)),
          mg_sys := (mg_sys mg)\<lparr>vdev_objs := (vdev_objs (mg_sys mg))(q \<mapsto> x),
            vdev_class := cstr (vdd_name d) # vdev_class (mg_sys mg),
            vdev_table := (vdev_table (mg_sys mg))(i := (vdev_table (mg_sys mg) i)(j := Some q))\<rparr>\<rparr>"
    have "p \<notin> set (subscribers (mg_dispatch mg) e)" for e using subs p dom by blast
    then have "new_vdev vid name mg mg1"
      unfolding new_vdev_def mg1 d
      by (intro exI [of _ p]) (simp add: p des_init_dev_def init_vdev_des_def list_find_vdev_def
          list_find_vdev_by_name_def STRINGS_EQUAL_def nm del: One_nat_def)
    with r show ?thesis by simp
  qed auto
qed



lemma rm_free_law: "rm_wf rm \<Longrightarrow> w \<noteq> NO_OWNER \<Longrightarrow> modac_rm_get_owner rm v = Inr u \<Longrightarrow> u \<noteq> w \<Longrightarrow>
    modac_rm_get_owner (modac_rm_free_owner rm w) v = Inr u"
  using rmi.free_others by blast

text \<open>
  C13: The destruction of a VIRT_DEV takes it from the list and leaves nothing of it behind: no
  subscription, no resource with its id as the owner, and its id can be used again. The other
  VIRT_DEVs keep their place, their descriptions, their subscriptions and their resources.
\<close>
theorem destroy_vdev_frees:
  assumes "modac_rm_init ok defs = Inr rm" and "mng_reachable hws (mngdev_init_dev des hw rm vs) mg"
    and "copy_from_user m 1 = Some bs" and "list_find_vdev mg (destroy_id (get_destroy bs)) = Some p"
  shows "case mng_ioctl_destroy hws m mg of (r, m1, mg1) \<Rightarrow>
     r = Inr 0 \<and> m1 = m
     \<and> mg_vdev_list mg1 = remove1 p (mg_vdev_list mg) \<and> mg_vdevs mg1 = (mg_vdevs mg)(p := None)
     \<and> list_find_vdev mg1 (destroy_id (get_destroy bs)) = None
     \<and> (\<forall>e. subscribers (mg_dispatch mg1) e = remove1 p (subscribers (mg_dispatch mg) e)
            \<and> p \<notin> set (subscribers (mg_dispatch mg1) e))
     \<and> (\<forall>v. modac_rm_get_owner (mg_rm mg1) v \<noteq> Inr (id_owner (destroy_id (get_destroy bs))))
     \<and> (\<forall>v w. w \<noteq> id_owner (destroy_id (get_destroy bs)) \<longrightarrow> modac_rm_get_owner (mg_rm mg) v = Inr w \<longrightarrow>
            modac_rm_get_owner (mg_rm mg1) v = Inr w)"
proof -
  let ?id = "destroy_id (get_destroy bs)" and ?mg = "list_destroy_vdev hws True p mg"
  have ok: "mg_ok mg" by (rule mg_ok_reachable [OF assms(2) mg_ok_init [OF assms(1)]])
  from list_find_vdev_Some [OF assms(4)] have p: "p \<in> set (mg_vdev_list mg)" "vdd_id (vdev_at mg p) = ?id" by auto
  from ok have wf: "rm_wf (mg_rm mg)" and d: "distinct (mg_vdev_list mg)" and disp: "dispatch_ok (mg_dispatch mg)"
    and inj: "\<And>r. r \<in> set (mg_vdev_list mg) \<Longrightarrow> r \<noteq> p \<Longrightarrow> vdd_id (vdev_at mg r) \<noteq> ?id"
    using p by (auto simp: mg_ok_def rm_ok_def vlist_ok_def subs_ok_def inj_on_def)
  have run: "mng_ioctl_destroy hws m mg = (Inr 0, m, ?mg)"
    using assms(3,4) by (simp add: mng_ioctl_destroy_def)
  have "list_find_vdev ?mg ?id = None"
    using d inj by (simp add: list_find_vdev_None list_destroy_vdev_components)
  moreover have "subscribers (mg_dispatch ?mg) e = remove1 p (subscribers (mg_dispatch mg) e)
      \<and> p \<notin> set (subscribers (mg_dispatch ?mg) e)" for e
    using edl.remove_all_subs [OF disp] edl.remove_all_gone [OF disp] by (simp add: list_destroy_vdev_components)
  moreover have "modac_rm_get_owner (mg_rm ?mg) v \<noteq> Inr (id_owner ?id)" for v
    using rmi.free_gone [OF wf, of "id_owner ?id" v] p by (simp add: list_destroy_vdev_components)
  moreover have "modac_rm_get_owner (mg_rm ?mg) v = Inr w"
    if "w \<noteq> id_owner ?id" "modac_rm_get_owner (mg_rm mg) v = Inr w" for v w
    using rm_free_law [OF wf _ that(2,1)] p by (simp add: list_destroy_vdev_components)
  ultimately show ?thesis unfolding run by (simp add: list_destroy_vdev_components) metis
qed

lemma destroy_vdev_frees_witness:
  "modac_rm_get_owner (mg_rm (snd (snd (mng_ioctl_destroy hws_ex hw_args st_b)))) \<lparr>vd_type = 0, vd_index = 1\<rparr> \<noteq> Inr 1"
proof -
  have copy: "copy_from_user hw_args 1 = Some [1]"
    by (simp add: copy_from_user_def umem_bytes_def hw_args_def upt_rec)
  have "list_find_vdev st_b (destroy_id (get_destroy [1])) = Some 100"
    by (simp add: get_destroy_def byte_at_def list_find_vdev_def st_b_facts(1) st_b_vdev)
  from destroy_vdev_frees [OF two_pulsegens_init st_b_reachable [unfolded mg_ex_def] copy this]
  show ?thesis by (auto simp: get_destroy_def byte_at_def split: prod.splits)
qed

section \<open>Allocation\<close>

lemma vdev_on_res_add_run:
  assumes ok: "mg_ok mg" and p: "p \<in> set (mg_vdev_list mg)" and own: "modac_rm_get_owner (mg_rm mg) v = Inr w"
  shows "vdev_on_res_add p v mg =
    (let td = vdd_res_type_data (vdev_at mg p) (vd_type v) in
     if res_alloc_count td = 32 then (Inl ENOSYS, mg)
     else (Inr 0, upd_vdev p (\<lambda>d. d\<lparr>vdd_res_type_data := (vdd_res_type_data d)(vd_type v :=
       \<lparr>res_alloc_count = res_alloc_count td + 1,
        res_alloc_index = (res_alloc_index td)[nat (res_alloc_count td) := vd_index v]\<rparr>)\<rparr>) mg))"
proof -
  from own have t: "0 \<le> vd_type v" "vd_type v < hw_res_def_count (mg_rm mg)"
    and x: "0 \<le> vd_index v" "vd_index v < int (rt_res_state_count (rm_resource_type_data (mg_rm mg) ! nat (vd_type v)))"
    by (auto simp: modac_rm_get_owner_def Let_def split: if_splits)
  moreover have "res_alloc_count (vdd_res_type_data (vdev_at mg p) (vd_type v)) \<le> 32"
    using ok p t by (auto simp: mg_ok_def rm_ok_def owns_def)
  ultimately show ?thesis
    by (auto simp: vdev_on_res_add_def modac_rm_get_res_count_for_type_def Let_def)
qed

text \<open>
  C17: An allocation for an unknown VIRT_DEV gives ENXIO, one for a VIRT_DEV that is open EACCES, and one
  that fails changes nothing. One that succeeds takes a resource that was free; the VIRT_DEV then owns
  it and names it by the next relative index of its type. With 32 resources of that
  type listed already, the call succeeds all the same: the resource is then owned and in no list, lost until
  the VIRT_DEV is destroyed.
\<close>
theorem alloc_branches:
  assumes "modac_rm_init ok defs = Inr rm" and "mng_reachable hws (mngdev_init_dev des hw rm vs) mg"
    and "copy_from_user m 72 = Some bs" and "get_ioctl_res bs = args" and "mng_ioctl_alloc m mg = (r, m1, mg1)"
  shows "m1 = m \<and> (case list_find_vdev mg (res_id_vdev args) of
     None \<Rightarrow> r = Inl ENXIO \<and> mg1 = mg
   | Some p \<Rightarrow> if 0 < vdd_usage_counter (vdev_at mg p) then r = Inl EACCES \<and> mg1 = mg
       else case r of Inl e \<Rightarrow> mg1 = mg
         | Inr i \<Rightarrow> \<exists>v. modac_rm_get_owner (mg_rm mg) v = Inl EACCES
             \<and> modac_rm_get_owner (mg_rm mg1) v = Inr (id_owner (res_id_vdev args))
             \<and> (let n = res_alloc_count (vdd_res_type_data (vdev_at mg p) (vd_type v)) in
                if n = 32 then mg_vdevs mg1 = mg_vdevs mg
                else mngdev_vdev_get_vres_desc mg1 (vdev_at mg1 p) \<lparr>vres_type = vd_type v, vres_index = n\<rparr> raw = v))"
proof -
  let ?w = "id_owner (res_id_vdev args)"
  have ok: "mg_ok mg" by (rule mg_ok_reachable [OF assms(2) mg_ok_init [OF assms(1)]])
  note run = assms(5) [unfolded mng_ioctl_alloc_def Let_def assms(3,4) option.case]
  show ?thesis
  proof (cases "list_find_vdev mg (res_id_vdev args)")
    case None
    with run show ?thesis by simp
  next
    case found: (Some p)
    from list_find_vdev_Some [OF found] have p: "p \<in> set (mg_vdev_list mg)" and w: "vdd_id (vdev_at mg p) = res_id_vdev args" by auto
    from ok p have wf: "rm_wf (mg_rm mg)" and lens: "\<And>t. length (res_alloc_index (vdd_res_type_data (vdev_at mg p) t)) = 32"
      by (auto simp: mg_ok_def rm_ok_def vlist_ok_def vdev_ok_def)
    obtain r' d rm1 where a: "modac_rm_alloc (mg_rm mg) (mg_hw mg) ?w (res_resource_id args)
        (res_resource_real_index args) (res_arg_filter args) = (r', d, rm1)"
      by (cases "modac_rm_alloc (mg_rm mg) (mg_hw mg) ?w (res_resource_id args) (res_resource_real_index args) (res_arg_filter args)") auto
    note law = rmi.alloc_law [OF wf uint_not_NO_OWNER a]
    show ?thesis
    proof (cases "0 < vdd_usage_counter (vdev_at mg p) \<or> d = None")
      case True
      with run found a law show ?thesis by (auto split: sum.splits)
    next
      case False
      then obtain v where v: "d = Some v" by auto
      with law obtain i where i: "r' = Inr i" and free: "modac_rm_get_owner (mg_rm mg) v = Inl EACCES"
        and own: "modac_rm_get_owner rm1 v = Inr ?w" by (cases r') auto
      let ?mg = "mg\<lparr>mg_rm := rm1\<rparr>" and ?n = "res_alloc_count (vdd_res_type_data (vdev_at mg p) (vd_type v))"
      have "rm_ok (mg_rm mg) (mg_vdev_list mg) (mg_vdevs mg)" using ok by (simp add: mg_ok_def)
      from rm_ok_alloc [OF this p, unfolded w, OF a] ok have "mg_ok ?mg" by (simp add: mg_ok_def)
      from vdev_on_res_add_run [OF this, of p v ?w] p own
      have add: "snd (vdev_on_res_add p v ?mg) = (if ?n = 32 then ?mg
          else upd_vdev p (\<lambda>d. d\<lparr>vdd_res_type_data := (vdd_res_type_data d)(vd_type v :=
            \<lparr>res_alloc_count = ?n + 1, res_alloc_index = (res_alloc_index (vdd_res_type_data (vdev_at mg p) (vd_type v)))[nat ?n := vd_index v]\<rparr>)\<rparr>) ?mg)"
        by (simp add: Let_def)
      have n: "0 \<le> ?n" "?n \<le> 32" "0 \<le> vd_type v" "vd_type v < hw_res_def_count rm1"
        using \<open>mg_ok ?mg\<close> p own by (auto simp: mg_ok_def rm_ok_def owns_def modac_rm_get_owner_def Let_def split: if_splits)
      have "r = r'" "m1 = m" "mg1 = snd (vdev_on_res_add p v ?mg)" using run found a False v by auto
      with found False i free own add n lens show ?thesis
        by (auto simp: Let_def upd_vdev_def mngdev_vdev_get_vres_desc_def intro!: exI [of _ v])
    qed
  qed
qed

lemma alloc_branches_witness:
  "(\<exists>v. modac_rm_get_owner (mg_rm st_a) v = Inl EACCES \<and> modac_rm_get_owner (mg_rm (snd (snd (mng_ioctl_alloc (alloc_args 1) st_a)))) v = Inr 1)"
proof -
  have "mng_reachable hws_ex (mngdev_init_dev mdes_ex () two_pulsegens_rm vs_ex) st_a"
    using ioctl_ex_reachable [OF _ mg_ex_ref(1,2) env_ok_ex mg_ex_ref(3), of MNG_DEV_IOC_CREATE] by (simp add: st_a_def mg_ex_def)
  from alloc_branches [OF two_pulsegens_init this alloc_args_copy alloc_args_res st_b_alloc [of "mg_ref st_a", simplified]]
  have "\<exists>v. modac_rm_get_owner (mg_rm st_a) v = Inl EACCES \<and>
    modac_rm_get_owner (mg_rm (upd_vdev 100 (\<lambda>d. d\<lparr>vdd_res_type_data := (vdd_res_type_data d)(0 :=
        \<lparr>res_alloc_count = 1, res_alloc_index = (replicate 32 0)[0 := 1]\<rparr>)\<rparr>)
      (st_a\<lparr>mg_ref := mg_ref st_a, mg_rm := set_owner two_pulsegens_rm 1 1\<rparr>))) v = Inr 1"
    by (simp add: list_find_vdev_def st_a_facts) blast
  then show ?thesis by (simp add: st_b_alloc [of "mg_ref st_a", simplified])
qed

section \<open>Events\<close>

text \<open>What the arrival of one event does to the private data of a subscriber.\<close>

definition deliver :: "hw_event \<Rightarrow> vdev_data \<Rightarrow> vdev_data" where
  "deliver a v = (case a of Notify e \<Rightarrow> modac_vdev_notify v e | Put_Event e bs \<Rightarrow> modac_vdev_put_cb v e bs (length bs))"

definition priv_of :: "'s mngdev_data \<Rightarrow> ptr \<Rightarrow> ptr" where
  "priv_of mg p = the (vdd_priv (vdev_at mg p))"

lemma priv_of_sel [simp]: "priv_of (mg\<lparr>mg_sys := s\<rparr>) = priv_of mg" "priv_of (mg\<lparr>mg_event_counters := c\<rparr>) = priv_of mg"
  by (simp_all add: priv_of_def fun_eq_iff)

lemma irq_process_run:
  assumes "vdev_objs (mg_sys mg) (priv_of mg p) = Some x"
  shows "irq_process a p mg = mg\<lparr>mg_sys := (mg_sys mg)\<lparr>vdev_objs := (vdev_objs (mg_sys mg))(priv_of mg p \<mapsto> deliver a x)\<rparr>\<rparr>"
  using assms by (simp add: irq_process_def upd_vdata_def priv_of_def deliver_def cong: hw_event.case_cong)

lemma irq_fold:
  assumes "distinct (map (priv_of mg) ps)" and "\<And>p. p \<in> set ps \<Longrightarrow> vdev_objs (mg_sys mg) (priv_of mg p) \<noteq> None"
  shows "fold (irq_process a) ps mg = mg\<lparr>mg_sys := (mg_sys mg)\<lparr>vdev_objs :=
    (\<lambda>q. if q \<in> priv_of mg ` set ps then map_option (deliver a) (vdev_objs (mg_sys mg) q)
         else vdev_objs (mg_sys mg) q)\<rparr>\<rparr>"
  using assms
proof (induction ps arbitrary: mg)
  case (Cons p ps)
  let ?q = "priv_of mg p"
  let ?mg = "irq_process a p mg"
  from Cons.prems(2) [of p] obtain x where x: "vdev_objs (mg_sys mg) ?q = Some x" by auto
  let ?objs = "(vdev_objs (mg_sys mg))(?q \<mapsto> deliver a x)"
  have step: "?mg = mg\<lparr>mg_sys := (mg_sys mg)\<lparr>vdev_objs := ?objs\<rparr>\<rparr>" by (rule irq_process_run [OF x])
  have "distinct (map (priv_of ?mg) ps)" "\<And>r. r \<in> set ps \<Longrightarrow> vdev_objs (mg_sys ?mg) (priv_of ?mg r) \<noteq> None"
    unfolding step using Cons.prems by auto
  note IH = Cons.IH [OF this, unfolded step]
  have "(\<lambda>q. if q \<in> priv_of mg ` set ps then map_option (deliver a) (?objs q) else ?objs q)
    = (\<lambda>q. if q \<in> priv_of mg ` set (p # ps) then map_option (deliver a) (vdev_objs (mg_sys mg) q) else vdev_objs (mg_sys mg) q)"
    using Cons.prems(1) x by (auto simp: fun_eq_iff)
  with IH show ?case by (simp add: step cong: if_cong)
qed simp

lemma mg_ok_priv:
  assumes "mg_ok mg"
  shows "inj_on (priv_of mg) (set (mg_vdev_list mg))"
    and "p \<in> set (mg_vdev_list mg) \<Longrightarrow> \<exists>x. vdev_objs (mg_sys mg) (priv_of mg p) = Some x \<and> vdev_des x = p"
proof -
  have *: "\<exists>x. vdev_objs (mg_sys mg) (priv_of mg p) = Some x \<and> vdev_des x = p" if "p \<in> set (mg_vdev_list mg)" for p
    using assms that by (force simp: mg_ok_def vlist_ok_def vdev_ok_def priv_of_def)
  then show "p \<in> set (mg_vdev_list mg) \<Longrightarrow> \<exists>x. vdev_objs (mg_sys mg) (priv_of mg p) = Some x \<and> vdev_des x = p" .
  show "inj_on (priv_of mg) (set (mg_vdev_list mg))"
    by (rule inj_onI) (metis * option.inject)
qed

lemma process_event_run:
  assumes ok: "mg_ok mg"
  shows "\<exists>objs. modac_mngdev_process_event a mg = mg\<lparr>mg_event_counters := (if event_ok (event_of a)
        then (mg_event_counters mg)(event_of a := mg_event_counters mg (event_of a) + 1) else mg_event_counters mg),
        mg_sys := (mg_sys mg)\<lparr>vdev_objs := objs\<rparr>\<rparr>
    \<and> (\<forall>p\<in>set (mg_vdev_list mg). objs (priv_of mg p) =
        (if p \<in> set (subscribers (mg_dispatch mg) (event_of a))
         then map_option (deliver a) (vdev_objs (mg_sys mg) (priv_of mg p))
         else vdev_objs (mg_sys mg) (priv_of mg p)))
    \<and> (\<forall>q. q \<notin> priv_of mg ` set (mg_vdev_list mg) \<longrightarrow> objs q = vdev_objs (mg_sys mg) q)"
proof -
  let ?ps = "subscribers (mg_dispatch mg) (event_of a)"
  have disp: "dispatch_ok (mg_dispatch mg)" and sub: "set ?ps \<subseteq> set (mg_vdev_list mg)"
    using ok by (auto simp: mg_ok_def subs_ok_def)
  have inj: "inj_on (priv_of mg) (set (mg_vdev_list mg))" by (rule mg_ok_priv [OF ok])
  define mg0 where "mg0 = (if event_ok (event_of a)
     then mg\<lparr>mg_event_counters := (mg_event_counters mg)(event_of a := mg_event_counters mg (event_of a) + 1)\<rparr> else mg)"
  have sel: "mg_sys mg0 = mg_sys mg" "mg_dispatch mg0 = mg_dispatch mg" "priv_of mg0 = priv_of mg"
    by (simp_all add: mg0_def priv_of_def fun_eq_iff)
  have "distinct ?ps" using edl.subs_distinct [OF disp] .
  then have "distinct (map (priv_of mg0) ?ps)" using inj_on_subset [OF inj sub] by (simp add: distinct_map sel)
  moreover have "vdev_objs (mg_sys mg0) (priv_of mg0 p) \<noteq> None" if "p \<in> set ?ps" for p
    using mg_ok_priv(2) [OF ok, of p] sub that by (auto simp: sel)
  ultimately have run: "fold (irq_process a) ?ps mg0 = mg0\<lparr>mg_sys := (mg_sys mg)\<lparr>vdev_objs :=
     (\<lambda>q. if q \<in> priv_of mg ` set ?ps then map_option (deliver a) (vdev_objs (mg_sys mg) q)
         else vdev_objs (mg_sys mg) q)\<rparr>\<rparr>"
    using irq_fold [of mg0 ?ps a] unfolding sel by blast
  have "modac_mngdev_process_event a mg = fold (irq_process a) ?ps mg0"
    by (simp add: modac_mngdev_process_event_def Let_def for_all_subscribers_fold mg0_def event_ok_def sel [unfolded mg0_def])
  note eq = this [unfolded run]
  have "priv_of mg p \<in> priv_of mg ` set ?ps \<longleftrightarrow> p \<in> set ?ps" if "p \<in> set (mg_vdev_list mg)" for p
    by (rule inj_on_image_mem_iff [OF inj that sub])
  moreover have "q \<notin> priv_of mg ` set ?ps" if "q \<notin> priv_of mg ` set (mg_vdev_list mg)" for q
    using that sub by auto
  ultimately show ?thesis
    unfolding eq by (intro exI [of _ "\<lambda>q. if q \<in> priv_of mg ` set ?ps then map_option (deliver a) (vdev_objs (mg_sys mg) q)
         else vdev_objs (mg_sys mg) q"]) (simp add: mg0_def)
qed

text \<open>
  C9: An event of the interrupt reaches exactly the VIRT_DEVs that subscribed to it, each of them once: a
  notification sets its bit and wakes the readers, an event with data goes into the queue. All other
  VIRT_DEVs, and everything else of the device except the counter of the event, stay as they are.
\<close>
theorem process_event_delivers:
  assumes "modac_rm_init ok defs = Inr rm" and "mng_reachable hws (mngdev_init_dev des hw rm vs) mg"
  shows "\<exists>objs. modac_mngdev_process_event a mg = mg\<lparr>mg_event_counters := (if event_ok (event_of a)
        then (mg_event_counters mg)(event_of a := mg_event_counters mg (event_of a) + 1) else mg_event_counters mg),
        mg_sys := (mg_sys mg)\<lparr>vdev_objs := objs\<rparr>\<rparr>
    \<and> (\<forall>p\<in>set (mg_vdev_list mg). objs (priv_of mg p) =
        (if p \<in> set (subscribers (mg_dispatch mg) (event_of a))
         then map_option (deliver a) (vdev_objs (mg_sys mg) (priv_of mg p))
         else vdev_objs (mg_sys mg) (priv_of mg p)))
    \<and> (\<forall>q. q \<notin> priv_of mg ` set (mg_vdev_list mg) \<longrightarrow> objs q = vdev_objs (mg_sys mg) q)"
  by (rule process_event_run [OF mg_ok_reachable [OF assms(2) mg_ok_init [OF assms(1)]]])

text \<open>The VIRT_DEV 1 subscribed to the event 258, which the interrupt of the instance notifies.\<close>

definition st_c :: "unit mngdev_data" where
  "st_c = snd (modac_c_vdev_subscribe hws_ex 100 258 VIRT_DEV_IOCTL_SUBSCRIBE_ACTION_SUBSCRIBE st_b)"

lemma st_b_ref: "ref_ptr (mg_ref st_b) \<noteq> None"
  by (simp add: st_b_eq mngdev_devref_unlock_def upd_vdev_def devref_unlock_def st_a_facts(7) [simplified])

lemma st_a_dispatch: "mg_dispatch st_a = event_dispatch_list_init"
  unfolding st_a_def ioctl_ex_def ioctl_ex_cmds(1) [OF mg_ex_ref(1-3)]
  by (simp_all add: mng_ioctl_create_def create_args_copy create_args_ids mngdev_devref_unlock_def list_find_vdev_def
      list_find_vdev_by_name_def ex_simps hw_res_def_count_def two_pulsegens_simps devref_unlock_def devref_init_def)

lemma st_b_dispatch: "mg_dispatch st_b = event_dispatch_list_init"
  by (simp add: st_b_eq mngdev_devref_unlock_def upd_vdev_def st_a_dispatch)

lemma st_c_eq: "st_c = st_b\<lparr>mg_dispatch := event_dispatch_list_init(258 := Some 100 # replicate 30 None)\<rparr>"
  using st_b_ref
  by (simp add: st_c_def modac_c_vdev_subscribe_def event_dispatch_list_add_def event_dispatch_list_init_def
      st_b_dispatch numeral_eq_Suc on_subscribe_change_def hws_ex_def)

lemma st_c_reachable: "mng_reachable hws_ex mg_ex st_c"
  using st_b_reachable mng_step.vdev_subscribe [of 100 st_b hws_ex 258 VIRT_DEV_IOCTL_SUBSCRIBE_ACTION_SUBSCRIBE]
  by (simp add: st_c_def st_b_facts(1))

lemma st_c_subscribers: "subscribers (mg_dispatch st_c) 258 = [100]"
  by (simp add: st_c_eq subscribers_def event_ok_def)

lemma process_event_delivers_witness:
  "vdev_objs (mg_sys (modac_mngdev_process_event (Notify 258) st_c)) (priv_of st_c 100)
     = map_option (deliver (Notify 258)) (vdev_objs (mg_sys st_c) (priv_of st_c 100))"
proof -
  have l: "mg_vdev_list st_c = [100]" by (simp add: st_c_eq st_b_facts(1))
  from process_event_delivers [OF two_pulsegens_init st_c_reachable [unfolded mg_ex_def], of "Notify 258"]
  show ?thesis by (auto simp: st_c_subscribers l event_of_def)
qed

section \<open>Subscriptions and the hardware\<close>

text \<open>The mask of the events with a subscriber.\<close>

definition subscribed_mask :: "event_dispatch_list \<Rightarrow> event_list_type \<Rightarrow> bool" where
  "subscribed_mask disp evs \<longleftrightarrow> (\<forall>e. event_list_test evs e \<longleftrightarrow> subscribers disp e \<noteq> [])"

lemma on_subscribe_change_mask:
  assumes "dispatch_ok (mg_dispatch mg)"
  shows "\<exists>evs. subscribed_mask (mg_dispatch mg) evs \<and> on_subscribe_change hws mg =
    (if ref_ptr (mg_ref mg) = None then (Inl ENODEV, mg)
     else (fst (hw_on_subscribe_change hws (mg_hw mg) evs),
           mg\<lparr>mg_hw := snd (hw_on_subscribe_change hws (mg_hw mg) evs)\<rparr>))"
  by (rule exI [of _ "event_dispatch_list_add_subscribed_events (mg_dispatch mg) (event_list_clear 0)"])
    (simp add: subscribed_mask_def subscribed_events_iff [OF assms] on_subscribe_change_def split: prod.split)

lemma on_subscribe_change_told:
  assumes "dispatch_ok l" and "on_subscribe_change hws (mg\<lparr>mg_dispatch := l\<rparr>) = (r, mg1)"
  shows "(\<exists>evs. subscribed_mask (mg_dispatch mg1) evs \<and>
      (if ref_ptr (mg_ref mg) = None then r = Inl ENODEV \<and> mg_hw mg1 = mg_hw mg
       else hw_on_subscribe_change hws (mg_hw mg) evs = (r, mg_hw mg1))) \<and> mg_dispatch mg1 = l"
  using on_subscribe_change_mask [of "mg\<lparr>mg_dispatch := l\<rparr>" hws] assms
  by (auto split: if_splits intro!: prod_eqI)



text \<open>What the last close of a VIRT_DEV does to the hardware before the subscriptions go.\<close>

definition hw_after_last_close :: "'s modac_hw_support_def \<Rightarrow> 's mngdev_data \<Rightarrow> ptr \<Rightarrow> 's" where
  "hw_after_last_close hws mg p =
     (if vdd_leave_res_set_on_last_close (vdev_at mg p) = 0 \<and> ref_ptr (mg_ref mg) \<noteq> None
      then fold (\<lambda>(i, x) hw. snd (hw_init_res hws hw i x)) (vdev_resources mg (vdev_at mg p)) (mg_hw mg)
      else mg_hw mg)"

lemma vdev_resources_upd [simp]:
  "vdev_resources (upd_vdev p f mg) d = vdev_resources mg d" "vdev_resources (mg\<lparr>mg_ref := ref\<rparr>) d = vdev_resources mg d"
  "vdev_resources mg (d\<lparr>vdd_usage_counter := n\<rparr>) = vdev_resources mg d"
  by (simp_all add: vdev_resources_def upd_vdev_def)


definition st_d :: "unit mngdev_data" where
  "st_d = snd (the (modac_c_vdev_on_open 100 7 True st_c))"

lemma close_prepare_ref: "mg_ref (close_prepare hws p mg) = mg_ref mg"
  by (simp add: close_prepare_def Let_def upd_vdev_def)

lemma st_a_ref: "mg_ref st_a = devref_init ()"
  unfolding st_a_def ioctl_ex_def ioctl_ex_cmds(1) [OF mg_ex_ref(1-3)]
  by (simp add: mng_ioctl_create_def create_args_copy create_args_ids mngdev_devref_unlock_def list_find_vdev_def
      list_find_vdev_by_name_def ex_simps hw_res_def_count_def two_pulsegens_simps devref_unlock_def devref_init_def)

lemma st_c_ref: "mg_ref st_c = devref_init ()"
  by (simp add: st_c_eq st_b_eq mngdev_devref_unlock_def upd_vdev_def st_a_ref devref_unlock_def devref_init_def)

lemma st_c_open: "modac_c_vdev_on_open 100 7 True st_c = Some (Inr 0, st_d)"
  by (simp add: st_d_def modac_c_vdev_on_open_def modac_mng_check_on_open_def st_c_ref devref_get_def devref_lock_def devref_init_def)

lemma st_d_eq: "st_d = upd_vdev 100 (\<lambda>d. d\<lparr>vdd_usage_counter := vdd_usage_counter d + 1\<rparr>)
    (st_c\<lparr>mg_ref := \<lparr>ref_ptr = Some (), ref_cnt = 2, ref_mtx = False, ref_lhd = [\<lparr>l_inod = 7, l_rcnt = 1\<rparr>]\<rparr>\<rparr>)"
  by (simp add: st_d_def modac_c_vdev_on_open_def modac_mng_check_on_open_def st_c_ref devref_get_def devref_lock_def
      devref_init_def devref_unlock_def)


end
