(* ===== verification/Evr_System.thy ===== *)
theory Evr_System
  imports Evr_Irq Mng_Properties
begin

text \<open>
  The EVR under its MNG_DEV: the hardware support of the EVR as the one that the MNG_DEV calls. What the MNG_DEV
  relies on when it tells the hardware the subscriptions is the interface \<open>subscribed_hardware\<close>; the EVR's
  hardware support provides it. The initialization of the EVR is the call that breaks the agreement.
\<close>

section \<open>A hardware that follows the subscriptions\<close>

locale subscribed_hardware =
  fixes hws :: "'s modac_hw_support_def"
    and active :: "'s \<Rightarrow> bool"
    and saves :: "'s \<Rightarrow> int \<Rightarrow> bool"
    and codes :: "int set"
  assumes change_law: "active hw \<Longrightarrow> hw_on_subscribe_change hws hw evs = (r, hw1) \<Longrightarrow>
      active hw1 \<and> r = Inr 0 \<and> (\<forall>e\<in>codes. saves hw1 e \<longleftrightarrow> event_list_test evs e)"
begin

lemma told_saves:
  assumes "dispatch_ok l" and "ref_ptr (mg_ref mg) \<noteq> None" and "active (mg_hw mg)"
    and "on_subscribe_change hws (mg\<lparr>mg_dispatch := l\<rparr>) = (r, mg1)" and "e \<in> codes"
  shows "r = Inr 0 \<and> active (mg_hw mg1) \<and> (saves (mg_hw mg1) e \<longleftrightarrow> subscribers (mg_dispatch mg1) e \<noteq> [])"
proof -
  from on_subscribe_change_told [OF assms(1,4)] assms(2) obtain evs where
    "subscribed_mask (mg_dispatch mg1) evs" "hw_on_subscribe_change hws (mg_hw mg) evs = (r, mg_hw mg1)" by auto
  with change_law [OF assms(3)] assms(5) show ?thesis by (auto simp: subscribed_mask_def)
qed

text \<open>A call of a VIRT_DEV that changes subscriptions leaves the hardware saving what is subscribed.\<close>

lemma subscribe_saves:
  assumes "dispatch_ok (mg_dispatch mg)" and "ref_ptr (mg_ref mg) \<noteq> None" and "active (mg_hw mg)"
    and "modac_c_vdev_subscribe hws p event action mg = (Inr v, mg1)" and "e \<in> codes"
  shows "active (mg_hw mg1) \<and> (saves (mg_hw mg1) e \<longleftrightarrow> subscribers (mg_dispatch mg1) e \<noteq> [])"
proof (cases "action = VIRT_DEV_IOCTL_SUBSCRIBE_ACTION_SUBSCRIBE")
  case True
  obtain r l where a: "event_dispatch_list_add (mg_dispatch mg) p event = (r, l)"
    by (cases "event_dispatch_list_add (mg_dispatch mg) p event")
  have "dispatch_ok l" using edl.add_invar [OF assms(1), of p event] a by simp
  with told_saves [OF _ assms(2,3) _ assms(5)] assms(4) True a show ?thesis
    by (auto simp: modac_c_vdev_subscribe_def split: sum.splits)
next
  case False
  have ok: "dispatch_ok (event_dispatch_list_remove (mg_dispatch mg) p event)"
    "dispatch_ok (event_dispatch_list_remove_all (mg_dispatch mg) p)"
    using assms(1) by (simp_all add: edl.remove_invar edl.remove_all_invar)
  show ?thesis
    using assms(4) False told_saves [OF ok(1) assms(2,3) _ assms(5)] told_saves [OF ok(2) assms(2,3) _ assms(5)]
      told_saves [OF assms(1,2,3) _ assms(5)]
    by (auto simp: modac_c_vdev_subscribe_def split: if_splits)
qed

end

section \<open>The EVR\<close>

text \<open>A card, and the event codes that its Map RAM saves to the event FIFO.\<close>

definition evr_is_card :: "'h evr_state \<Rightarrow> bool" where
  "evr_is_card s \<longleftrightarrow> sim (ev_hw s) = None"

definition evr_saves :: "'h evr_state \<Rightarrow> int \<Rightarrow> bool" where
  "evr_saves s e \<longleftrightarrow> bit (int_event (map_ram (ev_hw s) (nat e))) C_EVR_MAP_SAVE_EVENT"

lemma subscribe_change_saves:
  assumes "evr_is_card s" and "run_state (hw_support_evr_on_subscribe_change (bus_plugin d16 d32) irq_set subs) s = (r, s1)"
  shows "evr_is_card s1 \<and> r = Inr 0 \<and> (\<forall>e\<in>{0..255}. evr_saves s1 e \<longleftrightarrow> event_list_test subs e)"
proof -
  define h0 where "h0 = (case irq_set of None \<Rightarrow> ev_dev s | Some f \<Rightarrow> f (ev_dev s) (\<not> event_list_is_empty subs))"
  have irq: "run_state (call_irq_set irq_set (\<not> event_list_is_empty subs)) s = ((), s\<lparr>ev_dev := h0\<rparr>)"
    by (cases irq_set) (simp_all add: call_irq_set_def h0_def)
  have ev: "ev_hw s1 = (ev_hw s)\<lparr>map_ram := ram_mapped 0 256 (\<lambda>i. save_mask (event_list_test subs (int i))) (map_ram (ev_hw s))\<rparr>" and "r = Inr 0"
    using assms by (auto simp: hw_support_evr_on_subscribe_change_def evr_is_card_def Let_def irq run_save_subscribed
        run_flush split: if_splits)
  then show ?thesis using assms(1)
    by (auto simp: evr_is_card_def evr_saves_def ev ram_mapped_def save_mask_def bit_put_bit)
qed

interpretation evrs: subscribed_hardware "hw_support_evr (bus_plugin d16 d32) des irq_set stk" evr_is_card evr_saves "{0..255}"
proof unfold_locales
  fix hw evs r hw1
  assume "evr_is_card hw" and "hw_on_subscribe_change (hw_support_evr (bus_plugin d16 d32) des irq_set stk) hw evs = (r, hw1)"
  then show "evr_is_card hw1 \<and> r = Inr 0 \<and> (\<forall>e\<in>{0..255}. evr_saves hw1 e = event_list_test evs e)"
    using subscribe_change_saves [of hw d16 d32 irq_set evs r hw1] by (simp add: hw_support_evr_def)
qed


section \<open>Properties\<close>


text \<open>A MNG_DEV of an EVR card with two resource types.\<close>

definition evr_hws_ex :: "bus_op list evr_state modac_hw_support_def" where
  "evr_hws_ex = hw_support_evr io_ex mdes_ex None []"

definition evr_defs_ex :: "bus_op list evr_state modac_hw_res_def list" where
  "evr_defs_ex = evr_res_defs (ev_hw evr_cpci)"


text \<open>The registers that the initialization of the EVR writes.\<close>

definition pulse_writes :: "int \<Rightarrow> bus_op list" where
  "pulse_writes p = map (\<lambda>k. W32 (pulse_reg p + of_nat k) 0) [0, 12, 8, 4]"

lemma run_ioc_init_outputs:
  "run_state (for_each (\<lambda>cfg. for_each (\<lambda>i. evr_write16 (bus_plugin d16 d32) (out_map_reg cfg i) OUTPUT_REG_MAPPING_FORCE_LOW)
       [0..res_count cfg - 1]) cfgs) s
   = ((), s\<lparr>ev_dev := concat (rev (map (\<lambda>cfg. concat (rev (map (\<lambda>i. [W16 (out_map_reg cfg i) (swab16 OUTPUT_REG_MAPPING_FORCE_LOW)])
       [0..res_count cfg - 1]))) cfgs)) @ ev_dev s\<rparr>)"
  by (rule for_each_bus, rule for_each_bus) simp

lemma run_ioc_init_pulses:
  "run_state (for_each (\<lambda>ipulse. do {
         set_pulse_params (bus_plugin d16 d32) (pulse_reg ipulse) 0 0 0;
         evr_write32 (bus_plugin d16 d32) (pulse_reg ipulse) 0
       }) ps) s
   = ((), s\<lparr>ev_dev := concat (rev (map pulse_writes ps)) @ ev_dev s\<rparr>)"
proof (rule for_each_bus)
  have "swab32 0 = 0" by (simp add: swab32_def)
  then show "run_state (do { set_pulse_params (bus_plugin d16 d32) (pulse_reg x) 0 0 0;
      evr_write32 (bus_plugin d16 d32) (pulse_reg x) 0 }) s
    = ((), s\<lparr>ev_dev := pulse_writes x @ ev_dev s\<rparr>)" for x s
    by (simp add: set_pulse_params_def pulse_writes_def)
qed

text \<open>
  The initialization of an EVR forces every output low, clears the parameters and the control register of every pulse
  generator and sets the Map RAM back to its initial content, which it writes to the hardware. With this no event code
  is saved to the event FIFO any more, whatever the VIRT_DEVs are subscribed to, until a subscription changes.
\<close>
theorem evr_ioc_init_resets:
  assumes "run_state (evr_ioc_init (bus_plugin d16 d32)) s = (r, s1)"
  shows "r = Inr 0 \<and> ev_hw s1 = (ev_hw s)\<lparr>map_ram := initial_map_ram\<rparr>
    \<and> (\<exists>ops. ev_dev s1 = ops @ ev_dev s
         \<and> (\<forall>cfg\<in>set (out_cfg (ev_hw s)). \<forall>i. 0 \<le> i \<and> i < res_count cfg \<longrightarrow>
              W16 (out_map_reg cfg i) (swab16 OUTPUT_REG_MAPPING_FORCE_LOW) \<in> set ops)
         \<and> (\<forall>p. 0 \<le> p \<and> p < ev_res_count s EVR_RES_TYPE_PULSEGEN \<longrightarrow>
              (\<forall>k\<in>{0, 4, 8, 12}. W32 (pulse_reg p + k) 0 \<in> set ops)))
    \<and> (\<forall>e. \<not> bit (int_event (map_ram (ev_hw s1) e)) C_EVR_MAP_SAVE_EVENT)"
proof -
  let ?outs = "concat (rev (map (\<lambda>cfg. concat (rev (map (\<lambda>i. [W16 (out_map_reg cfg i) (swab16 OUTPUT_REG_MAPPING_FORCE_LOW)])
       [0..res_count cfg - 1]))) (out_cfg (ev_hw s))))"
  let ?pulses = "concat (rev (map pulse_writes [0..ev_res_count s EVR_RES_TYPE_PULSEGEN - 1]))"
  let ?s1 = "s\<lparr>ev_dev := ?pulses @ ?outs @ ev_dev s, ev_hw := (ev_hw s)\<lparr>map_ram := initial_map_ram\<rparr>\<rparr>"
  obtain ops1 where flush: "run_state (evr_ram_map_change_flush (bus_plugin d16 d32)) ?s1 = ((), ?s1\<lparr>ev_dev := ops1 @ ev_dev ?s1\<rparr>)"
    using flush_ops [of d16 d32 ?s1] by blast
  have enable: "\<exists>ops2. run_state (evr_output_enable (bus_plugin d16 d32) True) t = ((), t\<lparr>ev_dev := ops2 @ ev_dev t\<rparr>)" for t
    by (simp add: evr_output_enable_def) (metis append_Cons append_Nil)
  then obtain ops2 where out: "run_state (evr_output_enable (bus_plugin d16 d32) True) (?s1\<lparr>ev_dev := ops1 @ ev_dev ?s1\<rparr>)
      = ((), ?s1\<lparr>ev_dev := ops2 @ ops1 @ ev_dev ?s1\<rparr>)"
    using enable [of "?s1\<lparr>ev_dev := ops1 @ ev_dev ?s1\<rparr>"] by auto
  have "r = Inr 0" "s1 = ?s1\<lparr>ev_dev := ops2 @ ops1 @ ev_dev ?s1\<rparr>"
    using assms flush out by (simp_all add: evr_ioc_init_def run_ioc_init_outputs run_ioc_init_pulses evr_ram_map_init_def)
  moreover have "\<not> bit (int_event (initial_map_ram e)) 31" for e
    by (simp add: initial_map_ram_def zero_item_def)
  moreover have "\<forall>cfg\<in>set (out_cfg (ev_hw s)). \<forall>i. 0 \<le> i \<and> i < res_count cfg \<longrightarrow>
      W16 (out_map_reg cfg i) (swab16 OUTPUT_REG_MAPPING_FORCE_LOW) \<in> set ?outs"
  proof (intro ballI allI impI)
    fix cfg i assume "cfg \<in> set (out_cfg (ev_hw s))" and "0 \<le> i \<and> i < res_count cfg"
    then have "cfg \<in> set (out_cfg (ev_hw s))" and "i \<in> {0..res_count cfg - 1}" by auto
    then show "W16 (out_map_reg cfg i) (swab16 OUTPUT_REG_MAPPING_FORCE_LOW) \<in> set ?outs" by (simp, blast)
  qed
  moreover have "\<forall>p. 0 \<le> p \<and> p < ev_res_count s EVR_RES_TYPE_PULSEGEN \<longrightarrow> (\<forall>k\<in>{0, 4, 8, 12}. W32 (pulse_reg p + k) 0 \<in> set ?pulses)"
    by (auto simp: pulse_writes_def)
  ultimately show ?thesis by (intro conjI exI [of _ "ops2 @ ops1 @ ?pulses @ ?outs"]) auto
qed

lemma evr_ioc_init_resets_witness:
  "W16 0x440 (swab16 63) \<in> set (ev_dev (snd (run_state (evr_ioc_init io_ex) evr_cpci)))"
proof -
  obtain r s1 where run: "run_state (evr_ioc_init io_ex) evr_cpci = (r, s1)" by fastforce
  let ?cfg = "\<lparr>res_start = 0, res_count = 4, evr_map_reg_start = 0x440\<rparr>"
  have "?cfg \<in> set (out_cfg (ev_hw evr_cpci))"
    by (simp add: evr_cpci_def init_out_cfg_def Let_def documented_evr_type_data_table_def type_data_def)
  with evr_ioc_init_resets [OF run] have "W16 (out_map_reg ?cfg 0) (swab16 63) \<in> set (ev_dev s1)" by fastforce
  then show ?thesis by (simp add: run out_map_reg_def)
qed

end
