(* ===== verification/Delivery.thy ===== *)
theory Delivery
  imports Evr_System
begin

text \<open>
  From the interrupt to the reader: what one interrupt of an EVR leaves in the queue and in the notification mask of
  a VIRT_DEV, and what the next read of it stores in the user's buffer. The steps of the components
  (the event FIFO of \<open>Evr_Irq\<close>, the dispatch of \<open>Mng_Properties\<close>, the queue of \<open>Packet_Queue\<close>, the read of
  \<open>Virt_Dev\<close>) are put together here.
\<close>

section \<open>The events of one interrupt\<close>

text \<open>The events of one interrupt that a VIRT_DEV is subscribed to.\<close>

definition wanted :: "'s mngdev_data \<Rightarrow> ptr \<Rightarrow> hw_event list \<Rightarrow> hw_event list" where
  "wanted mg p es = filter (\<lambda>a. p \<in> set (subscribers (mg_dispatch mg) (event_of a))) es"

lemma process_events_run:
  assumes "mg_ok mg" and "p \<in> set (mg_vdev_list mg)" and "vdev_objs (mg_sys mg) (priv_of mg p) = Some v"
  shows "vdev_objs (mg_sys (fold modac_mngdev_process_event es mg)) (priv_of mg p) = Some (fold deliver (wanted mg p es) v)"
  using assms
proof (induction es arbitrary: mg v)
  case (Cons a es)
  let ?mg = "modac_mngdev_process_event a mg"
  from process_event_run [OF Cons.prems(1), of a] obtain objs c where
    mg: "?mg = mg\<lparr>mg_event_counters := c, mg_sys := (mg_sys mg)\<lparr>vdev_objs := objs\<rparr>\<rparr>"
    and objs: "\<forall>p\<in>set (mg_vdev_list mg). objs (priv_of mg p) =
        (if p \<in> set (subscribers (mg_dispatch mg) (event_of a))
         then map_option (deliver a) (vdev_objs (mg_sys mg) (priv_of mg p))
         else vdev_objs (mg_sys mg) (priv_of mg p))" by blast
  have same: "priv_of ?mg = priv_of mg" "wanted ?mg = wanted mg" "mg_vdev_list ?mg = mg_vdev_list mg"
    by (simp_all add: mg wanted_def fun_eq_iff)
  have "mg_ok ?mg" by (rule mg_ok_process_event [OF Cons.prems(1)])
  moreover have "vdev_objs (mg_sys ?mg) (priv_of ?mg p)
      = Some (if p \<in> set (subscribers (mg_dispatch mg) (event_of a)) then deliver a v else v)"
    using objs Cons.prems(2,3) by (simp add: same) (simp add: mg)
  ultimately have "vdev_objs (mg_sys (fold modac_mngdev_process_event es ?mg)) (priv_of mg p)
      = Some (fold deliver (wanted mg p es) (if p \<in> set (subscribers (mg_dispatch mg) (event_of a)) then deliver a v else v))"
    using Cons.IH [of ?mg] Cons.prems(2) by (simp only: same)
  then show ?case by (simp add: wanted_def)
qed (simp add: wanted_def)

lemma isr_run:
  assumes "mg_ok mg" and "p \<in> set (mg_vdev_list mg)" and "vdev_objs (mg_sys mg) (priv_of mg p) = Some v"
    and "hw_isr hws (mg_hw mg) = (es, hw1)"
  shows "vdev_objs (mg_sys (modac_mngdev_isr hws mg)) (priv_of mg p) = Some (fold deliver (wanted mg p es) v)"
proof -
  have "mg_ok (mg\<lparr>mg_hw := hw1\<rparr>)" using assms(1) by (simp add: mg_ok_def)
  moreover have "priv_of (mg\<lparr>mg_hw := hw1\<rparr>) = priv_of mg" "wanted (mg\<lparr>mg_hw := hw1\<rparr>) p es = wanted mg p es"
    by (simp_all add: priv_of_def wanted_def fun_eq_iff)
  ultimately show ?thesis
    using process_events_run [of "mg\<lparr>mg_hw := hw1\<rparr>" p v es] assms by (simp add: modac_mngdev_isr_def)
qed

text \<open>The packets and the notifications that a list of events brings.\<close>

fun event_packets :: "hw_event list \<Rightarrow> packet list" where
  "event_packets [] = []"
| "event_packets (Put_Event e bs # es) = (word_of_int e, bs) # event_packets es"
| "event_packets (Notify e # es) = event_packets es"

lemma event_packets_append [simp]: "event_packets (xs @ ys) = event_packets xs @ event_packets ys"
  by (induction xs rule: event_packets.induct) simp_all

lemma cb_put_queue: "fst (snd (modac_cb_put cb e bs n w)) = fst (snd (modac_cb_put cb e bs n 0))"
  by (simp add: modac_cb_put_def Let_def)

lemma deliver_simps:
  "cb_events (deliver (Notify e) v) = cb_events v"
  "notified_events (deliver (Notify e) v) = event_list_add (notified_events v) e"
  "cb_events (deliver (Put_Event e bs) v) = cb_put (cb_events v) e bs"
  "notified_events (deliver (Put_Event e bs) v) = notified_events v"
  using cb_put_queue [of "cb_events v" e bs "length bs" "wait_queue_events v"]
  by (auto simp: deliver_def modac_vdev_notify_def modac_vdev_put_cb_def cb_put_def Let_def split: prod.splits)

lemma deliver_all:
  assumes "vdev_invar v" and "cb_count (cb_events v) + length (event_packets es) \<le> 1022"
    and "\<forall>p\<in>set (event_packets es). length (snd p) \<le> CBUF_EVENT_ENTRY_DATA_LENGTH"
  shows "vdev_invar (fold deliver es v)
    \<and> packets (cb_events (fold deliver es v)) = packets (cb_events v) @ event_packets es
    \<and> (\<forall>f. event_list_test (notified_events (fold deliver es v)) f \<longleftrightarrow>
          event_list_test (notified_events v) f \<or> event_ok f \<and> Notify f \<in> set es)"
  using assms
proof (induction es arbitrary: v)
  case (Cons a es)
  show ?case
  proof (cases a)
    case (Notify e)
    have "vdev_invar (deliver a v)" using Cons.prems(1) by (simp add: Notify vdev_invar_def deliver_simps)
    with Cons.IH [of "deliver a v"] Cons.prems show ?thesis by (auto simp: Notify deliver_simps)
  next
    case (Put_Event e bs)
    have room: "cb_room (cb_events v)" using Cons.prems(2) by (simp add: cb_room_def Put_Event)
    from cbq.put_room [of "cb_events v" bs e] Cons.prems(1,3) room
    have put: "cb_invar (cb_put (cb_events v) e bs)" "packets (cb_put (cb_events v) e bs) = packets (cb_events v) @ [(word_of_int e, bs)]"
      by (simp_all add: vdev_invar_def Put_Event)
    then have "cb_count (cb_put (cb_events v) e bs) = Suc (cb_count (cb_events v))"
      by (metis length_packets length_append_singleton)
    with Cons.IH [of "deliver a v"] Cons.prems put show ?thesis by (simp add: Put_Event deliver_simps vdev_invar_def)
  qed
qed simp
section \<open>The EVR\<close>

text \<open>An entry of the event FIFO as a packet: its code, then its seconds and its timestamp.\<close>

definition fifo_packet :: "fifo_entry \<Rightarrow> packet" where
  "fifo_packet x = (case x of (ev, secs, ts) \<Rightarrow> (word_of_int (uint (ev AND 0xFF)), le32_bytes secs @ le32_bytes ts))"

definition fifo_code :: "fifo_entry \<Rightarrow> int" where
  "fifo_code x = uint (fst x AND 0xFF)"

lemma fifo_event_simps:
  "event_of (fifo_event x) = fifo_code x" "event_packets (map fifo_event xs) = map fifo_packet xs"
  "wanted mg p (map fifo_event xs) = map fifo_event (filter (\<lambda>x. p \<in> set (subscribers (mg_dispatch mg) (fifo_code x))) xs)"
  "Notify f \<notin> fifo_event ` X"
proof -
  show of: "event_of (fifo_event x) = fifo_code x" for x
    by (simp add: event_of_def fifo_event_def fifo_code_def split: prod.split)
  show "event_packets (map fifo_event xs) = map fifo_packet xs"
    by (induction xs) (simp_all add: fifo_event_def fifo_packet_def fifo_event_bytes_def split: prod.split)
  show "wanted mg p (map fifo_event xs) = map fifo_event (filter (\<lambda>x. p \<in> set (subscribers (mg_dispatch mg) (fifo_code x))) xs)"
    by (simp add: wanted_def filter_map comp_def of)
  show "Notify f \<notin> fifo_event ` X" by (auto simp: fifo_event_def split: prod.splits)
qed

lemma notification_simps:
  "event_packets (wanted mg p (notifications flags)) = []"
  "event_packets (notifications flags) = []"
  by (simp_all add: notifications_def wanted_def)

lemma wanted_append: "wanted mg p (xs @ ys) = wanted mg p xs @ wanted mg p ys"
  by (simp add: wanted_def)

lemma fifo_packet_length [simp]: "length (snd (fifo_packet x)) = 8"
  by (simp add: fifo_packet_def split: prod.split)

text \<open>
  The packets of one interrupt for a VIRT_DEV: that of the data buffer, then those of the event FIFO that it has subscribed to.
\<close>

definition irq_packets :: "'s mngdev_data \<Rightarrow> ptr \<Rightarrow> u32 \<Rightarrow> fifo_entry list \<Rightarrow> packet list" where
  "irq_packets mg p flags q =
     (if bit flags 5 \<and> p \<in> set (subscribers (mg_dispatch mg) EVRMA_EVENT_DBUF_DATA) then [(word_of_int EVRMA_EVENT_DBUF_DATA, [])] else [])
     @ map fifo_packet (filter (\<lambda>x. p \<in> set (subscribers (mg_dispatch mg) (fifo_code x))) (take EVR_FIFO_EVENT_LIMIT q))"

lemma process_event_vdevs: "mg_ok mg \<Longrightarrow> mg_vdevs (fold modac_mngdev_process_event es mg) = mg_vdevs mg"
proof (induction es arbitrary: mg)
  case (Cons a es)
  from process_event_run [OF Cons.prems, of a] have "mg_vdevs (modac_mngdev_process_event a mg) = mg_vdevs mg" by auto
  with Cons.IH [OF mg_ok_process_event [OF Cons.prems]] show ?case by simp
qed simp

lemma isr_vdev_at:
  assumes "mg_ok mg"
  shows "vdev_at (modac_mngdev_isr hws mg) p = vdev_at mg p"
proof -
  obtain es hw1 where "hw_isr hws (mg_hw mg) = (es, hw1)" by fastforce
  moreover have "mg_ok (mg\<lparr>mg_hw := hw1\<rparr>)" using assms by (simp add: mg_ok_def)
  ultimately show ?thesis using process_event_vdevs [of "mg\<lparr>mg_hw := hw1\<rparr>" es] by (simp add: modac_mngdev_isr_def)
qed

lemma isr_delivered:
  assumes ok: "mg_ok mg" and p: "p \<in> set (mg_vdev_list mg)" "vdev_objs (mg_sys mg) (priv_of mg p) = Some v"
    and fifo: "event_fifo io fifo" "io_read_u32 io (ev_dev (mg_hw mg)) EVR_REG_IRQFLAG = (swab32 flags, h0)"
      "bit flags 3" "fifo (ev_dev (mg_hw mg)) \<noteq> []"
    and v: "vdev_invar v" "cb_count (cb_events v) + 257 \<le> 1022"
  shows "\<exists>v1. vdev_objs (mg_sys (modac_mngdev_isr (hw_support_evr io des irq_set stk) mg)) (priv_of mg p) = Some v1
    \<and> vdev_invar v1
    \<and> packets (cb_events v1) = packets (cb_events v) @ irq_packets mg p flags (fifo (ev_dev (mg_hw mg)))
    \<and> (\<forall>e. event_list_test (notified_events v1) e \<longleftrightarrow> event_list_test (notified_events v) e
          \<or> event_ok e \<and> Notify e \<in> set (notifications flags) \<and> p \<in> set (subscribers (mg_dispatch mg) e))"
proof -
  let ?q = "take EVR_FIFO_EVENT_LIMIT (fifo (ev_dev (mg_hw mg)))"
  let ?db = "if bit flags 5 then [Put_Event EVRMA_EVENT_DBUF_DATA []] else []"
  let ?es = "?db @ map fifo_event ?q @ notifications flags"
  let ?xs = "filter (\<lambda>x. p \<in> set (subscribers (mg_dispatch mg) (fifo_code x))) ?q"
  from isr_fifo_run [OF fifo] obtain s1 where run: "hw_isr (hw_support_evr io des irq_set stk) (mg_hw mg) = (?es, s1)"
    by (auto simp: hw_support_evr_def)
  have db: "event_packets (wanted mg p ?db) = (if bit flags 5 \<and> p \<in> set (subscribers (mg_dispatch mg) EVRMA_EVENT_DBUF_DATA)
      then [(word_of_int EVRMA_EVENT_DBUF_DATA, [])] else [])"
    by (simp add: wanted_def event_of_def)
  have ps: "event_packets (wanted mg p ?es) = irq_packets mg p flags (fifo (ev_dev (mg_hw mg)))"
    unfolding irq_packets_def db [symmetric]
    by (simp only: wanted_append event_packets_append fifo_event_simps notification_simps append_Nil2)
  have "length ?xs \<le> 256" by (rule order_trans [OF length_filter_le]) simp
  then have room: "cb_count (cb_events v) + length (event_packets (wanted mg p ?es)) \<le> 1022"
    using v(2) unfolding ps irq_packets_def by simp
  have short: "\<forall>x\<in>set (event_packets (wanted mg p ?es)). length (snd x) \<le> CBUF_EVENT_ENTRY_DATA_LENGTH"
    unfolding ps irq_packets_def by auto
  have bits: "Notify e \<in> set (wanted mg p ?es) \<longleftrightarrow> Notify e \<in> set (notifications flags) \<and> p \<in> set (subscribers (mg_dispatch mg) e)" for e
    using fifo_event_simps(4) [of e] by (auto simp: wanted_def event_of_def)
  from deliver_all [OF v(1) room short] isr_run [OF ok p run] show ?thesis
    unfolding ps bits by auto
qed

section \<open>Properties\<close>

text \<open>
  C3: One interrupt of an EVR card whose event FIFO is not empty appends to the queue of each VIRT_DEV, behind what is
  queued already, the data buffer's packet when there is one and then, in the order of arrival, exactly those
  entries of the FIFO (up to 256) whose code it is subscribed to, each with its code, seconds and timestamp; the
  notifications it is subscribed to are set in its mask. The next read returns at once and stores the bytes of the
  pending packets, as many as fit; the others remain pending. The queue must have room for one interrupt.
\<close>
theorem interrupt_reaches_reader:
  assumes "hws = hw_support_evr io des irq_set stk"
    and "modac_rm_init ok defs = Inr rm" and "mng_reachable hws (mngdev_init_dev mdes hw rm vs) mg"
    and "event_fifo io fifo" and "io_read_u32 io (ev_dev (mg_hw mg)) EVR_REG_IRQFLAG = (swab32 flags, h0)"
    and "bit flags 3" and "fifo (ev_dev (mg_hw mg)) \<noteq> []"
    and "p \<in> set (mg_vdev_list mg)" and "vdev_objs (mg_sys mg) (priv_of mg p) = Some v"
    and "vdev_invar v" and "cb_count (cb_events v) + 257 \<le> 1022"
    and "\<not> vdd_direct_access_denied (vdev_at mg p)" and "READ_EVENT_MAX \<le> buf_len" and "writable m 0 buf_len"
  shows "\<exists>v1. vdev_objs (mg_sys (modac_mngdev_isr hws mg)) (priv_of mg p) = Some v1
    \<and> packets (cb_events v1) = packets (cb_events v) @ irq_packets mg p flags (fifo (ev_dev (mg_hw mg)))
    \<and> (\<forall>e. event_list_test (notified_events v1) e \<longleftrightarrow> event_list_test (notified_events v) e
          \<or> event_ok e \<and> Notify e \<in> set (notifications flags) \<and> p \<in> set (subscribers (mg_dispatch mg) e))
    \<and> (pending v1 \<noteq> [] \<longrightarrow> (\<exists>v2. vdev_read nonblock ss buf_len (vdev_at (modac_mngdev_isr hws mg) p, v1, m) =
          Some (Inr (int (length (stream_bytes (fitting buf_len (pending v1))))), vdev_at mg p, v2,
                read_into m 0 (stream_bytes (fitting buf_len (pending v1))))
        \<and> pending v1 = fitting buf_len (pending v1) @ pending v2))"
proof -
  have ok: "mg_ok mg" by (rule mg_ok_reachable [OF assms(3) mg_ok_init [OF assms(2)]])
  from isr_delivered [OF ok assms(8,9,4-7,10,11), of des irq_set stk, folded assms(1)] obtain v1 where
    v1: "vdev_objs (mg_sys (modac_mngdev_isr hws mg)) (priv_of mg p) = Some v1" "vdev_invar v1" 
    "packets (cb_events v1) = packets (cb_events v) @ irq_packets mg p flags (fifo (ev_dev (mg_hw mg)))"
     "\<forall>e. event_list_test (notified_events v1) e \<longleftrightarrow> event_list_test (notified_events v) e
          \<or> event_ok e \<and> Notify e \<in> set (notifications flags) \<and> p \<in> set (subscribers (mg_dispatch mg) e)" by blast
  with vdev_read_run [OF assms(12) v1(2) _ assms(13,14), of nonblock ss] show ?thesis
    unfolding isr_vdev_at [OF ok] by blast
qed

text \<open>A card whose event FIFO holds an event 40 and an event 41, and a VIRT_DEV that is subscribed to 41.\<close>

definition card_ex :: "fifo_entry list evr_state" where
  "card_ex = \<lparr>ev_hw = hw_ex, ev_res_count = (\<lambda>_. 0), ev_dev = [(40, 1, 2), (41, 3, 4)]\<rparr>"

definition fifo_hws :: "fifo_entry list evr_state modac_hw_support_def" where
  "fifo_hws = hw_support_evr fifo_device mdes_ex None []"

lemma fifo_device_write: "run_state (evr_write32 fifo_device a v) s = ((), s)"
  by (simp add: run_write32 fifo_device_def)

lemma fifo_device_keeps [keeps]:
  "keeps_fifo (\<lambda>h. h) (evr_write32 fifo_device a v)" "keeps_fifo (\<lambda>h. h) get_hw"
  "a \<notin> {EVR_REG_FIFO_EVENT, EVR_REG_FIFO_SECONDS, EVR_REG_FIFO_TIMESTAMP} \<Longrightarrow> keeps_fifo (\<lambda>h. h) (evr_read32 fifo_device a)"
  by (simp_all add: keeps_fifo_def fifo_device_write keeps_read32 [OF fifo_device_fifo, unfolded keeps_fifo_def])

lemma fifo_device_subscribe: "ev_dev (snd (run_state (hw_support_evr_on_subscribe_change fifo_device None subs) s)) = ev_dev s"
proof -
  have flush: "keeps_fifo (\<lambda>h. h) (evr_ram_map_change_flush fifo_device)"
    unfolding evr_ram_map_change_flush_def save_map_ram_def Let_def by (intro keeps keeps_for_each) simp_all
  have "keeps_fifo (\<lambda>h. h) (hw_support_evr_on_subscribe_change fifo_device None subs)"
    unfolding hw_support_evr_on_subscribe_change_def save_subscribed_def call_irq_set_def Let_def option.case
    by (intro keeps keeps_for_each flush) simp_all
  then show ?thesis by (simp add: keeps_fifo_def)
qed

definition mg_new :: "'s \<Rightarrow> 's modac_rm_data \<Rightarrow> 's modac_hw_support_def \<Rightarrow> 's mngdev_data" where
  "mg_new hw rm hws = snd (snd (the (mngdev_unlocked_ioctl hws env_ex MNG_DEV_IOC_CREATE (create_args 1 118) (mngdev_init_dev mdes_ex hw rm vs_ex))))"

lemma mg_new_facts:
  "mg_vdev_list (mg_new hw rm hws) = [100]" "mg_dispatch (mg_new hw rm hws) = event_dispatch_list_init"
  "mg_hw (mg_new hw rm hws) = hw" "ref_ptr (mg_ref (mg_new hw rm hws)) \<noteq> None" "vdd_priv (vdev_at (mg_new hw rm hws) 100) = Some 200"
  "\<not> vdd_direct_access_denied (vdev_at (mg_new hw rm hws) 100)"
  "map_option (\<lambda>x. (notified_events x, cb_events x)) (vdev_objs (mg_sys (mg_new hw rm hws)) 200) = Some (0, modac_cb_init (cb_events vdev_ex))"
  "mng_reachable hws (mngdev_init_dev mdes_ex hw rm vs_ex) (mg_new hw rm hws)"
proof -
  let ?mg = "mngdev_init_dev mdes_ex hw rm vs_ex"
  have ref: "ref_mtx (mg_ref ?mg) = False" "ref_ptr (mg_ref ?mg) \<noteq> None" "env_access_ok env_ex = (\<lambda>_. True)"
    by (simp_all add: mngdev_init_dev_def devref_init_def env_ex_def)
  show "mg_vdev_list (mg_new hw rm hws) = [100]" "mg_dispatch (mg_new hw rm hws) = event_dispatch_list_init"
    "mg_hw (mg_new hw rm hws) = hw" "ref_ptr (mg_ref (mg_new hw rm hws)) \<noteq> None" "vdd_priv (vdev_at (mg_new hw rm hws) 100) = Some 200"
    "\<not> vdd_direct_access_denied (vdev_at (mg_new hw rm hws) 100)"
   "map_option (\<lambda>x. (notified_events x, cb_events x)) (vdev_objs (mg_sys (mg_new hw rm hws)) 200) = Some (0, modac_cb_init (cb_events vdev_ex))"
    unfolding mg_new_def ioctl_ex_cmds(1) [OF ref]
    by (simp_all add: mng_ioctl_create_def create_args_copy create_args_ids mngdev_devref_unlock_def list_find_vdev_def
      list_find_vdev_by_name_def ex_simps hw_res_def_count_def devref_unlock_def devref_init_def vdev_init_dev_def event_list_clear_def)
  obtain r m1 mg1 where run: "mngdev_unlocked_ioctl hws env_ex MNG_DEV_IOC_CREATE (create_args 1 118) ?mg = Some (r, m1, mg1)"
    unfolding ioctl_ex_cmds(1) [OF ref] case_prod_unfold by blast
  have "env_ok env_ex ?mg" by (simp add: env_ok_def env_ex_def mngdev_init_dev_def vs_ex_def raw_des_ex_def)
  from mng_step.ioctl [OF this run] run show "mng_reachable hws ?mg (mg_new hw rm hws)" by (simp add: mg_new_def)
qed

definition fifo_defs :: "fifo_entry list evr_state modac_hw_res_def list" where
  "fifo_defs = evr_res_defs (ev_hw card_ex)"

lemma fifo_subscriber:
  obtains rm mg x where "modac_rm_init (\<lambda>_. True) fifo_defs = Inr rm"
    and "mng_reachable fifo_hws (mngdev_init_dev mdes_ex card_ex rm vs_ex) mg"
    and "mg_vdev_list mg = [100]" "vdd_priv (vdev_at mg 100) = Some 200" "\<not> vdd_direct_access_denied (vdev_at mg 100)"
    and "vdev_objs (mg_sys mg) 200 = Some x" "notified_events x = 0" "cb_events x = modac_cb_init (cb_events vdev_ex)"
    and "ev_dev (mg_hw mg) = [(40, 1, 2), (41, 3, 4)]"
    and "\<And>e. subscribers (mg_dispatch mg) e = (if e = 41 then [100] else [])"
proof -
  have "length fifo_defs = 2" by (simp add: fifo_defs_def evr_res_defs_def)
  then obtain rm where rm: "modac_rm_init (\<lambda>_. True) fifo_defs = Inr rm"
    by (cases "count_resources 0 0 fifo_defs") (simp add: modac_rm_init_def)
  let ?new = "mg_new card_ex rm fifo_hws" and ?l = "event_dispatch_list_init(41 := Some 100 # replicate 30 None)"
  let ?mg = "snd (modac_c_vdev_subscribe fifo_hws 100 41 VIRT_DEV_IOCTL_SUBSCRIBE_ACTION_SUBSCRIBE ?new)"
  note new = mg_new_facts [where hw = card_ex and rm = rm and hws = fifo_hws]
  have reach: "mng_reachable fifo_hws (mngdev_init_dev mdes_ex card_ex rm vs_ex) ?mg"
    using new(8) mng_step.vdev_subscribe [of 100 ?new fifo_hws 41 VIRT_DEV_IOCTL_SUBSCRIBE_ACTION_SUBSCRIBE] by (simp add: new(1))
  have card: "ev_dev card_ex = [(40, 1, 2), (41, 3, 4)]" by (simp add: card_ex_def)
  have "hw_on_subscribe_change fifo_hws s subs = run_state (hw_support_evr_on_subscribe_change fifo_device None subs) s" for s subs
    by (simp add: fifo_hws_def hw_support_evr_def)
  moreover have "event_dispatch_list_add event_dispatch_list_init 100 41 = (Inr 0, ?l)"
    by (simp add: event_dispatch_list_add_def event_dispatch_list_init_def numeral_eq_Suc)
  ultimately have "\<exists>hw1. ?mg = ?new\<lparr>mg_dispatch := ?l, mg_hw := hw1\<rparr> \<and> ev_dev hw1 = [(40, 1, 2), (41, 3, 4)]"
    using new(4) fifo_device_subscribe [of _ card_ex] card
    by (auto simp: modac_c_vdev_subscribe_def on_subscribe_change_def new(2,3) case_prod_unfold Let_def intro!: exI conjI refl)
  then obtain hw1 where mg: "?mg = ?new\<lparr>mg_dispatch := ?l, mg_hw := hw1\<rparr>" "ev_dev hw1 = [(40, 1, 2), (41, 3, 4)]" by blast
  have "subscribers ?l e = (if e = 41 then [100] else [])" for e
    by (simp add: subscribers_def event_ok_def event_dispatch_list_init_def) linarith
  with that [OF rm reach] new(1,5,6,7) mg show ?thesis by auto
qed

text \<open>One interrupt: of the two entries, the VIRT_DEV reads the one with the code 41, 10 bytes.\<close>

lemma interrupt_reaches_reader_witness:
  "\<exists>mg v1 v2. vdev_objs (mg_sys (modac_mngdev_isr fifo_hws mg)) 200 = Some v1
     \<and> vdev_read False [] 14 (vdev_at (modac_mngdev_isr fifo_hws mg) 100, v1, \<lambda>_. Some 0) =
         Some (Inr 10, vdev_at mg 100, v2, read_into (\<lambda>_. Some 0) 0 (le16_bytes 41 @ le32_bytes 3 @ le32_bytes 4))"
proof -
  obtain rm mg x where rm: "modac_rm_init (\<lambda>_. True) fifo_defs = Inr rm"
    and reach: "mng_reachable fifo_hws (mngdev_init_dev mdes_ex card_ex rm vs_ex) mg"
    and mg: "mg_vdev_list mg = [100]" "vdd_priv (vdev_at mg 100) = Some 200" "\<not> vdd_direct_access_denied (vdev_at mg 100)"
    and x: "vdev_objs (mg_sys mg) 200 = Some x" "notified_events x = 0" "cb_events x = modac_cb_init (cb_events vdev_ex)"
    and dev: "ev_dev (mg_hw mg) = [(40, 1, 2), (41, 3, 4)]"
    and subs: "\<And>e. subscribers (mg_dispatch mg) e = (if e = 41 then [100] else [])" by (rule fifo_subscriber) blast
  have inv: "cb_invar (cb_events x)" unfolding x(3) by (rule cb_invar_init) (simp add: vdev_ex_def modac_cb_init_def blank_cb_def)
  have read: "io_read_u32 fifo_device (ev_dev (mg_hw mg)) EVR_REG_IRQFLAG = (swab32 (BIT 3), ev_dev (mg_hw mg))"
    by (simp add: fifo_device_def dev)
  have priv: "priv_of mg 100 = 200" by (simp add: priv_of_def mg)
  have empty: "packets (cb_events x) = []" by (simp add: x(3))
  have room: "cb_count (cb_events x) + 257 \<le> 1022" using length_packets [of "cb_events x"] by (simp add: empty)
  have full: "bit (BIT 3 :: u32) 3" "ev_dev (mg_hw mg) \<noteq> []" "100 \<in> set (mg_vdev_list mg)" "vdev_objs (mg_sys mg) (priv_of mg 100) = Some x"
    "vdev_invar x" "READ_EVENT_MAX \<le> 14" "writable (\<lambda>_. Some 0) 0 14"
    by (simp_all add: dev mg priv x(1) vdev_invar_def inv writable_def)
  from interrupt_reaches_reader [OF fifo_hws_def rm reach fifo_device_fifo read full(1-5) room mg(3) full(6,7), of False "[]"]
  obtain v1 where v1: "vdev_objs (mg_sys (modac_mngdev_isr fifo_hws mg)) 200 = Some v1"
    "packets (cb_events v1) = irq_packets mg 100 (BIT 3) (ev_dev (mg_hw mg))"
    "\<forall>e. event_list_test (notified_events v1) e \<longleftrightarrow> event_list_test 0 e \<or> event_ok e \<and> Notify e \<in> set (notifications (BIT 3)) \<and> 100 \<in> set (subscribers (mg_dispatch mg) e)"
    "pending v1 \<noteq> [] \<longrightarrow> (\<exists>v2. vdev_read False [] 14 (vdev_at (modac_mngdev_isr fifo_hws mg) 100, v1, \<lambda>_. Some 0) =
       Some (Inr (int (length (stream_bytes (fitting 14 (pending v1))))), vdev_at mg 100, v2,
                read_into (\<lambda>_. Some 0) 0 (stream_bytes (fitting 14 (pending v1)))))"
    unfolding priv empty x(2) append_Nil by blast
  have "event_list_test 0 e = False" for e using event_list_test_simps(1) [of 0 e] by (simp add: event_list_clear_def)
  with v1(3) have "mask_events (notified_events v1) = []" by (simp add: mask_events_def notifications_def)
  moreover have "irq_packets mg 100 (BIT 3) (ev_dev (mg_hw mg)) = [(41, le32_bytes 3 @ le32_bytes 4)]"
    by (simp add: irq_packets_def subs dev fifo_code_def fifo_packet_def)
  ultimately have "pending v1 = [(41, le32_bytes 3 @ le32_bytes 4)]" using v1(2) by (simp add: pending_def)
  with v1(1,4) show ?thesis by (auto simp: packet_bytes_def)
qed

end
