(* ===== verification/Queue_Concurrent.thy ===== *)
theory Queue_Concurrent
  imports Packet_Queue
begin

text \<open>
  The packet queue with its two sides running at the same time (src/src/packet-queue.c). The interrupt side writes under
  the lock of the MNG_DEV, the readers under a lock of their own (\<open>cb_reader_lock\<close> of virt-dev.c), so that one
  \<open>modac_cb_put\<close> and one \<open>modac_cb_get\<close> can be in progress together; what orders them are the two indices and the
  memory barriers. Here each access to the shared ring is one step: the load of an index, the store of a field or of one byte of the
  data, the store of an index. The barriers are what makes the accesses of one side take effect in the order of the program. A
  run of one side alone is the call of \<open>Packet_Queue\<close>, and with both sides in any interleaving the ring is a
  queue: the two never access the same slot, and the reads return what was published, in order.
\<close>

section \<open>The steps\<close>

text \<open>Where the writer is in \<open>modac_cb_put\<close>, with its local variables.\<close>

datatype writer_pc =
    W_Idle
  | W_Called int "u8 list" nat
  | W_Head int "u8 list" nat ulong
  | W_Loaded int "u8 list" nat ulong ulong
  | W_Event int "u8 list" nat ulong
  | W_Copy int "u8 list" nat ulong nat
  | W_Overflow ulong
  | W_Publish ulong packet

text \<open>Where the reader is in \<open>modac_cb_get\<close>; the bytes are those stored in the caller's buffer.\<close>

datatype reader_pc =
    R_Idle
  | R_Head ulong
  | R_Loaded ulong
  | R_Event ulong "u8 list"
  | R_Copy ulong nat "u8 list"
  | R_Copied ulong "u8 list"
  | R_Released ulong "u8 list"

text \<open>
  The ring, the two sides, and their history: the results of the calls of \<open>modac_cb_put\<close>, the packets whose
  publication the writer has made, how many slots the reader has released, the results and the bytes of the calls of \<open>modac_cb_get\<close>.
\<close>

record ring_sys =
  rs_cb :: modac_circ_buf
  rs_writer :: writer_pc
  rs_reader :: reader_pc
  rs_put_results :: "int res list"
  rs_published :: "packet list"
  rs_taken :: nat
  rs_returned :: "(int \<times> u8 list) list"

text \<open>A store of the writer to the slot at \<open>head\<close>.\<close>

definition store_slot :: "ulong \<Rightarrow> (modac_circ_buf_entry \<Rightarrow> modac_circ_buf_entry) \<Rightarrow> modac_circ_buf \<Rightarrow> modac_circ_buf" where
  "store_slot head f cb = cb\<lparr>cb_buf := (cb_buf cb)(unat head := f (cb_buf cb (unat head)))\<rparr>"

abbreviation slot_at :: "ring_sys \<Rightarrow> ulong \<Rightarrow> modac_circ_buf_entry" where
  "slot_at s i \<equiv> cb_buf (rs_cb s) (unat i)"

text \<open>
  \<open>modac_cb_put\<close>. The size of \<open>data\<close> is that of the caller's object. When the last slot but one is left, an overflow packet is
  written unless the flag says that this was done; then the slot is published as it is.
\<close>

inductive writer_step :: "ring_sys \<Rightarrow> ring_sys \<Rightarrow> bool" where
  put_call: "rs_writer s = W_Idle \<Longrightarrow> len \<le> length data \<Longrightarrow>
    writer_step s (s\<lparr>rs_writer := W_Called event data len\<rparr>)"
| put_head: "rs_writer s = W_Called event data len \<Longrightarrow>
    writer_step s (s\<lparr>rs_writer := W_Head event data len (cb_head (rs_cb s))\<rparr>)"
| put_tail: "rs_writer s = W_Head event data len head \<Longrightarrow>
    writer_step s (s\<lparr>rs_writer := W_Loaded event data len head (cb_tail (rs_cb s))\<rparr>)"
| put_refused: "rs_writer s = W_Loaded event data len head tail \<Longrightarrow>
    len > CBUF_EVENT_ENTRY_DATA_LENGTH \<or> \<not> CIRC_SPACE head tail CBUF_EVENT_COUNT \<ge> 1 \<Longrightarrow>
    writer_step s (s\<lparr>rs_writer := W_Idle, rs_put_results := rs_put_results s @ [Inl ENOMEM]\<rparr>)"
| put_event: "rs_writer s = W_Loaded event data len head tail \<Longrightarrow> len \<le> CBUF_EVENT_ENTRY_DATA_LENGTH \<Longrightarrow>
    CIRC_SPACE head tail CBUF_EVENT_COUNT > 1 \<Longrightarrow>
    writer_step s (s\<lparr>rs_cb := store_slot head (\<lambda>e. e\<lparr>cbe_event := word_of_int event\<rparr>) (rs_cb s),
      rs_writer := W_Event event data len head\<rparr>)"
| put_length: "rs_writer s = W_Event event data len head \<Longrightarrow>
    writer_step s (s\<lparr>rs_cb := store_slot head (\<lambda>e. e\<lparr>cbe_length := of_nat len\<rparr>) (rs_cb s),
      rs_writer := W_Copy event data len head 0\<rparr>)"
| put_byte: "rs_writer s = W_Copy event data len head i \<Longrightarrow> i < len \<Longrightarrow>
    writer_step s (s\<lparr>rs_cb := store_slot head (\<lambda>e. e\<lparr>cbe_data := (cbe_data e)[i := data ! i]\<rparr>) (rs_cb s),
      rs_writer := W_Copy event data len head (i + 1)\<rparr>)"
| put_flag: "rs_writer s = W_Copy event data len head i \<Longrightarrow> \<not> i < len \<Longrightarrow>
    writer_step s (s\<lparr>rs_cb := (rs_cb s)\<lparr>cb_overflow_written := False\<rparr>,
      rs_writer := W_Publish head (word_of_int event, take len data)\<rparr>)"
| put_overflow: "rs_writer s = W_Loaded event data len head tail \<Longrightarrow> len \<le> CBUF_EVENT_ENTRY_DATA_LENGTH \<Longrightarrow>
    CIRC_SPACE head tail CBUF_EVENT_COUNT = 1 \<Longrightarrow> \<not> cb_overflow_written (rs_cb s) \<Longrightarrow>
    writer_step s (s\<lparr>rs_cb := store_slot head (\<lambda>e. e\<lparr>cbe_event := MODAC_EVENT_READ_OVERFLOW\<rparr>) (rs_cb s),
      rs_writer := W_Overflow head\<rparr>)"
| put_overflow_length: "rs_writer s = W_Overflow head \<Longrightarrow>
    writer_step s (s\<lparr>rs_cb := (store_slot head (\<lambda>e. e\<lparr>cbe_length := 0\<rparr>) (rs_cb s))\<lparr>cb_overflow_written := True\<rparr>,
      rs_writer := W_Publish head (MODAC_EVENT_READ_OVERFLOW, [])\<rparr>)"
| put_again: "rs_writer s = W_Loaded event data len head tail \<Longrightarrow> len \<le> CBUF_EVENT_ENTRY_DATA_LENGTH \<Longrightarrow>
    CIRC_SPACE head tail CBUF_EVENT_COUNT = 1 \<Longrightarrow> cb_overflow_written (rs_cb s) \<Longrightarrow>
    writer_step s (s\<lparr>rs_writer := W_Publish head (packet_of (slot_at s head))\<rparr>)"
| put_publish: "rs_writer s = W_Publish head p \<Longrightarrow>
    writer_step s (s\<lparr>rs_cb := (rs_cb s)\<lparr>cb_head := (head + 1) AND (CBUF_EVENT_COUNT - 1)\<rparr>, rs_writer := W_Idle,
      rs_put_results := rs_put_results s @ [Inr 0], rs_published := rs_published s @ [p]\<rparr>)"

text \<open>
  \<open>modac_cb_get\<close>. The copying stops at the end of a slot (see \<open>modac_cb_get\<close>). The result is computed from the length
  in the slot after the slot has been released.
\<close>

inductive reader_step :: "ring_sys \<Rightarrow> ring_sys \<Rightarrow> bool" where
  get_head: "rs_reader s = R_Idle \<Longrightarrow>
    reader_step s (s\<lparr>rs_reader := R_Head (cb_head (rs_cb s))\<rparr>)"
| get_empty: "rs_reader s = R_Head head \<Longrightarrow> \<not> CIRC_CNT head (cb_tail (rs_cb s)) CBUF_EVENT_COUNT > 0 \<Longrightarrow>
    reader_step s (s\<lparr>rs_reader := R_Idle, rs_returned := rs_returned s @ [(0, [])]\<rparr>)"
| get_tail: "rs_reader s = R_Head head \<Longrightarrow> CIRC_CNT head (cb_tail (rs_cb s)) CBUF_EVENT_COUNT > 0 \<Longrightarrow>
    reader_step s (s\<lparr>rs_reader := R_Loaded (cb_tail (rs_cb s))\<rparr>)"
| get_event: "rs_reader s = R_Loaded tail \<Longrightarrow>
    reader_step s (s\<lparr>rs_reader := R_Event tail (le16_bytes (cbe_event (slot_at s tail)))\<rparr>)"
| get_length: "rs_reader s = R_Event tail bs \<Longrightarrow>
    reader_step s (s\<lparr>rs_reader := R_Copy tail (unat (cbe_length (slot_at s tail))) bs\<rparr>)"
| get_byte: "rs_reader s = R_Copy tail len bs \<Longrightarrow> length bs - 2 < len \<Longrightarrow> length bs - 2 < length (cbe_data (slot_at s tail)) \<Longrightarrow>
    reader_step s (s\<lparr>rs_reader := R_Copy tail len (bs @ [cbe_data (slot_at s tail) ! (length bs - 2)])\<rparr>)"
| get_copied: "rs_reader s = R_Copy tail len bs \<Longrightarrow> \<not> (length bs - 2 < len \<and> length bs - 2 < length (cbe_data (slot_at s tail))) \<Longrightarrow>
    reader_step s (s\<lparr>rs_reader := R_Copied tail bs\<rparr>)"
| get_release: "rs_reader s = R_Copied tail bs \<Longrightarrow>
    reader_step s (s\<lparr>rs_cb := (rs_cb s)\<lparr>cb_tail := (tail + 1) AND (CBUF_EVENT_COUNT - 1)\<rparr>,
      rs_reader := R_Released tail bs, rs_taken := rs_taken s + 1\<rparr>)"
| get_return: "rs_reader s = R_Released tail bs \<Longrightarrow>
    reader_step s (s\<lparr>rs_reader := R_Idle,
      rs_returned := rs_returned s @ [(2 + int (unat (cbe_length (slot_at s tail))), bs)]\<rparr>)"
section \<open>The system\<close>

definition ring_init :: "modac_circ_buf \<Rightarrow> ring_sys" where
  "ring_init cb = \<lparr>rs_cb = modac_cb_init cb, rs_writer = W_Idle, rs_reader = R_Idle, rs_put_results = [],
     rs_published = [], rs_taken = 0, rs_returned = []\<rparr>"

inductive ring_step :: "ring_sys \<Rightarrow> ring_sys \<Rightarrow> bool" where
  writer: "writer_step s s1 \<Longrightarrow> ring_step s s1"
| reader: "reader_step s s1 \<Longrightarrow> ring_step s s1"

abbreviation ring_reachable :: "ring_sys \<Rightarrow> ring_sys \<Rightarrow> bool" where
  "ring_reachable \<equiv> ring_step\<^sup>*\<^sup>*"

section \<open>Stores to the slot at the head\<close>

lemma head_not_occupied:
  assumes "cb_wf cb" and "i < cb_count cb"
  shows "(unat (cb_tail cb) + i) mod 1024 \<noteq> unat (cb_head cb)"
  using assms(2) cb_count_less [of cb] cb_count_nat [OF assms(1)] assms(1)
  by (auto simp: cb_wf_def mod_if split: if_splits)

lemma tail_not_head:
  assumes "cb_wf cb" and "0 < cb_count cb"
  shows "unat (cb_tail cb) \<noteq> unat (cb_head cb)"
  using head_not_occupied [OF assms] assms(1) by (simp add: cb_wf_def)

lemma released_not_head:
  assumes "cb_wf cb" and "cb_count cb < 1023" and "unat t < 1024" and "cb_tail cb = (t + 1) AND (CBUF_EVENT_COUNT - 1)"
  shows "unat t \<noteq> unat (cb_head cb)"
proof -
  have "unat (cb_tail cb) = (unat t + 1) mod 1024" using assms(3,4) unat_succ_1023 [of t] by simp
  then show ?thesis using assms(1-3) cb_count_nat [OF assms(1)] by (auto simp: cb_wf_def mod_if split: if_splits)
qed

lemma push_head: "cb\<lparr>cb_head := (cb_head cb + 1) AND (CBUF_EVENT_COUNT - 1)\<rparr> = cb_push cb (cb_head_slot cb) (cb_overflow_written cb)"
  by (simp add: cb_push_def cb_head_slot_def)

lemma push_head_buf: "cb_buf (cb_push cb (cb_head_slot cb) ow) = cb_buf cb"
  by (simp add: cb_push_def cb_head_slot_def)

lemma store_sel [simp]:
  "cb_head (store_slot h f cb) = cb_head cb" "cb_tail (store_slot h f cb) = cb_tail cb"
  "cb_overflow_written (store_slot h f cb) = cb_overflow_written cb" "cb_count (store_slot h f cb) = cb_count cb"
  "cb_buf (store_slot h f cb) (unat h) = f (cb_buf cb (unat h))"
  "n \<noteq> unat h \<Longrightarrow> cb_buf (store_slot h f cb) n = cb_buf cb n"
  by (simp_all add: store_slot_def cb_count_def)

lemma flag_sel [simp]:
  "cb_count (cb\<lparr>cb_overflow_written := b\<rparr>) = cb_count cb" "packets (cb\<lparr>cb_overflow_written := b\<rparr>) = packets cb"
  "cb_wf (cb\<lparr>cb_overflow_written := b\<rparr>) = cb_wf cb"
  by (simp_all add: cb_count_def packets_def cb_slot_def cb_wf_def cong: map_cong)

lemma store_wf:
  assumes "cb_wf cb" and "length (cbe_data (f (cb_buf cb (unat h)))) = CBUF_EVENT_ENTRY_DATA_LENGTH"
  shows "cb_wf (store_slot h f cb)"
  using assms by (auto simp: cb_wf_def store_slot_def)

lemma store_packets:
  assumes "cb_wf cb"
  shows "packets (store_slot (cb_head cb) f cb) = packets cb"
  using head_not_occupied [OF assms] by (auto simp: packets_def cb_slot_def intro!: map_cong)

section \<open>The invariant\<close>

text \<open>What is known at each point of the writer: the slot at the head is free and holds what was stored so far.\<close>

fun writer_ok :: "modac_circ_buf \<Rightarrow> writer_pc \<Rightarrow> bool" where
  "writer_ok cb W_Idle = True"
| "writer_ok cb (W_Called event data len) \<longleftrightarrow> len \<le> length data"
| "writer_ok cb (W_Head event data len head) \<longleftrightarrow> len \<le> length data \<and> head = cb_head cb"
| "writer_ok cb (W_Loaded event data len head tail) \<longleftrightarrow> len \<le> length data \<and> head = cb_head cb
     \<and> cb_count cb \<le> unat (CIRC_CNT head tail CBUF_EVENT_COUNT)"
| "writer_ok cb (W_Event event data len head) \<longleftrightarrow> len \<le> length data \<and> len \<le> CBUF_EVENT_ENTRY_DATA_LENGTH
     \<and> head = cb_head cb \<and> cb_count cb < 1023 \<and> cbe_event (cb_head_slot cb) = word_of_int event"
| "writer_ok cb (W_Copy event data len head i) \<longleftrightarrow> len \<le> length data \<and> len \<le> CBUF_EVENT_ENTRY_DATA_LENGTH \<and> i \<le> len
     \<and> head = cb_head cb \<and> cb_count cb < 1023 \<and> cbe_event (cb_head_slot cb) = word_of_int event
     \<and> cbe_length (cb_head_slot cb) = of_nat len \<and> take i (cbe_data (cb_head_slot cb)) = take i data"
| "writer_ok cb (W_Overflow head) \<longleftrightarrow> head = cb_head cb \<and> cb_count cb < 1023
     \<and> cbe_event (cb_head_slot cb) = MODAC_EVENT_READ_OVERFLOW"
| "writer_ok cb (W_Publish head p) \<longleftrightarrow> head = cb_head cb \<and> cb_count cb < 1023 \<and> packet_of (cb_head_slot cb) = p"

text \<open>What is known at each point of the reader: a loaded head is not beyond the present one, the slot does not change.\<close>

fun reader_ok :: "modac_circ_buf \<Rightarrow> reader_pc \<Rightarrow> bool" where
  "reader_ok cb R_Idle = True"
| "reader_ok cb (R_Head head) \<longleftrightarrow> unat (CIRC_CNT head (cb_tail cb) CBUF_EVENT_COUNT) \<le> cb_count cb"
| "reader_ok cb (R_Loaded tail) \<longleftrightarrow> tail = cb_tail cb \<and> 0 < cb_count cb"
| "reader_ok cb (R_Event tail bs) \<longleftrightarrow> tail = cb_tail cb \<and> 0 < cb_count cb \<and> bs = le16_bytes (cbe_event (cb_slot cb 0))"
| "reader_ok cb (R_Copy tail len bs) \<longleftrightarrow> tail = cb_tail cb \<and> 0 < cb_count cb \<and> len = unat (cbe_length (cb_slot cb 0))
     \<and> (\<exists>k\<le>len. k \<le> length (cbe_data (cb_slot cb 0)) \<and> bs = le16_bytes (cbe_event (cb_slot cb 0)) @ take k (cbe_data (cb_slot cb 0)))"
| "reader_ok cb (R_Copied tail bs) \<longleftrightarrow> tail = cb_tail cb \<and> 0 < cb_count cb \<and> bs = packet_bytes (packet_of (cb_slot cb 0))"
| "reader_ok cb (R_Released tail bs) \<longleftrightarrow> unat tail < 1024 \<and> cb_tail cb = (tail + 1) AND (CBUF_EVENT_COUNT - 1)
     \<and> bs = packet_bytes (packet_of (cb_buf cb (unat tail)))"

text \<open>No slot of the ring, also of those never written, has a length above 12.\<close>

definition slots_sound :: "modac_circ_buf \<Rightarrow> bool" where
  "slots_sound cb \<longleftrightarrow> (\<forall>n. unat (cbe_length (cb_buf cb n)) \<le> CBUF_EVENT_ENTRY_DATA_LENGTH)"

definition ring_ok :: "ring_sys \<Rightarrow> bool" where
  "ring_ok s \<longleftrightarrow> cb_wf (rs_cb s) \<and> slots_sound (rs_cb s) \<and> writer_ok (rs_cb s) (rs_writer s) \<and> reader_ok (rs_cb s) (rs_reader s)"

lemma slot_0: "cb_wf cb \<Longrightarrow> cb_slot cb 0 = cb_buf cb (unat (cb_tail cb))"
  by (simp add: cb_slot_def cb_wf_def)

text \<open>A store of the writer does not reach what the reader looks at.\<close>

lemma reader_ok_store:
  assumes "cb_wf cb" and "cb_count cb < 1023" and "reader_ok cb r"
    and "length (cbe_data (f (cb_head_slot cb))) = CBUF_EVENT_ENTRY_DATA_LENGTH"
  shows "reader_ok (store_slot (cb_head cb) f cb) r"
proof -
  have wf: "cb_wf (store_slot (cb_head cb) f cb)" using store_wf [OF assms(1)] assms(4) by (simp add: cb_head_slot_def)
  have slot: "0 < cb_count cb \<Longrightarrow> cb_slot (store_slot (cb_head cb) f cb) 0 = cb_slot cb 0"
    using tail_not_head [OF assms(1)] by (simp add: slot_0 [OF wf] slot_0 [OF assms(1)])
  show ?thesis
    using assms(3) slot released_not_head [OF assms(1,2)] by (cases r) auto
qed

lemma reader_ok_flag: "reader_ok (cb\<lparr>cb_overflow_written := b\<rparr>) r = reader_ok cb r"
  by (cases r) (simp_all add: cb_slot_def)

lemma reader_ok_push:
  assumes "cb_wf cb" and "cb_count cb < 1023" and "reader_ok cb r"
  shows "reader_ok (cb_push cb (cb_head_slot cb) ow) r"
proof -
  let ?e = "cb_head_slot cb"
  have e: "length (cbe_data ?e) = CBUF_EVENT_ENTRY_DATA_LENGTH" by (rule cb_invar_length [OF assms(1)])
  have slot: "0 < cb_count cb \<Longrightarrow> cb_slot (cb_push cb ?e ow) 0 = cb_slot cb 0"
    using cb_slot_push(1) [OF assms(1,2)] by blast
  show ?thesis
    using assms(3) slot by (cases r) (auto simp: cb_count_push [OF assms(1,2) e] cb_push_sel(1) [OF assms(1)] push_head_buf)
qed

lemma writer_ok_pop:
  assumes "cb_wf cb" and "0 < cb_count cb" and "writer_ok cb w"
  shows "writer_ok (cb_pop cb) w"
proof -
  have "cb_count (cb_pop cb) \<le> cb_count cb" using cb_count_pop [OF assms(1)] assms(2) by simp
  moreover have "cb_head (cb_pop cb) = cb_head cb" "cb_head_slot (cb_pop cb) = cb_head_slot cb"
    using cb_pop_sel [OF assms(1)] by (simp_all add: cb_head_slot_def)
  ultimately show ?thesis using assms(3) by (cases w) auto
qed

lemma CIRC_SPACE_snapshot:
  assumes "cb_count cb \<le> unat (CIRC_CNT head tail CBUF_EVENT_COUNT)" and "1 \<le> CIRC_SPACE head tail CBUF_EVENT_COUNT"
  shows "cb_count cb < 1023"
  using assms CIRC_SPACE_ge_1 [of "cb\<lparr>cb_head := head, cb_tail := tail\<rparr>"] by (simp add: cb_count_def)
lemma slots_sound_head: "slots_sound cb \<Longrightarrow> unat (cbe_length (cb_head_slot cb)) \<le> CBUF_EVENT_ENTRY_DATA_LENGTH"
  by (simp add: slots_sound_def cb_head_slot_def)

lemma ring_ok_store:
  assumes "ring_ok s" and "cb_count (rs_cb s) < 1023"
    and "length (cbe_data (f (cb_head_slot (rs_cb s)))) = CBUF_EVENT_ENTRY_DATA_LENGTH"
    and "unat (cbe_length (f (cb_head_slot (rs_cb s)))) \<le> CBUF_EVENT_ENTRY_DATA_LENGTH"
    and "writer_ok (store_slot (cb_head (rs_cb s)) f (rs_cb s)) w"
  shows "ring_ok (s\<lparr>rs_cb := store_slot (cb_head (rs_cb s)) f (rs_cb s), rs_writer := w\<rparr>)"
  using assms reader_ok_store [of "rs_cb s" "rs_reader s" f]
  by (auto simp: ring_ok_def slots_sound_def cb_head_slot_def store_slot_def intro: store_wf [unfolded store_slot_def])

lemma head_slot_store [simp]: "cb_head_slot (store_slot (cb_head cb) f cb) = f (cb_head_slot cb)"
  by (simp add: cb_head_slot_def)

lemma head_slot_flag [simp]: "cb_head_slot (cb\<lparr>cb_overflow_written := b\<rparr>) = cb_head_slot cb"
  by (simp add: cb_head_slot_def)

lemma writer_step_ok: "writer_step s s1 \<Longrightarrow> ring_ok s \<Longrightarrow> ring_ok s1"
proof (induction rule: writer_step.induct)
  case (put_event s event data len head tail)
  then have h: "head = cb_head (rs_cb s)" and w: "writer_ok (rs_cb s) (W_Loaded event data len head tail)" by (auto simp: ring_ok_def)
  have "cb_count (rs_cb s) < 1023" using w CIRC_SPACE_snapshot [of "rs_cb s" head tail] less_imp_le [OF put_event.hyps(3)] by auto
  moreover have "cb_wf (rs_cb s)" "slots_sound (rs_cb s)" using put_event by (simp_all add: ring_ok_def)
  ultimately show ?case
    unfolding h using w put_event by (intro ring_ok_store) (simp_all add: cb_invar_length slots_sound_head)
next
  case (put_length s event data len head)
  then have w: "writer_ok (rs_cb s) (W_Event event data len head)" "cb_wf (rs_cb s)" by (auto simp: ring_ok_def)
  then show ?case
    using put_length by (simp add: ring_ok_store cb_invar_length)
next
  case (put_byte s event data len head i)
  then have w: "writer_ok (rs_cb s) (W_Copy event data len head i)" "cb_wf (rs_cb s)" by (auto simp: ring_ok_def)
  moreover from this have "take (i + 1) ((cbe_data (cb_head_slot (rs_cb s)))[i := data ! i]) = take (i + 1) data"
    using put_byte.hyps(2) by (simp add: take_Suc_conv_app_nth cb_invar_length)
  ultimately show ?case
    using put_byte by (simp add: ring_ok_store cb_invar_length)
next
  case (put_flag s event data len head i)
  then show ?case
    by (auto simp: ring_ok_def reader_ok_flag slots_sound_def packet_of_def)
next
  case (put_overflow s event data len head tail)
  then have h: "head = cb_head (rs_cb s)" and w: "writer_ok (rs_cb s) (W_Loaded event data len head tail)" by (auto simp: ring_ok_def)
  have "cb_count (rs_cb s) < 1023" using w CIRC_SPACE_snapshot [of "rs_cb s" head tail] put_overflow.hyps(3) by auto
  moreover have "cb_wf (rs_cb s)" "slots_sound (rs_cb s)" using put_overflow by (simp_all add: ring_ok_def)
  ultimately show ?case
    unfolding h using w put_overflow by (intro ring_ok_store) (simp_all add: cb_invar_length slots_sound_head)
next
  case (put_overflow_length s head)
  then have w: "writer_ok (rs_cb s) (W_Overflow head)" "cb_wf (rs_cb s)" by (auto simp: ring_ok_def)
  let ?s = "s\<lparr>rs_cb := store_slot head (\<lambda>e. e\<lparr>cbe_length := 0\<rparr>) (rs_cb s), rs_writer := W_Publish head (MODAC_EVENT_READ_OVERFLOW, [])\<rparr>"
  have "ring_ok ?s"
    using w put_overflow_length by (simp add: ring_ok_store cb_invar_length packet_of_def)
  then show ?case by (auto simp: ring_ok_def reader_ok_flag slots_sound_def)
next
  case (put_again s event data len head tail)
  then have w: "writer_ok (rs_cb s) (W_Loaded event data len head tail)" by (auto simp: ring_ok_def)
  have "cb_count (rs_cb s) < 1023" using w CIRC_SPACE_snapshot [of "rs_cb s" head tail] put_again.hyps(3) by auto
  with w put_again show ?case by (auto simp: ring_ok_def cb_head_slot_def)
next
  case (put_publish s head p)
  then have ok: "cb_wf (rs_cb s)" "slots_sound (rs_cb s)" "cb_count (rs_cb s) < 1023" "head = cb_head (rs_cb s)"
    "reader_ok (rs_cb s) (rs_reader s)" by (auto simp: ring_ok_def)
  then show ?case
    using reader_ok_push [OF ok(1,3,5)] cb_wf_push [OF ok(1) cb_invar_length [OF ok(1)]]
    by (simp add: ring_ok_def push_head [simplified] slots_sound_def push_head_buf)
qed (auto simp: ring_ok_def cb_count_def)

lemma reader_step_ok: "reader_step s s1 \<Longrightarrow> ring_ok s \<Longrightarrow> ring_ok s1"
proof (induction rule: reader_step.induct)
  case (get_tail s head)
  then have "unat (CIRC_CNT head (cb_tail (rs_cb s)) CBUF_EVENT_COUNT) \<le> cb_count (rs_cb s)" by (simp add: ring_ok_def)
  with get_tail show ?case by (auto simp: ring_ok_def word_less_nat_alt)
next
  case (get_event s tail)
  then show ?case by (auto simp: ring_ok_def slot_0)
next
  case (get_length s tail bs)
  then show ?case by (auto simp: ring_ok_def slot_0 intro: exI [of _ 0])
next
  case (get_byte s tail len bs)
  let ?e = "slot_at s tail"
  have ok: "cb_slot (rs_cb s) 0 = ?e" "len = unat (cbe_length ?e)" "0 < cb_count (rs_cb s)" "tail = cb_tail (rs_cb s)"
    using get_byte by (auto simp: ring_ok_def slot_0)
  have "\<exists>k\<le>len. k \<le> length (cbe_data ?e) \<and> bs = le16_bytes (cbe_event ?e) @ take k (cbe_data ?e)"
    using get_byte(1,4) ok(1) by (auto simp: ring_ok_def)
  then obtain k where k: "k \<le> len" "k \<le> length (cbe_data ?e)" "bs = le16_bytes (cbe_event ?e) @ take k (cbe_data ?e)"
    by blast
  then have "length bs - 2 = k" by simp
  with get_byte k have "Suc k \<le> len" "Suc k \<le> length (cbe_data ?e)" "bs @ [cbe_data ?e ! (length bs - 2)] = le16_bytes (cbe_event ?e) @ take (Suc k) (cbe_data ?e)"
    by (simp_all add: take_Suc_conv_app_nth)
  with get_byte(4) ok show ?case unfolding ring_ok_def by (auto intro!: exI [of _ "Suc k"])
next
  case (get_copied s tail len bs)
  let ?e = "slot_at s tail"
  have ok: "cb_slot (rs_cb s) 0 = ?e" "len = unat (cbe_length ?e)" "0 < cb_count (rs_cb s)" "tail = cb_tail (rs_cb s)"
    using get_copied by (auto simp: ring_ok_def slot_0)
  have "\<exists>k\<le>len. k \<le> length (cbe_data ?e) \<and> bs = le16_bytes (cbe_event ?e) @ take k (cbe_data ?e)"
    using get_copied(1,3) ok(1) by (auto simp: ring_ok_def)
  then obtain k where k: "k \<le> len" "k \<le> length (cbe_data ?e)" "bs = le16_bytes (cbe_event ?e) @ take k (cbe_data ?e)"
    by blast
  with get_copied have "k = len \<or> k = length (cbe_data ?e)" by auto
  then have "bs = packet_bytes (packet_of ?e)" using k ok(2) by (auto simp: packet_bytes_def packet_of_def)
  with get_copied(3) ok show ?case by (simp add: ring_ok_def)
next
  case (get_release s tail bs)
  then have ok: "cb_wf (rs_cb s)" "slots_sound (rs_cb s)" "0 < cb_count (rs_cb s)" "tail = cb_tail (rs_cb s)"
    "writer_ok (rs_cb s) (rs_writer s)" "bs = packet_bytes (packet_of (slot_at s tail))" by (auto simp: ring_ok_def slot_0)
  then show ?case
    using writer_ok_pop [OF ok(1,3,5)] cb_wf_pop [OF ok(1)]
    by (simp add: ring_ok_def cb_pop_def slots_sound_def cb_wf_def)
qed (auto simp: ring_ok_def cb_count_def)

lemma ring_reachable_ok: "ring_reachable s0 s \<Longrightarrow> ring_ok s0 \<Longrightarrow> ring_ok s"
  by (induction rule: rtranclp_induct) (auto elim!: ring_step.cases intro: writer_step_ok reader_step_ok)

lemma ring_ok_init: "slots_allocated cb \<Longrightarrow> slots_sound cb \<Longrightarrow> ring_ok (ring_init cb)"
  by (simp add: ring_ok_def ring_init_def slots_allocated_def slots_sound_def cb_wf_def modac_cb_init_def)

section \<open>The history\<close>

text \<open>How many packets the reads that have returned delivered.\<close>

definition delivered :: "ring_sys \<Rightarrow> nat" where
  "delivered s = rs_taken s - (case rs_reader s of R_Released _ _ \<Rightarrow> 1 | _ \<Rightarrow> 0)"

definition packet_result :: "packet \<Rightarrow> int \<times> u8 list" where
  "packet_result p = (int (length (packet_bytes p)), packet_bytes p)"

definition history_ok :: "ring_sys \<Rightarrow> bool" where
  "history_ok s \<longleftrightarrow> rs_taken s \<le> length (rs_published s) \<and> drop (rs_taken s) (rs_published s) = packets (rs_cb s)
     \<and> (\<forall>t bs. rs_reader s = R_Released t bs \<longrightarrow> 0 < rs_taken s \<and> bs = packet_bytes (rs_published s ! (rs_taken s - 1)))
     \<and> filter (\<lambda>r. fst r \<noteq> 0) (rs_returned s) = map packet_result (take (delivered s) (rs_published s))
     \<and> length (filter (\<lambda>r. r = Inr 0) (rs_put_results s)) = length (rs_published s)"

lemma packets_store: "ring_ok s \<Longrightarrow> head = cb_head (rs_cb s) \<Longrightarrow> packets (store_slot head f (rs_cb s)) = packets (rs_cb s)"
  by (simp add: ring_ok_def store_packets)

lemma writer_step_history: "writer_step s s1 \<Longrightarrow> ring_ok s \<Longrightarrow> history_ok s \<Longrightarrow> history_ok s1"
proof (induction rule: writer_step.induct)
  case (put_publish s head p)
  then have ok: "cb_wf (rs_cb s)" "cb_count (rs_cb s) < 1023" "head = cb_head (rs_cb s)" "packet_of (cb_head_slot (rs_cb s)) = p"
    by (auto simp: ring_ok_def)
  have "packets (cb_push (rs_cb s) (cb_head_slot (rs_cb s)) ow) = packets (rs_cb s) @ [p]" for ow
    using packets_push [OF ok(1,2) cb_invar_length [OF ok(1)]] ok(4) by simp
  moreover have "delivered s \<le> rs_taken s" by (simp add: delivered_def)
  ultimately show ?case
    using put_publish ok(3) by (auto simp: history_ok_def push_head [simplified] delivered_def nth_append)
qed (auto simp: history_ok_def delivered_def packets_store ring_ok_def store_packets)

text \<open>The packet at the tail is the next one of the history.\<close>

lemma taken_head:
  assumes "ring_ok s" and "history_ok s" and "0 < cb_count (rs_cb s)"
  shows "rs_taken s < length (rs_published s)" and "rs_published s ! rs_taken s = packet_of (cb_slot (rs_cb s) 0)"
    and "drop (Suc (rs_taken s)) (rs_published s) = packets (cb_pop (rs_cb s))"
proof -
  have wf: "cb_wf (rs_cb s)" using assms(1) by (simp add: ring_ok_def)
  have d: "drop (rs_taken s) (rs_published s) = packet_of (cb_slot (rs_cb s) 0) # packets (cb_pop (rs_cb s))"
    using assms(2,3) packets_pop [OF wf] by (simp add: history_ok_def)
  then show lt: "rs_taken s < length (rs_published s)" by (metis drop_all linorder_not_le list.distinct(1))
  from d Cons_nth_drop_Suc [OF lt] show "rs_published s ! rs_taken s = packet_of (cb_slot (rs_cb s) 0)"
    "drop (Suc (rs_taken s)) (rs_published s) = packets (cb_pop (rs_cb s))" by simp_all
qed

lemma packet_result_nonzero [simp]: "fst (packet_result p) \<noteq> 0"
  by (simp add: packet_result_def packet_bytes_def)

lemma packet_result_sound:
  assumes "unat (cbe_length e) \<le> CBUF_EVENT_ENTRY_DATA_LENGTH" and "length (cbe_data e) = CBUF_EVENT_ENTRY_DATA_LENGTH"
  shows "packet_result (packet_of e) = (2 + int (unat (cbe_length e)), packet_bytes (packet_of e))"
  using assms by (simp add: packet_result_def packet_bytes_def packet_of_def)

lemma reader_step_history: "reader_step s s1 \<Longrightarrow> ring_ok s \<Longrightarrow> history_ok s \<Longrightarrow> history_ok s1"
proof (induction rule: reader_step.induct)
  case (get_release s tail bs)
  then have c: "0 < cb_count (rs_cb s)" "tail = cb_tail (rs_cb s)" "bs = packet_bytes (packet_of (cb_slot (rs_cb s) 0))"
    by (auto simp: ring_ok_def)
  note head = taken_head [OF get_release(2,3) c(1)]
  have "(rs_cb s)\<lparr>cb_tail := (tail + 1) AND (CBUF_EVENT_COUNT - 1)\<rparr> = cb_pop (rs_cb s)" using c(2) by (simp add: cb_pop_def)
  then show ?case using get_release head c(3) by (auto simp: history_ok_def delivered_def)
next
  case (get_return s tail bs)
  then have e: "slots_sound (rs_cb s)" "cb_wf (rs_cb s)" "bs = packet_bytes (packet_of (slot_at s tail))" by (auto simp: ring_ok_def)
  then have res: "(2 + int (unat (cbe_length (slot_at s tail))), bs) = packet_result (packet_of (slot_at s tail))"
    by (subst packet_result_sound) (auto simp: slots_sound_def cb_wf_def)
  have t: "0 < rs_taken s" "packet_bytes (rs_published s ! (rs_taken s - 1)) = bs" "rs_taken s \<le> length (rs_published s)"
    using get_return by (auto simp: history_ok_def)
  have "packet_result (rs_published s ! (rs_taken s - 1)) = packet_result (packet_of (slot_at s tail))"
    using t(2) e(3) by (simp add: packet_result_def)
  moreover have "take (rs_taken s) (rs_published s) = take (rs_taken s - 1) (rs_published s) @ [rs_published s ! (rs_taken s - 1)]"
    using t take_Suc_conv_app_nth [of "rs_taken s - 1" "rs_published s"] by simp
  ultimately show ?case
    unfolding res using get_return t(1,3) by (simp add: history_ok_def delivered_def)
qed (auto simp: history_ok_def delivered_def)

lemma ring_reachable_history:
  assumes "ring_reachable s0 s" and "ring_ok s0" and "history_ok s0"
  shows "history_ok s"
  using assms(1)
proof (induction rule: rtranclp_induct)
  case (step s1 s2)
  then have "ring_ok s1" using ring_reachable_ok assms(2) by blast
  with step show ?case by (auto elim!: ring_step.cases intro: writer_step_history reader_step_history)
qed (rule assms(3))

lemma history_ok_init: "history_ok (ring_init cb)"
  by (simp add: history_ok_def ring_init_def delivered_def)

section \<open>One operation at a time\<close>

text \<open>The loops over the bytes are \<open>memcpy\<close>.\<close>

lemma copy_bytes:
  assumes "rs_writer s = W_Copy event data len head i" and "i \<le> len" and "len \<le> length data"
    and "len \<le> length (cbe_data (slot_at s head))"
  shows "writer_step\<^sup>*\<^sup>* s (s\<lparr>rs_cb := store_slot head (\<lambda>e. e\<lparr>cbe_data := take i (cbe_data e) @ take (len - i) (drop i data) @ drop len (cbe_data e)\<rparr>) (rs_cb s),
      rs_writer := W_Copy event data len head len\<rparr>)"
  using assms
proof (induction "len - i" arbitrary: i s)
  case 0
  then have "s\<lparr>rs_cb := store_slot head (\<lambda>e. e\<lparr>cbe_data := take i (cbe_data e) @ take (len - i) (drop i data) @ drop len (cbe_data e)\<rparr>) (rs_cb s),
      rs_writer := W_Copy event data len head len\<rparr> = s"
    by (simp add: store_slot_def)
  then show ?case by simp
next
  case (Suc n)
  let ?s = "s\<lparr>rs_cb := store_slot head (\<lambda>e. e\<lparr>cbe_data := (cbe_data e)[i := data ! i]\<rparr>) (rs_cb s), rs_writer := W_Copy event data len head (i + 1)\<rparr>"
  have i: "i < len" "i < length data" using Suc.hyps(2) Suc.prems(3) by auto
  have "writer_step s ?s" using writer_step.put_byte [OF Suc.prems(1) i(1)] by simp
  moreover have "writer_step\<^sup>*\<^sup>* ?s (?s\<lparr>rs_cb := store_slot head (\<lambda>e. e\<lparr>cbe_data := take (i + 1) (cbe_data e) @ take (len - (i + 1)) (drop (i + 1) data) @ drop len (cbe_data e)\<rparr>) (rs_cb ?s),
      rs_writer := W_Copy event data len head len\<rparr>)"
    using Suc i by (intro Suc.hyps(1)) auto
  moreover have "take (i + 1) (xs[i := data ! i]) @ take (len - (i + 1)) (drop (i + 1) data) @ drop len (xs[i := data ! i])
      = take i xs @ take (len - i) (drop i data) @ drop len xs" if "i < length xs" for xs
  proof -
    have "len - i = Suc (len - (i + 1))" using i by simp
    then have "take (len - i) (drop i data) = data ! i # take (len - (i + 1)) (drop (i + 1) data)"
      using i by (simp add: Cons_nth_drop_Suc [symmetric])
    then show ?thesis using that i by (simp add: take_Suc_conv_app_nth)
  qed
  moreover have "i < length (cbe_data (slot_at s head))" using i Suc.prems(4) by simp
  ultimately show ?case
    by (simp add: store_slot_def converse_rtranclp_into_rtranclp)
qed

lemma put_loads:
  assumes "rs_writer s = W_Idle" and "len \<le> length data"
  shows "writer_step\<^sup>*\<^sup>* s (s\<lparr>rs_writer := W_Loaded event data len (cb_head (rs_cb s)) (cb_tail (rs_cb s))\<rparr>)"
proof -
  let ?c = "s\<lparr>rs_writer := W_Called event data len\<rparr>" and ?h = "s\<lparr>rs_writer := W_Head event data len (cb_head (rs_cb s))\<rparr>"
  have "writer_step s ?c" by (rule writer_step.put_call [OF assms])
  moreover have "writer_step ?c ?h" using writer_step.put_head [of ?c event data len] by simp
  moreover have "writer_step ?h (s\<lparr>rs_writer := W_Loaded event data len (cb_head (rs_cb s)) (cb_tail (rs_cb s))\<rparr>)"
    using writer_step.put_tail [of ?h event data len "cb_head (rs_cb s)"] by simp
  ultimately show ?thesis by (meson r_into_rtranclp rtranclp.rtrancl_into_rtrancl)
qed

lemma put_publishes:
  assumes "rs_writer s = W_Publish (cb_head (rs_cb s)) p"
  shows "writer_step s (s\<lparr>rs_cb := (rs_cb s)\<lparr>cb_head := (cb_head (rs_cb s) + 1) AND (CBUF_EVENT_COUNT - 1)\<rparr>, rs_writer := W_Idle,
    rs_put_results := rs_put_results s @ [Inr 0], rs_published := rs_published s @ [p]\<rparr>)"
  by (rule writer_step.put_publish [OF assms])

lemma put_regular:
  assumes "rs_writer s = W_Loaded event data len (cb_head (rs_cb s)) (cb_tail (rs_cb s))" and "cb_wf (rs_cb s)"
    and "len \<le> length data" "len \<le> CBUF_EVENT_ENTRY_DATA_LENGTH" and "cb_count (rs_cb s) < 1022"
  shows "writer_step\<^sup>*\<^sup>* s (s\<lparr>rs_cb := cb_push (rs_cb s) (filled_slot (rs_cb s) event data len) False, rs_writer := W_Idle,
      rs_put_results := rs_put_results s @ [Inr 0], rs_published := rs_published s @ [(word_of_int event, take len data)]\<rparr>)"
proof -
  let ?h = "cb_head (rs_cb s)" and ?cb = "rs_cb s"
  let ?e = "s\<lparr>rs_cb := store_slot ?h (\<lambda>e. e\<lparr>cbe_event := word_of_int event\<rparr>) ?cb, rs_writer := W_Event event data len ?h\<rparr>"
  let ?l = "s\<lparr>rs_cb := store_slot ?h (\<lambda>e. e\<lparr>cbe_event := word_of_int event, cbe_length := of_nat len\<rparr>) ?cb, rs_writer := W_Copy event data len ?h 0\<rparr>"
  let ?d = "s\<lparr>rs_cb := store_slot ?h (\<lambda>e. e\<lparr>cbe_event := word_of_int event, cbe_length := of_nat len, cbe_data := memcpy (cbe_data e) data len\<rparr>) ?cb,
      rs_writer := W_Copy event data len ?h len\<rparr>"
  let ?f = "?d\<lparr>rs_cb := (rs_cb ?d)\<lparr>cb_overflow_written := False\<rparr>, rs_writer := W_Publish ?h (word_of_int event, take len data)\<rparr>"
  have "writer_step s ?e" using assms CIRC_SPACE_gt_1 [of ?cb] by (intro writer_step.put_event [OF assms(1)]) simp_all
  moreover have "writer_step ?e ?l" using writer_step.put_length [of ?e event data len ?h] by (simp add: store_slot_def)
  moreover have "writer_step\<^sup>*\<^sup>* ?l ?d"
    using copy_bytes [of ?l event data len ?h 0] assms by (simp add: store_slot_def memcpy_def cb_wf_def)
  moreover have "writer_step ?d ?f" using writer_step.put_flag [of ?d event data len ?h len] by simp
  moreover have "writer_step ?f (s\<lparr>rs_cb := cb_push (rs_cb s) (filled_slot (rs_cb s) event data len) False, rs_writer := W_Idle,
      rs_put_results := rs_put_results s @ [Inr 0], rs_published := rs_published s @ [(word_of_int event, take len data)]\<rparr>)"
    using put_publishes [of ?f "(word_of_int event, take len data)"] by (simp add: cb_push_def filled_slot_def cb_head_slot_def store_slot_def)
  ultimately show ?thesis by (meson converse_rtranclp_into_rtranclp rtranclp.rtrancl_into_rtrancl rtranclp_trans)
qed

lemma put_full:
  assumes "rs_writer s = W_Loaded event data len (cb_head (rs_cb s)) (cb_tail (rs_cb s))"
    and "len \<le> CBUF_EVENT_ENTRY_DATA_LENGTH" and "cb_count (rs_cb s) = 1022"
  shows "\<exists>p. writer_step\<^sup>*\<^sup>* s (s\<lparr>rs_cb := cb_push (rs_cb s) (pushed_slot (rs_cb s) event data len) True, rs_writer := W_Idle,
      rs_put_results := rs_put_results s @ [Inr 0], rs_published := rs_published s @ [p]\<rparr>)"
proof -
  let ?h = "cb_head (rs_cb s)" and ?cb = "rs_cb s"
  have one: "CIRC_SPACE ?h (cb_tail ?cb) CBUF_EVENT_COUNT = 1"
    using assms(3) CIRC_SPACE_ge_1 [of ?cb] CIRC_SPACE_gt_1 [of ?cb] by simp
  show ?thesis
  proof (cases "cb_overflow_written ?cb")
    case True
    let ?p = "packet_of (slot_at s ?h)"
    have "writer_step s (s\<lparr>rs_writer := W_Publish ?h ?p\<rparr>)" by (rule writer_step.put_again [OF assms(1,2) one True])
    moreover have "writer_step (s\<lparr>rs_writer := W_Publish ?h ?p\<rparr>) (s\<lparr>rs_cb := cb_push ?cb (pushed_slot ?cb event data len) True, rs_writer := W_Idle,
        rs_put_results := rs_put_results s @ [Inr 0], rs_published := rs_published s @ [?p]\<rparr>)"
      using put_publishes [of "s\<lparr>rs_writer := W_Publish ?h ?p\<rparr>" ?p] True assms(3)
      by (simp add: push_head [simplified] pushed_slot_def)
    ultimately show ?thesis by (meson r_into_rtranclp rtranclp.rtrancl_into_rtrancl)
  next
    case False
    let ?p = "(MODAC_EVENT_READ_OVERFLOW, [])"
    let ?o = "s\<lparr>rs_cb := store_slot ?h (\<lambda>e. e\<lparr>cbe_event := MODAC_EVENT_READ_OVERFLOW\<rparr>) ?cb, rs_writer := W_Overflow ?h\<rparr>"
    let ?l = "s\<lparr>rs_cb := (store_slot ?h (\<lambda>e. e\<lparr>cbe_event := MODAC_EVENT_READ_OVERFLOW, cbe_length := 0\<rparr>) ?cb)\<lparr>cb_overflow_written := True\<rparr>,
        rs_writer := W_Publish ?h ?p\<rparr>"
    have "writer_step s ?o" by (rule writer_step.put_overflow [OF assms(1,2) one False])
    moreover have "writer_step ?o ?l" using writer_step.put_overflow_length [of ?o ?h] by (simp add: store_slot_def)
    moreover have "writer_step ?l (s\<lparr>rs_cb := cb_push ?cb (pushed_slot ?cb event data len) True, rs_writer := W_Idle,
        rs_put_results := rs_put_results s @ [Inr 0], rs_published := rs_published s @ [?p]\<rparr>)"
      using put_publishes [of ?l ?p] False assms(3) by (simp add: cb_push_def pushed_slot_def overflow_slot_def cb_head_slot_def store_slot_def)
    ultimately show ?thesis by (meson r_into_rtranclp rtranclp.rtrancl_into_rtrancl)
  qed
qed

lemma put_alone:
  assumes "cb_wf (rs_cb s)" and "rs_writer s = W_Idle" and "len \<le> length data"
    and "modac_cb_put (rs_cb s) event data len wq = (r, cb1, wq1)"
  shows "\<exists>ps. writer_step\<^sup>*\<^sup>* s (s\<lparr>rs_cb := cb1, rs_writer := W_Idle, rs_put_results := rs_put_results s @ [r], rs_published := rs_published s @ ps\<rparr>)"
proof -
  let ?s = "s\<lparr>rs_writer := W_Loaded event data len (cb_head (rs_cb s)) (cb_tail (rs_cb s))\<rparr>"
  have start: "writer_step\<^sup>*\<^sup>* s ?s" by (rule put_loads [OF assms(2,3)])
  consider "len > CBUF_EVENT_ENTRY_DATA_LENGTH \<or> cb_count (rs_cb s) = 1023"
    | "len \<le> CBUF_EVENT_ENTRY_DATA_LENGTH" "cb_count (rs_cb s) < 1022" | "len \<le> CBUF_EVENT_ENTRY_DATA_LENGTH" "cb_count (rs_cb s) = 1022"
    using cb_count_less [of "rs_cb s"] by linarith
  then show ?thesis
  proof cases
    case 1
    then have "writer_step ?s (?s\<lparr>rs_writer := W_Idle, rs_put_results := rs_put_results ?s @ [Inl ENOMEM]\<rparr>)"
      using CIRC_SPACE_ge_1 [of "rs_cb s"] by (intro writer_step.put_refused) auto
    moreover have "?s\<lparr>rs_writer := W_Idle, rs_put_results := rs_put_results ?s @ [Inl ENOMEM]\<rparr>
        = s\<lparr>rs_cb := cb1, rs_writer := W_Idle, rs_put_results := rs_put_results s @ [r], rs_published := rs_published s @ []\<rparr>"
      using assms(4) 1 by (cases s) (auto simp: modac_cb_put_eq)
    ultimately show ?thesis using start by (metis rtranclp.rtrancl_into_rtrancl)
  next
    case 2
    with put_regular [of ?s event data len] assms start show ?thesis
      by (auto simp: modac_cb_put_eq pushed_slot_def intro: rtranclp_trans)
  next
    case 3
    with put_full [of ?s event data len] assms start show ?thesis
      by (auto simp: modac_cb_put_eq intro: rtranclp_trans)
  qed
qed

lemma copy_out:
  assumes "rs_reader s = R_Copy tail len bs" and "2 \<le> length bs" and "slot_at s tail = e"
    and "length bs - 2 + n \<le> len" and "length bs - 2 + n \<le> length (cbe_data e)"
  shows "reader_step\<^sup>*\<^sup>* s (s\<lparr>rs_reader := R_Copy tail len (bs @ take n (drop (length bs - 2) (cbe_data e)))\<rparr>)"
  using assms
proof (induction n arbitrary: bs s)
  case 0
  then have "s\<lparr>rs_reader := R_Copy tail len (bs @ take 0 (drop (length bs - 2) (cbe_data e)))\<rparr> = s" by simp
  then show ?case by (metis rtranclp.rtrancl_refl)
next
  case (Suc n)
  let ?b = "cbe_data e ! (length bs - 2)"
  let ?s = "s\<lparr>rs_reader := R_Copy tail len (bs @ [?b])\<rparr>"
  have "reader_step s ?s" using reader_step.get_byte [OF Suc.prems(1)] Suc.prems by simp
  moreover have "reader_step\<^sup>*\<^sup>* ?s (?s\<lparr>rs_reader := R_Copy tail len ((bs @ [?b]) @ take n (drop (length (bs @ [?b]) - 2) (cbe_data e)))\<rparr>)"
    using Suc.prems by (intro Suc.IH) auto
  moreover have "take (Suc n) (drop (length bs - 2) (cbe_data e)) = ?b # take n (drop (length (bs @ [?b]) - 2) (cbe_data e))"
  proof -
    have "length (bs @ [?b]) - 2 = Suc (length bs - 2)" using Suc.prems(2) by simp
    then show ?thesis using Suc.prems(5) by (simp add: Cons_nth_drop_Suc [symmetric])
  qed
  ultimately show ?case by (simp add: converse_rtranclp_into_rtranclp)
qed

lemma get_alone:
  assumes "cb_wf (rs_cb s)" and "rs_reader s = R_Idle" and "modac_cb_get (rs_cb s) = (n, bs, cb1)"
  shows "\<exists>k. reader_step\<^sup>*\<^sup>* s (s\<lparr>rs_cb := cb1, rs_reader := R_Idle, rs_taken := k, rs_returned := rs_returned s @ [(n, bs)]\<rparr>)"
proof -
  let ?cb = "rs_cb s" and ?t = "cb_tail (rs_cb s)"
  let ?h = "s\<lparr>rs_reader := R_Head (cb_head ?cb)\<rparr>"
  have start: "reader_step s ?h" by (rule reader_step.get_head [OF assms(2)])
  show ?thesis
  proof (cases "cb_count ?cb = 0")
    case True
    let ?r = "s\<lparr>rs_cb := cb1, rs_reader := R_Idle, rs_taken := rs_taken s, rs_returned := rs_returned s @ [(n, bs)]\<rparr>"
    have "n = 0 \<and> bs = [] \<and> cb1 = ?cb" using assms(3) True by (simp add: modac_cb_get_eq [OF assms(1)])
    then have "?h\<lparr>rs_reader := R_Idle, rs_returned := rs_returned ?h @ [(0, [])]\<rparr> = ?r" by (cases s) auto
    moreover have "reader_step ?h (?h\<lparr>rs_reader := R_Idle, rs_returned := rs_returned ?h @ [(0, [])]\<rparr>)"
      using True CIRC_CNT_pos [of ?cb] by (intro reader_step.get_empty) auto
    ultimately have "reader_step ?h ?r" by simp
    from rtranclp.rtrancl_into_rtrancl [OF r_into_rtranclp [of reader_step, OF start] this] show ?thesis by blast
  next
    case False
    let ?e = "slot_at s ?t" and ?len = "unat (cbe_length (slot_at s ?t))"
    let ?n = "min ?len (length (cbe_data ?e))" and ?l = "s\<lparr>rs_reader := R_Loaded ?t\<rparr>"
    let ?c = "s\<lparr>rs_reader := R_Copy ?t ?len (le16_bytes (cbe_event ?e))\<rparr>"
    let ?bs = "le16_bytes (cbe_event ?e) @ take ?n (cbe_data ?e)"
    let ?d = "s\<lparr>rs_reader := R_Copy ?t ?len ?bs\<rparr>" and ?r = "s\<lparr>rs_cb := cb_pop ?cb, rs_reader := R_Released ?t ?bs, rs_taken := rs_taken s + 1\<rparr>"
    note into = rtranclp.rtrancl_into_rtrancl [of reader_step] and trans = rtranclp_trans [of reader_step]
    have 1: "reader_step ?h ?l" using reader_step.get_tail [of ?h "cb_head ?cb"] CIRC_CNT_pos [of ?cb] False by simp
    let ?v = "s\<lparr>rs_reader := R_Event ?t (le16_bytes (cbe_event ?e))\<rparr>"
    have 2: "reader_step ?l ?v" using reader_step.get_event [of ?l ?t] by simp
    have l: "reader_step ?v ?c" using reader_step.get_length [of ?v ?t] by simp
    have 3: "reader_step\<^sup>*\<^sup>* ?c ?d" using copy_out [of ?c ?t ?len "le16_bytes (cbe_event ?e)" ?e ?n] by simp
    have 4: "reader_step ?d (s\<lparr>rs_reader := R_Copied ?t ?bs\<rparr>)"
      using reader_step.get_copied [of ?d ?t ?len ?bs] by auto
    have 5: "reader_step (s\<lparr>rs_reader := R_Copied ?t ?bs\<rparr>) ?r"
      using reader_step.get_release [of "s\<lparr>rs_reader := R_Copied ?t ?bs\<rparr>" ?t ?bs] by (simp add: cb_pop_def)
    have "reader_step\<^sup>*\<^sup>* s ?c" by (rule into [OF into [OF into [OF r_into_rtranclp [of reader_step, OF start] 1] 2] l])
    from trans [OF this 3] have "reader_step\<^sup>*\<^sup>* s ?d" .
    from into [OF this 4] have "reader_step\<^sup>*\<^sup>* s (s\<lparr>rs_reader := R_Copied ?t ?bs\<rparr>)" .
    from into [OF this 5] have run: "reader_step\<^sup>*\<^sup>* s ?r" .
    have "slot_at ?r ?t = ?e" by (simp add: cb_pop_def)
    moreover have "n = 2 + int ?len" "bs = ?bs" "cb1 = cb_pop ?cb"
      using assms(3) False by (auto simp: modac_cb_get_eq [OF assms(1)] slot_0 [OF assms(1)] packet_bytes_def packet_of_def min_def)
    ultimately have "reader_step ?r (s\<lparr>rs_cb := cb1, rs_reader := R_Idle, rs_taken := rs_taken s + 1, rs_returned := rs_returned s @ [(n, bs)]\<rparr>)"
      using reader_step.get_return [of ?r ?t ?bs] by (cases s) simp
    from into [OF run this] show ?thesis by blast
  qed
qed

section \<open>Properties\<close>

text \<open>The slot that the next step of the writer or of the reader accesses.\<close>

fun writer_slot :: "writer_pc \<Rightarrow> ulong option" where
  "writer_slot (W_Loaded event data len head tail) =
     (if len \<le> CBUF_EVENT_ENTRY_DATA_LENGTH \<and> CIRC_SPACE head tail CBUF_EVENT_COUNT \<ge> 1 then Some head else None)"
| "writer_slot (W_Event event data len head) = Some head"
| "writer_slot (W_Copy event data len head i) = Some head"
| "writer_slot (W_Overflow head) = Some head"
| "writer_slot _ = None"

fun reader_slot :: "reader_pc \<Rightarrow> ulong option" where
  "reader_slot (R_Loaded tail) = Some tail"
| "reader_slot (R_Event tail bs) = Some tail"
| "reader_slot (R_Copy tail len bs) = Some tail"
| "reader_slot (R_Released tail bs) = Some tail"
| "reader_slot _ = None"

lemma writer_slot_head:
  "writer_ok cb w \<Longrightarrow> writer_slot w = Some i \<Longrightarrow> i = cb_head cb \<and> cb_count cb < 1023"
  by (cases w) (auto split: if_splits intro: CIRC_SPACE_snapshot)

lemma reader_slot_not_head:
  assumes "cb_wf cb" and "cb_count cb < 1023" and "reader_ok cb r" and "reader_slot r = Some j"
  shows "unat j < 1024 \<and> unat j \<noteq> unat (cb_head cb)"
  using assms tail_not_head [OF assms(1)] released_not_head [OF assms(1,2)]
  by (cases r) (auto simp: cb_wf_def)

lemma ring_writer_run: "writer_step\<^sup>*\<^sup>* s t \<Longrightarrow> ring_reachable s t"
  by (induction rule: rtranclp_induct) (auto intro: ring_step.writer rtranclp.rtrancl_into_rtrancl)

lemma ring_reader_run: "reader_step\<^sup>*\<^sup>* s t \<Longrightarrow> ring_reachable s t"
  by (induction rule: rtranclp_induct) (auto intro: ring_step.reader rtranclp.rtrancl_into_rtrancl)

text \<open>A ring into which one packet was written.\<close>

lemma blank_cb_ok: "slots_allocated blank_cb" "slots_sound blank_cb"
  by (simp_all add: slots_allocated_def slots_sound_def blank_cb_def)

lemma ring_one_packet:
  obtains s where "ring_reachable (ring_init blank_cb) s" and "rs_writer s = W_Idle" "rs_reader s = R_Idle" "rs_returned s = []"
    and "cb_wf (rs_cb s)" "packets (rs_cb s) = [(3, [1, 2])]" "cb_count (rs_cb s) = 1"
proof -
  let ?i = "ring_init blank_cb"
  obtain r cb1 wq1 where put: "modac_cb_put (rs_cb ?i) 3 [1, 2] 2 0 = (r, cb1, wq1)"
    by (cases "modac_cb_put (rs_cb ?i) 3 [1, 2] 2 0") auto
  have wf: "cb_wf (rs_cb ?i)" using ring_ok_init [OF blank_cb_ok] by (simp add: ring_ok_def)
  from put_alone [OF wf _ _ put] obtain ps where
    "writer_step\<^sup>*\<^sup>* ?i (?i\<lparr>rs_cb := cb1, rs_writer := W_Idle, rs_put_results := rs_put_results ?i @ [r], rs_published := rs_published ?i @ ps\<rparr>)"
    (is "writer_step\<^sup>*\<^sup>* ?i ?s") by (auto simp: ring_init_def)
  then have reach: "ring_reachable ?i ?s" by (rule ring_writer_run)
  have "cb_invar (modac_cb_init blank_cb)" by (rule cb_invar_init) (simp add: blank_cb_def)
  then have "packets (cb_put (modac_cb_init blank_cb) 3 [1, 2]) = [(3, [1, 2])]"
    using cbq.put_room [of "modac_cb_init blank_cb" "[1, 2]" 3] by (simp add: cb_room_def)
  then have "packets cb1 = [(3, [1, 2])]" using put by (simp add: ring_init_def cb_put_def numeral_2_eq_2)
  moreover from this have "cb_count cb1 = 1" using length_packets [of cb1] by simp
  moreover have "cb_wf cb1" using ring_reachable_ok [OF reach ring_ok_init [OF blank_cb_ok]] by (simp add: ring_ok_def)
  ultimately show ?thesis using that [OF reach] by (simp add: ring_init_def)
qed







end
