(* ===== verification/Evr_Types.thy ===== *)
theory Evr_Types
  imports Evr_Irq
begin

text \<open>
  The state of the EVR's hardware support as a whole: the counts of its resources, the tables of the card and the arrays of the simulation fit together
  after every operation (src/src/evr.c, src/src/evr-irq-events.c, src/src/evr-sim.c).
\<close>

section \<open>Operations as steps\<close>

text \<open>What can happen to a hardware support between its start and its end, whatever the arguments.\<close>

inductive hw_step :: "'s modac_hw_support_def \<Rightarrow> 's \<Rightarrow> 's \<Rightarrow> bool" for hws where
  step_subscribe: "hw_on_subscribe_change hws s subs = (r, s1) \<Longrightarrow> hw_step hws s s1"
| step_init_res: "hw_init_res hws s t i = (r, s1) \<Longrightarrow> hw_step hws s s1"
| step_isr: "hw_isr hws s = (es, s1) \<Longrightarrow> hw_step hws s s1"
| step_ioctl: "hw_ioctl hws = Some f \<Longrightarrow> f s resources cmd m = (r, m1, s1) \<Longrightarrow> hw_step hws s s1"
| step_direct_ioctl: "hw_direct_ioctl hws = Some g \<Longrightarrow> g s cmd m = (r, m1, s1) \<Longrightarrow> hw_step hws s s1"

section \<open>Well-formed states\<close>

definition sim_typed :: "evr_sim_data \<Rightarrow> (int \<Rightarrow> int) \<Rightarrow> bool" where
  "sim_typed d counts \<longleftrightarrow> length (sim_prescaler_lengths d) = EVRSIM_PULSEGEN_COUNT \<and> length (sim_pulsegen_params d) = EVRSIM_PULSEGEN_COUNT
     \<and> length (sim_output_src d) = EVRSIM_OUTPUT_COUNT
     \<and> counts EVR_RES_TYPE_PULSEGEN = int EVRSIM_PULSEGEN_COUNT \<and> counts EVR_RES_TYPE_OUTPUT = int EVRSIM_OUTPUT_COUNT"

definition card_typed :: "evr_hw_data \<Rightarrow> (int \<Rightarrow> int) \<Rightarrow> bool" where
  "card_typed hw counts \<longleftrightarrow> type_ok (hd_type_data hw) \<and> counts EVR_RES_TYPE_PULSEGEN = pulsegen_count (hd_type_data hw)
     \<and> counts EVR_RES_TYPE_OUTPUT = out_res_count hw \<and> length (out_cfg hw) = 3
     \<and> (\<forall>i. 0 \<le> i \<and> i < out_res_count hw \<longrightarrow> find_out_cfg hw i \<noteq> None)"

definition evr_typed :: "'h evr_state \<Rightarrow> bool" where
  "evr_typed s = (case sim (ev_hw s) of Some d \<Rightarrow> sim_typed d (ev_res_count s) | None \<Rightarrow> card_typed (ev_hw s) (ev_res_count s))"

named_theorems keeps_types_intros \<open>computations that keep the state well-formed\<close>

definition keeps_types :: "('h, 'a) evr \<Rightarrow> bool" where
  "keeps_types f \<longleftrightarrow> (\<forall>s. evr_typed s \<longrightarrow> evr_typed (snd (run_state f s)))"

lemma keeps_types_return [keeps_types_intros]: "keeps_types (State_Monad.return x)" "keeps_types get_hw" "keeps_types (get_res_count t)"
  by (simp_all add: keeps_types_def)

lemma keeps_types_bind [keeps_types_intros]: "keeps_types f \<Longrightarrow> (\<And>x. keeps_types (g x)) \<Longrightarrow> keeps_types (State_Monad.bind f g)"
  by (auto simp: keeps_types_def split: prod.split)

lemma keeps_types_if [keeps_types_intros]: "keeps_types f \<Longrightarrow> keeps_types g \<Longrightarrow> keeps_types (if c then f else g)"
  by simp

lemma keeps_types_option [keeps_types_intros]: "keeps_types g \<Longrightarrow> (\<And>x. keeps_types (f x)) \<Longrightarrow> keeps_types (case r of None \<Rightarrow> g | Some x \<Rightarrow> f x)"
  by (cases r) simp_all

lemma keeps_types_pair [keeps_types_intros]: "(\<And>x y. keeps_types (f x y)) \<Longrightarrow> keeps_types (case p of (x, y) \<Rightarrow> f x y)"
  by (cases p) simp

lemma keeps_types_for_each [keeps_types_intros]: "(\<And>x. keeps_types (f x)) \<Longrightarrow> keeps_types (for_each f xs)"
  by (induction xs) (auto intro: keeps_types_intros)

lemma evr_typed_dev [simp]: "evr_typed (s\<lparr>ev_dev := h\<rparr>) = evr_typed s"
  by (simp add: evr_typed_def split: option.split)

lemma keeps_types_access [keeps_types_intros]:
  "keeps_types (evr_read16 io a)" "keeps_types (evr_write16 io a v)" "keeps_types (evr_read32 io a)" "keeps_types (evr_write32 io a w)"
  by (auto simp: keeps_types_def evr_read16_def evr_write16_def evr_read32_def evr_write32_def split: prod.split)

lemma evr_typed_hw:
  assumes "sim hw = sim (ev_hw s)" and "hd_type_data hw = hd_type_data (ev_hw s)" and "out_cfg hw = out_cfg (ev_hw s)"
    and "out_res_count hw = out_res_count (ev_hw s)"
  shows "evr_typed (s\<lparr>ev_hw := hw\<rparr>) = evr_typed s"
  using assms by (simp add: evr_typed_def card_typed_def find_out_cfg_def split: option.split)

lemma keeps_types_ram [keeps_types_intros]:
  "keeps_types (upd_hw (\<lambda>hw. hw\<lparr>map_ram := f hw\<rparr>))" "keeps_types (upd_hw (\<lambda>hw. hw\<lparr>mmap_slot := g hw\<rparr>))"
  by (simp_all add: keeps_types_def evr_typed_hw)

text \<open>The operations of the simulation change the contents of its arrays only.\<close>

lemma evr_typed_sim:
  assumes "evr_typed s" and "\<And>d c. sim_typed d c \<Longrightarrow> sim_typed (f d) c"
  shows "evr_typed (s\<lparr>ev_hw := upd_sim f (ev_hw s)\<rparr>)"
  using assms by (auto simp: evr_typed_def upd_sim_def card_typed_def find_out_cfg_def split: option.splits)

lemma sim_arrays:
  assumes "evr_typed s"
  shows "evr_typed (s\<lparr>ev_hw := snd (evr_sim_set_output_to_pulsegen (ev_hw s) i p)\<rparr>)"
    and "evr_typed (s\<lparr>ev_hw := snd (evr_sim_set_output_to_misc_func (ev_hw s) i func)\<rparr>)"
    and "evr_typed (s\<lparr>ev_hw := snd (evr_sim_set_pulsegen_param (ev_hw s) i q)\<rparr>)"
    and "evr_typed (s\<lparr>ev_hw := snd (evr_sim_init_res (ev_hw s) t i)\<rparr>)"
  using assms
  by (auto simp: evr_sim_set_output_to_pulsegen_def evr_sim_set_output_to_misc_func_def evr_sim_set_pulsegen_param_def evr_sim_init_res_def
      sim_typed_def intro!: evr_typed_sim)

lemma keeps_types_run_sim:
  "(\<And>s :: 'h evr_state. evr_typed s \<Longrightarrow> evr_typed (s\<lparr>ev_hw := snd (f (ev_hw s))\<rparr>)) \<Longrightarrow> keeps_types (run_sim f :: ('h, int res) evr)"
  by (simp add: keeps_types_def run_sim_def case_prod_unfold)

lemma keeps_types_sim [keeps_types_intros]:
  "keeps_types (run_sim (\<lambda>hw. evr_sim_set_output_to_pulsegen hw i p))"
  "keeps_types (run_sim (\<lambda>hw. evr_sim_set_output_to_misc_func hw i func))"
  "keeps_types (run_sim (\<lambda>hw. evr_sim_set_pulsegen_param hw i q))"
  by (rule keeps_types_run_sim, erule sim_arrays)+

section \<open>The operations\<close>

lemma keeps_types_flush [keeps_types_intros]: "keeps_types (evr_ram_map_change_flush io)" "keeps_types (evr_ram_map_init io)"
  unfolding evr_ram_map_init_def evr_ram_map_change_flush_def save_map_ram_def Let_def by (intro keeps_types_intros)+

lemma keeps_types_outputs [keeps_types_intros]:
  "keeps_types (evr_output_enable io b)" "keeps_types (evr_set_out_map io i func)" "keeps_types (set_pulse_params io a p d w)"
  unfolding evr_output_enable_def evr_set_out_map_def set_pulse_params_def by (intro keeps_types_intros)+

lemma keeps_types_irq_set [keeps_types_intros]: "keeps_types (call_irq_set f b)"
  by (cases f) (simp_all add: call_irq_set_def keeps_types_def)

lemma keeps_types_subscribe: "keeps_types (hw_support_evr_on_subscribe_change io irq_set subs)"
  unfolding hw_support_evr_on_subscribe_change_def save_subscribed_def Let_def by (intro keeps_types_intros)

lemma keeps_types_fifo [keeps_types_intros]: "keeps_types (read_fifo io n)"
  by (induction n) (auto simp: Let_def intro!: keeps_types_intros)

lemma keeps_types_isr: "keeps_types (hw_support_evr_isr io)"
  unfolding hw_support_evr_isr_def when_flag_def isr_databuf_def isr_event_def isr_fifofull_def copy_data_buf_def upd_slot_def Let_def
  by (intro keeps_types_intros)

lemma keeps_types_map_ram [keeps_types_intros]: "keeps_types (vevr_ioc_pulse_map_ram io stk all reading resources m)"
  unfolding vevr_ioc_pulse_map_ram_def write_map_def Let_def by (intro keeps_types_intros) (split map_ram_args.split, auto intro!: keeps_types_intros)

lemma keeps_types_ioctl: "keeps_types (hw_support_evr_ioctl io stk resources cmd m)"
  unfolding hw_support_evr_ioctl_def no_out_def evr_ioc_init_def evr_ioc_outset_def vevr_ioc_status_get_def vevr_ioc_pulse_param_set_def
    vevr_ioc_pulse_param_get_def vevr_ioc_pulse_prop_def Let_def
  by (intro keeps_types_intros)

lemma keeps_types_direct: "keeps_types (hw_support_evr_direct_ioctl io cmd m)"
  unfolding hw_support_evr_direct_ioctl_def axixadc_value_def Let_def by (intro keeps_types_intros)

lemma keeps_types_init_res: "keeps_types (hw_support_evr_init_res io t i)"
proof -
  have card: "keeps_types (set_pulse_params io (pulse_reg i) 0 0 0)" by (intro keeps_types_intros)
  have "evr_typed (snd (run_state (hw_support_evr_init_res io t i) s))" if s: "evr_typed s" for s :: "'a evr_state"
  proof (cases "sim (ev_hw s)")
    case None
    have "keeps_types (if t = EVR_RES_TYPE_PULSEGEN then do {
       set_pulse_params io (pulse_reg i) 0 0 0;
       evr_write32 io (pulse_reg i + EVR_REG_PULSE_CTRL_OFFSET) 0;
       for_each (\<lambda>k. upd_hw (\<lambda>hw. hw\<lparr>map_ram := (map_ram hw)(k := clear_pulse_bits (NOT (BIT (nat i))) (map_ram hw k))\<rparr>)) [0..<EVR_EVENT_CODES];
       evr_ram_map_change_flush io;
       State_Monad.return (Inr 0 :: int res)
     }
     else if t = EVR_RES_TYPE_OUTPUT then State_Monad.return (Inr 0)
     else State_Monad.return (Inl ENOSYS))"
      by (intro keeps_types_intros)
    with s None show ?thesis by (simp add: hw_support_evr_init_res_def keeps_types_def)
  next
    case (Some d)
    with sim_arrays(4) [OF s, of t i] show ?thesis by (simp add: hw_support_evr_init_res_def case_prod_unfold)
  qed
  then show ?thesis by (simp add: keeps_types_def)
qed

lemma evr_step_typed:
  assumes "hw_step (hw_support_evr io des irq_set stk) s s1" and "evr_typed s"
  shows "evr_typed s1"
  using assms(1)
proof cases
  case (step_subscribe subs r)
  with keeps_types_subscribe [of io irq_set subs] assms(2) show ?thesis
    by (auto simp: hw_support_evr_def keeps_types_def dest: spec [of _ s])
next
  case (step_init_res t i r)
  with keeps_types_init_res [of io t i] assms(2) show ?thesis
    by (auto simp: hw_support_evr_def keeps_types_def dest: spec [of _ s])
next
  case (step_isr es)
  with keeps_types_isr [of io] assms(2) show ?thesis
    by (auto simp: hw_support_evr_def keeps_types_def dest: spec [of _ s])
next
  case (step_ioctl f resources cmd m r m1)
  with keeps_types_ioctl [of io stk resources cmd m] assms(2) show ?thesis
    by (auto simp: hw_support_evr_def keeps_types_def dest: spec [of _ s] split: prod.splits)
next
  case (step_direct_ioctl f cmd m r m1)
  with keeps_types_direct [of io cmd m] assms(2) show ?thesis
    by (auto simp: hw_support_evr_def keeps_types_def dest: spec [of _ s] split: prod.splits)
qed

lemma out_cfg_covers:
  assumes "type_ok (hd_type_data hw)"
  shows "length (out_cfg (init_out_cfg hw)) = 3 \<and> (\<forall>i. 0 \<le> i \<and> i < out_res_count (init_out_cfg hw) \<longrightarrow> find_out_cfg (init_out_cfg hw) i \<noteq> None)"
  using assms by (auto simp: init_out_cfg_def Let_def find_out_cfg_def type_ok_def find_None_iff)

lemma evr_init_typed:
  assumes "hw_support_evr_init io des kmalloc_ok s = (Inr v, defs, s1)"
  shows "evr_typed s1"
proof (cases "md_io_start des")
  case None
  with assms show ?thesis
    by (auto simp: hw_support_evr_init_def Let_def evr_sim_init_def init_hw_data_def set_res_defs_def evr_typed_def sim_typed_def default_res_defs_def
        split: if_splits sum.splits)
next
  case (Some a)
  let ?s = "s\<lparr>ev_hw := align_mmap (zero_hw_data (mmap_mem (ev_hw s)) (slot_data (mmap_slot (ev_hw s))))\<rparr>"
  obtain fw s2 where read: "run_state (evr_read32 io EVR_REG_FW_VERSION) ?s = (fw, s2)" by fastforce
  then have s2: "ev_hw s2 = ev_hw ?s" by (auto simp: evr_read32_def split: prod.splits)
  obtain td where td: "evr_type_of (md_hw_support_hint1 des) fw = Some td"
    and s1: "s1 = snd (run_state (evr_ram_map_init io) (set_res_defs (evr_res_defs (init_out_cfg ((ev_hw s2)\<lparr>fw_version := fw, hd_type_data := td\<rparr>)))
        (s2\<lparr>ev_hw := init_out_cfg ((ev_hw s2)\<lparr>fw_version := fw, hd_type_data := td\<rparr>)\<rparr>)))"
    using assms Some read by (auto simp: hw_support_evr_init_def Let_def split: if_splits option.splits)
  let ?hw = "init_out_cfg ((ev_hw s2)\<lparr>fw_version := fw, hd_type_data := td\<rparr>)"
  have ok: "type_ok td"
    using evr_types_ok evr_type_of_types [OF td] by (simp add: list_all_iff)
  have hw: "hd_type_data ?hw = td" "sim ?hw = None"
    by (simp_all add: init_out_cfg_def Let_def s2 align_mmap_def zero_hw_data_def)
  have "0 \<le> out_res_count ?hw" using ok by (simp add: init_out_cfg_def Let_def type_ok_def)
  with ok hw out_cfg_covers [of "(ev_hw s2)\<lparr>fw_version := fw, hd_type_data := td\<rparr>"]
  have "evr_typed (set_res_defs (evr_res_defs ?hw) (s2\<lparr>ev_hw := ?hw\<rparr>))"
    by (simp add: evr_typed_def card_typed_def set_res_defs_def evr_res_defs_def type_ok_def)
  then show ?thesis
    unfolding s1 using keeps_types_flush(2) [of io] by (simp add: keeps_types_def)
qed

text \<open>
  C7: The state of the EVR's hardware support is well-formed from its start on, whatever card, platform and calls there are: after a successful
  \<open>init\<close>, with a card of any known type or with the simulation, and any sequence of changes of the subscriptions, resets of resources, interrupts and
  ioctl calls, the counts of the two resources agree with the tables, so that every index the resource manager can hand out is inside the arrays it
  selects: a pulse generator has its entry (and its bit in a word of the Map RAM), an output its configuration.
\<close>

theorem evr_always_typed:
  assumes "hw_init (hw_support_evr io des irq_set stk) kmalloc_ok s = (Inr v, defs, s1)"
    and "(hw_step (hw_support_evr io des irq_set stk))\<^sup>*\<^sup>* s1 t"
  shows "evr_typed t
    \<and> (\<forall>i. 0 \<le> i \<and> i < ev_res_count t EVR_RES_TYPE_PULSEGEN \<longrightarrow> i < 32 \<and>
        (case sim (ev_hw t) of Some d \<Rightarrow> nat i < length (sim_pulsegen_params d) \<and> nat i < length (sim_prescaler_lengths d)
         | None \<Rightarrow> nat i < length (pulsegen_data (hd_type_data (ev_hw t))) \<and> bits_ok (pulsegen_data (hd_type_data (ev_hw t)) ! nat i)))
    \<and> (\<forall>i. 0 \<le> i \<and> i < ev_res_count t EVR_RES_TYPE_OUTPUT \<longrightarrow>
        (case sim (ev_hw t) of Some d \<Rightarrow> nat i < length (sim_output_src d) | None \<Rightarrow> find_out_cfg (ev_hw t) i \<noteq> None))"
proof -
  have "evr_typed s1"
    using assms(1) by (intro evr_init_typed [of io des kmalloc_ok s v defs]) (simp add: hw_support_evr_def)
  with assms(2) have t: "evr_typed t"
    by (induction rule: rtranclp_induct) (auto intro: evr_step_typed)
  then show ?thesis
    by (auto simp: evr_typed_def sim_typed_def card_typed_def type_ok_def list_all_length split: option.splits)
qed

text \<open>The simulation is started and its interrupt called.\<close>

definition sim_des_ex :: modac_mngdev_des where
  "sim_des_ex = \<lparr>md_major = 240, md_minor = 224, md_io_start = None, md_io_start_phys = 0, md_io_size = 256, md_name = [115], md_hw_support_hint1 = 0\<rparr>"

definition evr_sim_ex :: "evr_sim_device evr_state modac_hw_support_def" where
  "evr_sim_ex = hw_support_evr evr_sim_rw_plugin sim_des_ex None []"

definition sim_raw :: "evr_sim_device evr_state" where
  "sim_raw = \<lparr>ev_hw = ev_hw evr_cpci, ev_res_count = (\<lambda>_. 0), ev_dev = evr_sim_device_init\<rparr>"

definition sim_started :: "evr_sim_device evr_state" where
  "sim_started = snd (snd (hw_init evr_sim_ex (\<lambda>_. True) sim_raw))"

lemma sim_started: "hw_init evr_sim_ex (\<lambda>_. True) sim_raw = (Inr 0, default_res_defs, sim_started)"
  by (simp add: sim_started_def evr_sim_ex_def hw_support_evr_def hw_support_evr_init_def sim_des_ex_def evr_sim_init_def Let_def)

lemma evr_always_typed_witness:
  "evr_typed (snd (hw_isr evr_sim_ex sim_started)) \<and> ev_res_count sim_started EVR_RES_TYPE_PULSEGEN = 16"
proof
  have "(hw_step evr_sim_ex)\<^sup>*\<^sup>* sim_started (snd (hw_isr evr_sim_ex sim_started))"
    by (rule r_into_rtranclp, rule hw_step.step_isr) (rule prod.collapse [symmetric])
  then show "evr_typed (snd (hw_isr evr_sim_ex sim_started))"
    using evr_always_typed [OF sim_started [unfolded evr_sim_ex_def]] unfolding evr_sim_ex_def by blast
  show "ev_res_count sim_started EVR_RES_TYPE_PULSEGEN = 16"
    by (simp add: sim_started_def evr_sim_ex_def hw_support_evr_def hw_support_evr_init_def sim_des_ex_def evr_sim_init_def Let_def
        set_res_defs_def default_res_defs_def)
qed

end
