(* ===== verification/Pci_Evr.thy ===== *)
theory Pci_Evr
  imports Evr_Irq
begin

text \<open>
  The PCI devices (src/src/pci-evr.c, plx.c): the table of the devices, how a card is taken over and given back,
  the bridges in front of the EVR, and the interrupt with the counter \<open>activity\<close> that keeps a removal
  from destroying a MNG_DEV that an interrupt uses. A device's state contains what is behind its IO
  memory, so that a \<open>'h pci_mrf_data\<close> is the device of its MNG_DEV. The kernel's calls that can fail get
  their results as arguments; what they hold afterwards is in the state.
\<close>

section \<open>State\<close>

abbreviation (input) MAX_PCI_MRF_DEVICES :: nat where "MAX_PCI_MRF_DEVICES \<equiv> 7"
abbreviation (input) MINOR_MULTIPLICATOR :: int where "MINOR_MULTIPLICATOR \<equiv> 32"
abbreviation (input) EVR_REG_PCIE_INT_SLAC :: u32 where "EVR_REG_PCIE_INT_SLAC \<equiv> 0x0014"
abbreviation (input) EVR_REG_PCIE_INT_SLAC_ENABLED_MASK :: u32 where "EVR_REG_PCIE_INT_SLAC_ENABLED_MASK \<equiv> 1"
abbreviation (input) EVR_REG_PCIE_INT_SLAC_STATUS_MASK :: u32 where "EVR_REG_PCIE_INT_SLAC_STATUS_MASK \<equiv> 2"

datatype pci_bridge = Bridge_None | Bridge_Plx | Bridge_Lattice | Bridge_Slac | Bridge_External

record evr_plx_data =
  plx_pLC :: "ptr option"
  plx_mrLC :: ulong
  plx_lenLC :: ulong

definition evr_plx_active :: "evr_plx_data \<Rightarrow> bool" where
  "evr_plx_active plx \<longleftrightarrow> plx_pLC plx \<noteq> None"

text \<open>
  \<open>pd_handlers\<close> counts the registrations of the
  interrupt handler for this device with the kernel.
\<close>

record 'h pci_mrf_data =
  pd_used :: bool
  pd_start :: ulong
  pd_length :: ulong
  pd_io_ptr :: "ptr option"
  pd_irq :: int
  pd_bar :: int
  pd_activity :: int
  pd_plx :: evr_plx_data
  pd_bridge :: pci_bridge
  pd_irq_enabled :: bool
  pd_mngdev_des :: modac_mngdev_des
  pd_external :: "ptr option"
  pd_pcidev :: "ptr option"
  pd_handlers :: nat
  pd_dev :: 'h

text \<open>
  What is behind the device: the EVR's registers, the PLX's interrupt register and the function of an external driver.
\<close>

record 'h pci_platform =
  pp_io :: "'h modac_io_rw_plugin"
  plx_read_INTCSR :: "'h \<Rightarrow> u16 \<times> 'h"
  plx_write_INTCSR :: "'h \<Rightarrow> u16 \<Rightarrow> 'h"
  ext_irq_enable :: "'h \<Rightarrow> bool \<Rightarrow> 'h"

type_synonym ('h, 'a) pci = "('h pci_mrf_data, 'a) state"

section \<open>Register access\<close>

definition read_u32 :: "'h pci_platform \<Rightarrow> u32 \<Rightarrow> ('h, u32) pci" where
  "read_u32 pp offset = State (\<lambda>d. case io_read_u32 (pp_io pp) (pd_dev d) offset of (v, h) \<Rightarrow> (v, d\<lparr>pd_dev := h\<rparr>))"

definition write_u32 :: "'h pci_platform \<Rightarrow> u32 \<Rightarrow> u32 \<Rightarrow> ('h, unit) pci" where
  "write_u32 pp offset val = State (\<lambda>d. ((), d\<lparr>pd_dev := io_write_u32 (pp_io pp) (pd_dev d) offset val\<rparr>))"

definition be_read_u32 :: "'h pci_platform \<Rightarrow> u32 \<Rightarrow> ('h, u32) pci" where
  "be_read_u32 pp offset = do { v \<leftarrow> read_u32 pp offset; State_Monad.return (swab32 v) }"

definition be_write_u32 :: "'h pci_platform \<Rightarrow> u32 \<Rightarrow> u32 \<Rightarrow> ('h, unit) pci" where
  "be_write_u32 pp offset val = write_u32 pp offset (swab32 val)"

text \<open>The register access that the MNG_DEV gets.\<close>

definition pci_rw_io_plugin :: "'h pci_platform \<Rightarrow> 'h pci_mrf_data modac_io_rw_plugin" where
  "pci_rw_io_plugin pp = \<lparr>
     io_read_u16 = (\<lambda>d off. case io_read_u16 (pp_io pp) (pd_dev d) off of (v, h) \<Rightarrow> (v, d\<lparr>pd_dev := h\<rparr>)),
     io_write_u16 = (\<lambda>d off v. d\<lparr>pd_dev := io_write_u16 (pp_io pp) (pd_dev d) off v\<rparr>),
     io_read_u32 = (\<lambda>d off. case io_read_u32 (pp_io pp) (pd_dev d) off of (v, h) \<Rightarrow> (v, d\<lparr>pd_dev := h\<rparr>)),
     io_write_u32 = (\<lambda>d off v. d\<lparr>pd_dev := io_write_u32 (pp_io pp) (pd_dev d) off v\<rparr>)\<rparr>"

section \<open>The bridges\<close>

abbreviation (input) PLX9030_INTCSR_LINTI1_ENA :: u16 where "PLX9030_INTCSR_LINTI1_ENA \<equiv> 0x0001"
abbreviation (input) PLX9030_INTCSR_LINTI1_POL :: u16 where "PLX9030_INTCSR_LINTI1_POL \<equiv> 0x0002"
abbreviation (input) PLX9030_INTCSR_LINTI1_STAT :: u16 where "PLX9030_INTCSR_LINTI1_STAT \<equiv> 0x0004"
abbreviation (input) PLX9030_INTCSR_PCI_IRQENA :: u16 where "PLX9030_INTCSR_PCI_IRQENA \<equiv> 0x0040"

definition plx_write :: "'h pci_platform \<Rightarrow> u16 \<Rightarrow> ('h, int) pci" where
  "plx_write pp v = State (\<lambda>d.
     if evr_plx_active (pd_plx d) then (case plx_read_INTCSR pp (plx_write_INTCSR pp (pd_dev d) v) of (r, h) \<Rightarrow> (uint r, d\<lparr>pd_dev := h\<rparr>))
     else (-1, d))"

definition evr_plx_irq_enable :: "'h pci_platform \<Rightarrow> ('h, int) pci" where
  "evr_plx_irq_enable pp = plx_write pp (PLX9030_INTCSR_LINTI1_ENA OR PLX9030_INTCSR_LINTI1_POL OR PLX9030_INTCSR_PCI_IRQENA)"

definition evr_plx_irq_disable :: "'h pci_platform \<Rightarrow> ('h, int) pci" where
  "evr_plx_irq_disable pp = plx_write pp (PLX9030_INTCSR_LINTI1_ENA OR PLX9030_INTCSR_LINTI1_POL)"

definition evr_plx_irq_is_not_evr :: "'h pci_platform \<Rightarrow> ('h, bool) pci" where
  "evr_plx_irq_is_not_evr pp = State (\<lambda>d.
     if evr_plx_active (pd_plx d) then (case plx_read_INTCSR pp (pd_dev d) of (r, h) \<Rightarrow> (r AND PLX9030_INTCSR_LINTI1_STAT = 0, d\<lparr>pd_dev := h\<rparr>))
     else (False, d))"

text \<open>Setting or clearing a bit of the Lattice bridge in the EVR's own register.\<close>

definition lattice_set :: "'h pci_platform \<Rightarrow> bool \<Rightarrow> ('h, u32) pci" where
  "lattice_set pp enable = do {
     irqen \<leftarrow> be_read_u32 pp EVR_REG_IRQEN;
     be_write_u32 pp EVR_REG_IRQEN (put_bit C_EVR_IRQ_PCIEE enable irqen);
     be_read_u32 pp EVR_REG_IRQEN
   }"

definition slac_set :: "'h pci_platform \<Rightarrow> bool \<Rightarrow> ('h, u32) pci" where
  "slac_set pp enable = do {
     be_write_u32 pp EVR_REG_PCIE_INT_SLAC (if enable then EVR_REG_PCIE_INT_SLAC_ENABLED_MASK else 0);
     be_read_u32 pp EVR_REG_PCIE_INT_SLAC
   }"

definition external_set :: "'h pci_platform \<Rightarrow> bool \<Rightarrow> ('h, unit) pci" where
  "external_set pp enable = State (\<lambda>d. ((), d\<lparr>pd_dev := ext_irq_enable pp (pd_dev d) enable\<rparr>))"

text \<open>The results of the functions are not used.\<close>

fun bridge_set :: "'h pci_platform \<Rightarrow> pci_bridge \<Rightarrow> bool \<Rightarrow> ('h, unit) pci" where
  "bridge_set pp Bridge_Plx enable =
     do { _ \<leftarrow> (if enable then evr_plx_irq_enable pp else evr_plx_irq_disable pp); State_Monad.return () }"
| "bridge_set pp Bridge_Lattice enable = do { _ \<leftarrow> lattice_set pp enable; State_Monad.return () }"
| "bridge_set pp Bridge_Slac enable = do { _ \<leftarrow> slac_set pp enable; State_Monad.return () }"
| "bridge_set pp Bridge_External enable = external_set pp enable"
| "bridge_set pp Bridge_None enable = State_Monad.return ()"

definition plx_bridge_irq_is_from_evr :: "'h pci_platform \<Rightarrow> ('h, bool) pci" where
  "plx_bridge_irq_is_from_evr pp = do { b \<leftarrow> evr_plx_irq_is_not_evr pp; State_Monad.return (\<not> b) }"

definition lattice_irq_is_from_evr :: "'h pci_platform \<Rightarrow> ('h, bool) pci" where
  "lattice_irq_is_from_evr pp = do {
     irq_flags \<leftarrow> be_read_u32 pp EVR_REG_IRQFLAG;
     State_Monad.return (irq_flags AND BIT C_EVR_IRQ_PCIEE \<noteq> 0)
   }"

definition slac_irq_is_from_evr :: "'h pci_platform \<Rightarrow> ('h, bool) pci" where
  "slac_irq_is_from_evr pp = do {
     irq_flags \<leftarrow> be_read_u32 pp EVR_REG_PCIE_INT_SLAC;
     State_Monad.return (irq_flags AND EVR_REG_PCIE_INT_SLAC_STATUS_MASK \<noteq> 0)
   }"

text \<open>The handler of an external driver has filtered the interrupts already.\<close>

fun irq_is_from_evr :: "'h pci_platform \<Rightarrow> pci_bridge \<Rightarrow> ('h, bool) pci" where
  "irq_is_from_evr pp Bridge_Plx = plx_bridge_irq_is_from_evr pp"
| "irq_is_from_evr pp Bridge_Lattice = lattice_irq_is_from_evr pp"
| "irq_is_from_evr pp Bridge_Slac = slac_irq_is_from_evr pp"
| "irq_is_from_evr pp Bridge_External = State_Monad.return True"
| "irq_is_from_evr pp Bridge_None = State_Monad.return True"

section \<open>The interrupt switch\<close>

text \<open>
  \<open>request\<close> is the result of \<open>request_irq\<close>, 0 or an error. A handler that \<open>free_irq\<close> does not know stays
  unregistered.
\<close>

definition request_irq :: "('h pci_mrf_data \<Rightarrow> int) \<Rightarrow> ('h, int) pci" where
  "request_irq request = State (\<lambda>d.
     (request d, if request d = 0 then d\<lparr>pd_handlers := pd_handlers d + 1\<rparr> else d))"

definition free_irq :: "('h, unit) pci" where
  "free_irq = State (\<lambda>d. ((), d\<lparr>pd_handlers := pd_handlers d - 1\<rparr>))"

definition get_dev :: "('h, 'h pci_mrf_data) pci" where
  "get_dev = State (\<lambda>d. (d, d))"

definition upd_dev :: "('h pci_mrf_data \<Rightarrow> 'h pci_mrf_data) \<Rightarrow> ('h, unit) pci" where
  "upd_dev f = State (\<lambda>d. ((), f d))"

definition evrma_pci_irq_set :: "'h pci_platform \<Rightarrow> ('h pci_mrf_data \<Rightarrow> int) \<Rightarrow> bool \<Rightarrow> ('h, unit) pci" where
  "evrma_pci_irq_set pp request enabled = do {
     d \<leftarrow> get_dev;
     if pd_activity d \<ge> 2 then do {
       (if enabled \<and> \<not> pd_irq_enabled d then do {
          ret \<leftarrow> (if pd_pcidev d \<noteq> None then request_irq request else State_Monad.return 0);
          (if ret \<noteq> 0 then State_Monad.return () else bridge_set pp (pd_bridge d) True)
        }
        else if \<not> enabled \<and> pd_irq_enabled d then do {
          bridge_set pp (pd_bridge d) False;
          (if pd_pcidev d \<noteq> None then free_irq else State_Monad.return ())
        }
        else State_Monad.return ());
       upd_dev (\<lambda>d. d\<lparr>pd_irq_enabled := enabled\<rparr>)
     }
     else State_Monad.return ()
   }"

section \<open>Taking over a card\<close>

text \<open>What the kernel holds for the driver: enabled cards, memory regions, mappings, and the MNG_DEVs that exist, by slot.\<close>

record kernel_held =
  kh_enabled :: "ptr list"
  kh_regions :: "(ulong \<times> ulong) list"
  kh_mapped :: "ptr list"
  kh_mngdevs :: "nat list"

record 'h pci_world =
  pw_devs :: "'h pci_mrf_data list"
  pw_held :: kernel_held

text \<open>
  A card and the results of the kernel's calls on it: the identification, the address ranges of the six BARs, and the
  MNG_DEV's creation, which also acts on the card.
\<close>

record pci_device_id =
  id_vendor :: u32
  id_device :: u32
  id_subvendor :: u32
  id_subdevice :: u32

record 'h pci_card =
  pe_pcidev :: ptr
  pe_id :: pci_device_id
  pe_enable :: int
  pe_bars :: "(ulong \<times> ulong) list"
  pe_plx_region :: bool
  pe_plx_map :: "ptr option"
  pe_region :: bool
  pe_ioremap :: "ptr option"
  pe_irq :: int
  pe_create :: "'h pci_mrf_data \<Rightarrow> int \<times> 'h"
  pe_dev :: 'h

definition zero_pci_mrf_data :: "'h \<Rightarrow> 'h pci_mrf_data" where
  "zero_pci_mrf_data h = \<lparr>pd_used = False, pd_start = 0, pd_length = 0, pd_io_ptr = None, pd_irq = 0, pd_bar = 0,
     pd_activity = 0, pd_plx = \<lparr>plx_pLC = None, plx_mrLC = 0, plx_lenLC = 0\<rparr>, pd_bridge = Bridge_None, pd_irq_enabled = False,
     pd_mngdev_des = \<lparr>md_major = 0, md_minor = 0, md_io_start = None, md_io_start_phys = 0, md_io_size = 0, md_name = [],
       md_hw_support_hint1 = 0\<rparr>,
     pd_external = None, pd_pcidev = None, pd_handlers = 0, pd_dev = h\<rparr>"

definition upd_pci :: "nat \<Rightarrow> ('h pci_mrf_data \<Rightarrow> 'h pci_mrf_data) \<Rightarrow> 'h pci_world \<Rightarrow> 'h pci_world" where
  "upd_pci i f w = w\<lparr>pw_devs := (pw_devs w)[i := f (pw_devs w ! i)]\<rparr>"

definition upd_held :: "(kernel_held \<Rightarrow> kernel_held) \<Rightarrow> 'h pci_world \<Rightarrow> 'h pci_world" where
  "upd_held f w = w\<lparr>pw_held := f (pw_held w)\<rparr>"

definition sease_a_slot :: "'h \<Rightarrow> 'h pci_world \<Rightarrow> nat res \<times> 'h pci_world" where
  "sease_a_slot h w = (case find (\<lambda>i. \<not> pd_used (pw_devs w ! i)) [0..<MAX_PCI_MRF_DEVICES] of
     None \<Rightarrow> (Inl EMFILE, w)
   | Some i \<Rightarrow> (Inr i, upd_pci i (\<lambda>_. (zero_pci_mrf_data h)\<lparr>pd_used := True\<rparr>) w))"

datatype clean_level = CLEAN_SLOT | CLEAN_PCI_ENABLE | CLEAN_REQUEST_MEM | CLEAN_PLX_STUFF | CLEAN_IOREMAP | CLEAN_MNG_DEV_CREATE

text \<open>The cases of the cleanup below each one.\<close>

primrec cases_below :: "clean_level \<Rightarrow> nat" where
  "cases_below CLEAN_SLOT = 0"
| "cases_below CLEAN_PCI_ENABLE = 1"
| "cases_below CLEAN_PLX_STUFF = 2"
| "cases_below CLEAN_REQUEST_MEM = 3"
| "cases_below CLEAN_IOREMAP = 4"
| "cases_below CLEAN_MNG_DEV_CREATE = 5"

definition evr_plx_fini :: "nat \<Rightarrow> 'h pci_world \<Rightarrow> 'h pci_world" where
  "evr_plx_fini i w =
     (let plx = pd_plx (pw_devs w ! i) in
      case plx_pLC plx of None \<Rightarrow> w
      | Some pLC \<Rightarrow> upd_pci i (\<lambda>d. d\<lparr>pd_plx := plx\<lparr>plx_pLC := None\<rparr>\<rparr>)
          (upd_held (\<lambda>k. k\<lparr>kh_mapped := remove1 pLC (kh_mapped k), kh_regions := remove1 (plx_mrLC plx, plx_lenLC plx) (kh_regions k)\<rparr>) w))"

text \<open>Each case falls through to the ones before it in the order of the steps.\<close>

definition on_pcidev :: "nat \<Rightarrow> (ptr \<Rightarrow> 'h pci_world \<Rightarrow> 'h pci_world) \<Rightarrow> 'h pci_world \<Rightarrow> 'h pci_world" where
  "on_pcidev i f w = (case pd_pcidev (pw_devs w ! i) of None \<Rightarrow> w | Some p \<Rightarrow> f p w)"

function pci_cleanup :: "nat \<Rightarrow> clean_level \<Rightarrow> 'h pci_world \<Rightarrow> 'h pci_world" where
  "pci_cleanup i CLEAN_MNG_DEV_CREATE w =
     pci_cleanup i CLEAN_IOREMAP (upd_held (\<lambda>k. k\<lparr>kh_mngdevs := remove1 i (kh_mngdevs k)\<rparr>) w)"
| "pci_cleanup i CLEAN_IOREMAP w =
     pci_cleanup i CLEAN_REQUEST_MEM (on_pcidev i (\<lambda>_ w. case pd_io_ptr (pw_devs w ! i) of None \<Rightarrow> w
       | Some io \<Rightarrow> upd_held (\<lambda>k. k\<lparr>kh_mapped := remove1 io (kh_mapped k)\<rparr>) w) w)"
| "pci_cleanup i CLEAN_REQUEST_MEM w =
     pci_cleanup i CLEAN_PLX_STUFF (on_pcidev i (\<lambda>_ w. upd_held (\<lambda>k. k\<lparr>kh_regions :=
       remove1 (pd_start (pw_devs w ! i), pd_length (pw_devs w ! i)) (kh_regions k)\<rparr>) w) w)"
| "pci_cleanup i CLEAN_PLX_STUFF w =
     pci_cleanup i CLEAN_PCI_ENABLE (on_pcidev i (\<lambda>_ w. if evr_plx_active (pd_plx (pw_devs w ! i)) then evr_plx_fini i w else w) w)"
| "pci_cleanup i CLEAN_PCI_ENABLE w =
     pci_cleanup i CLEAN_SLOT (on_pcidev i (\<lambda>p. upd_held (\<lambda>k. k\<lparr>kh_enabled := remove1 p (kh_enabled k)\<rparr>)) w)"
| "pci_cleanup i CLEAN_SLOT w = upd_pci i (\<lambda>d. d\<lparr>pd_used := False\<rparr>) w"
  by pat_completeness auto
termination
  by (relation "measure (\<lambda>(i, what, w). cases_below what)") simp_all

definition evr_plx_init :: "'h pci_card \<Rightarrow> int \<Rightarrow> nat \<Rightarrow> 'h pci_world \<Rightarrow> 'h pci_world" where
  "evr_plx_init pc plx_bar i w =
     (if plx_bar \<ge> 0 then
        let (local_conf_start, local_conf_end) = pe_bars pc ! nat plx_bar;
            lenLC = local_conf_end - local_conf_start + 1
        in if pe_plx_region pc
           then upd_pci i (\<lambda>d. d\<lparr>pd_plx := \<lparr>plx_pLC = pe_plx_map pc, plx_mrLC = local_conf_start, plx_lenLC = lenLC\<rparr>\<rparr>)
             (upd_held (\<lambda>k. k\<lparr>kh_regions := (local_conf_start, lenLC) # kh_regions k,
               kh_mapped := (case pe_plx_map pc of None \<Rightarrow> kh_mapped k | Some p \<Rightarrow> p # kh_mapped k)\<rparr>) w)
           else upd_pci i (\<lambda>d. d\<lparr>pd_plx := \<lparr>plx_pLC = None, plx_mrLC = local_conf_start, plx_lenLC = lenLC\<rparr>\<rparr>) w
      else upd_pci i (\<lambda>d. d\<lparr>pd_plx := (pd_plx d)\<lparr>plx_pLC := None\<rparr>\<rparr>) w)"

abbreviation (input) PCI_VENDOR_ID_MRF :: u32 where "PCI_VENDOR_ID_MRF \<equiv> 0x1A3E"

text \<open>The type of the EVR by its identification; \<open>-1\<close> is an undefined one.\<close>

definition hint_of :: "pci_device_id \<Rightarrow> int" where
  "hint_of dev_id =
     (let pci_mrf_device_id = (if id_vendor dev_id = PCI_VENDOR_ID_MRF then id_device dev_id
        else if id_subvendor dev_id = PCI_VENDOR_ID_MRF then id_subdevice dev_id else 0xFFFFFFFF)
      in if pci_mrf_device_id = 0x11E6 then 1 else if pci_mrf_device_id = 0x152C then 5
         else if pci_mrf_device_id = 0x172C then 7 else if pci_mrf_device_id = 0x192c then 4 else -1)"

text \<open>
  The cards the driver registers for, without the entry that ends the table; the kernel calls the probe with the entry
  that matched. \<open>PCI_DEVICE\<close> leaves the last two numbers open.
\<close>

abbreviation (input) PCI_ANY_ID :: u32 where "PCI_ANY_ID \<equiv> 0xFFFFFFFF"

definition PCI_DEVICE_SUB :: "u32 \<Rightarrow> u32 \<Rightarrow> u32 \<Rightarrow> u32 \<Rightarrow> pci_device_id" where
  "PCI_DEVICE_SUB v d sv sd = \<lparr>id_vendor = v, id_device = d, id_subvendor = sv, id_subdevice = sd\<rparr>"

definition evrma_pci_ids :: "pci_device_id list" where
  "evrma_pci_ids =
     (let plx_or_lattice = [PCI_DEVICE_SUB 0x10b5 0x9030 PCI_VENDOR_ID_MRF 0x11E6, PCI_DEVICE_SUB 0x10b5 0x9030 PCI_VENDOR_ID_MRF 0x152C,
            PCI_DEVICE_SUB 0x10b5 0x9030 PCI_VENDOR_ID_MRF 0x172C, PCI_DEVICE_SUB 0x10b5 0x9030 PCI_VENDOR_ID_MRF 0x192c,
            PCI_DEVICE_SUB 0x1204 0xec30 PCI_VENDOR_ID_MRF 0x172C]
      in plx_or_lattice @ plx_or_lattice
         @ map (PCI_DEVICE_SUB PCI_ANY_ID PCI_ANY_ID PCI_VENDOR_ID_MRF) [0x11E6, 0x152C, 0x172C, 0x192c]
         @ [PCI_DEVICE_SUB 0x1A4A 0x2010 PCI_ANY_ID PCI_ANY_ID])"

text \<open>Every card with an MRF identification gets its type; the type of the SLAC card is left to its firmware version.\<close>

lemma hint_of_ids: "map hint_of evrma_pci_ids = [1, 5, 7, 4, 7, 1, 5, 7, 4, 7, 1, 5, 7, 4, -1]"
  by (simp add: evrma_pci_ids_def PCI_DEVICE_SUB_def hint_of_def Let_def)

text \<open>The first BAR that is used and has at least 32K.\<close>

definition bar_length :: "ulong \<times> ulong \<Rightarrow> ulong" where
  "bar_length b = snd b - fst b + 1"

definition evr_bar :: "(ulong \<times> ulong) list \<Rightarrow> nat option" where
  "evr_bar bars = find (\<lambda>bar. fst (bars ! bar) \<noteq> 0 \<and> bar_length (bars ! bar) \<ge> 0x8000) [0..<6]"

definition mng_name :: "nat \<Rightarrow> u8 list" where
  "mng_name i = map of_char ''evr'' @ [48 + of_nat i] @ map of_char ''mng'' @ [0]"

definition finish_probe :: "int \<Rightarrow> int \<Rightarrow> ('h pci_mrf_data \<Rightarrow> int \<times> 'h) \<Rightarrow> nat \<Rightarrow> clean_level \<Rightarrow> 'h pci_world \<Rightarrow>
    int \<times> 'h pci_world" where
  "finish_probe major minor_start create i current_clean w =
     (let w = upd_pci i (\<lambda>d. d\<lparr>pd_mngdev_des := (pd_mngdev_des d)\<lparr>md_major := major, md_minor := minor_start + int i * MINOR_MULTIPLICATOR,
            md_io_start := pd_io_ptr d, md_io_start_phys := ucast (pd_start d), md_io_size := pd_length d, md_name := mng_name i\<rparr>\<rparr>) w;
          (ret, h) = create (pw_devs w ! i);
          w = upd_pci i (\<lambda>d. d\<lparr>pd_dev := h\<rparr>) w
      in if ret \<noteq> 0 then (ret, pci_cleanup i current_clean w)
         else (0, upd_pci i (\<lambda>d. d\<lparr>pd_activity := 2\<rparr>) (upd_held (\<lambda>k. k\<lparr>kh_mngdevs := i # kh_mngdevs k\<rparr>) w)))"


text \<open>
  The steps of the probe after the slot was taken, each with what the code cleans up when it fails. The bridge of a card
  without a PLX is found by its firmware version.
\<close>

definition probe_bridge :: "'h pci_platform \<Rightarrow> ('h, unit) pci" where
  "probe_bridge pp = do {
     d \<leftarrow> get_dev;
     if evr_plx_active (pd_plx d) then State_Monad.return ()
     else do {
       probed_fw_version \<leftarrow> be_read_u32 pp EVR_REG_FW_VERSION;
       upd_dev (\<lambda>d. d\<lparr>pd_bridge := (if evr_card_is_slac probed_fw_version then Bridge_Slac else Bridge_Lattice)\<rparr>)
     }
   }"

definition probe_mapped :: "'h pci_platform \<Rightarrow> int \<Rightarrow> int \<Rightarrow> 'h pci_card \<Rightarrow> nat \<Rightarrow> 'h pci_world \<Rightarrow> int \<times> 'h pci_world" where
  "probe_mapped pp major minor_start pc i w =
     (let w = upd_pci i (\<lambda>d. (snd (run_state (probe_bridge pp) d))\<lparr>pd_irq := pe_irq pc\<rparr>) w
      in finish_probe major minor_start (pe_create pc) i CLEAN_IOREMAP w)"

definition probe_memory :: "'h pci_platform \<Rightarrow> int \<Rightarrow> int \<Rightarrow> 'h pci_card \<Rightarrow> nat \<Rightarrow> 'h pci_world \<Rightarrow> int \<times> 'h pci_world" where
  "probe_memory pp major minor_start pc i w =
     (let d = pw_devs w ! i in
      if \<not> pe_region pc then (- errno_code ENXIO, pci_cleanup i CLEAN_PLX_STUFF w)
      else
        let w = upd_held (\<lambda>k. k\<lparr>kh_regions := (pd_start d, pd_length d) # kh_regions k\<rparr>) w in
        case pe_ioremap pc of
          None \<Rightarrow> (- errno_code ENXIO, pci_cleanup i CLEAN_REQUEST_MEM w)
        | Some io \<Rightarrow>
            let w = upd_pci i (\<lambda>d. d\<lparr>pd_io_ptr := Some io\<rparr>) (upd_held (\<lambda>k. k\<lparr>kh_mapped := io # kh_mapped k\<rparr>) w)
            in probe_mapped pp major minor_start pc i w)"

definition probe_enabled :: "'h pci_platform \<Rightarrow> int \<Rightarrow> int \<Rightarrow> 'h pci_card \<Rightarrow> nat \<Rightarrow> 'h pci_world \<Rightarrow> int \<times> 'h pci_world" where
  "probe_enabled pp major minor_start pc i w =
     (let w = upd_pci i (\<lambda>d. d\<lparr>pd_bridge := Bridge_None, pd_length := 0,
            pd_mngdev_des := (pd_mngdev_des d)\<lparr>md_hw_support_hint1 := hint_of (pe_id pc)\<rparr>\<rparr>) w
      in case evr_bar (pe_bars pc) of
        None \<Rightarrow> (- errno_code ENXIO, pci_cleanup i CLEAN_PCI_ENABLE w)
      | Some bar \<Rightarrow>
          let w = upd_pci i (\<lambda>d. d\<lparr>pd_bar := int bar, pd_start := fst (pe_bars pc ! bar), pd_length := bar_length (pe_bars pc ! bar)\<rparr>) w;
              w = evr_plx_init pc (if bar = 2 then 0 else -1) i w;
              w = upd_pci i (\<lambda>d. if evr_plx_active (pd_plx d) then d\<lparr>pd_bridge := Bridge_Plx\<rparr> else d) w
          in probe_memory pp major minor_start pc i w)"

definition evrma_pci_probe :: "'h pci_platform \<Rightarrow> int \<Rightarrow> int \<Rightarrow> 'h pci_card \<Rightarrow> 'h pci_world \<Rightarrow> int \<times> 'h pci_world" where
  "evrma_pci_probe pp major minor_start pc w =
     (case sease_a_slot (pe_dev pc) w of
        (Inl e, w) \<Rightarrow> (- errno_code e, w)
      | (Inr i, w) \<Rightarrow>
          let w = upd_pci i (\<lambda>d. d\<lparr>pd_pcidev := Some (pe_pcidev pc), pd_external := None, pd_irq_enabled := False\<rparr>) w in
          if pe_enable pc \<noteq> 0 then (pe_enable pc, pci_cleanup i CLEAN_SLOT w)
          else
            let w = upd_held (\<lambda>k. k\<lparr>kh_enabled := pe_pcidev pc # kh_enabled k\<rparr>) w
            in probe_enabled pp major minor_start pc i w)"

section \<open>Giving back a card\<close>

text \<open>The removal up to the loop that waits, and after it.\<close>

definition find_pcidev :: "ptr \<Rightarrow> 'h pci_world \<Rightarrow> nat option" where
  "find_pcidev p w = find (\<lambda>i. pd_used (pw_devs w ! i) \<and> pd_pcidev (pw_devs w ! i) = Some p) [0..<MAX_PCI_MRF_DEVICES]"

definition remove_subtract :: "'h pci_mrf_data \<Rightarrow> 'h pci_mrf_data" where
  "remove_subtract d = d\<lparr>pd_activity := pd_activity d - 2\<rparr>"

definition remove_free_irq :: "'h pci_mrf_data \<Rightarrow> 'h pci_mrf_data" where
  "remove_free_irq d = (if pd_irq_enabled d then snd (run_state free_irq d) else d)"

text \<open>With no interrupt in progress that lowers \<open>activity\<close>, the loop ends at once or not at all (\<open>None\<close>).\<close>

definition evrma_pci_remove :: "ptr \<Rightarrow> 'h pci_world \<Rightarrow> 'h pci_world option" where
  "evrma_pci_remove p w = (case find_pcidev p w of
     None \<Rightarrow> Some w
   | Some i \<Rightarrow>
       let w = upd_pci i (\<lambda>d. remove_free_irq (remove_subtract d)) w in
       if pd_activity (pw_devs w ! i) > 0 then None
       else Some (pci_cleanup i CLEAN_MNG_DEV_CREATE w))"

section \<open>Cards of an external driver\<close>

record 'h evrma_core_api_external_device =
  ex_io_start :: "ptr option"
  ex_io_start_phys :: u32
  ex_io_size :: ulong
  ex_priv :: "nat option"
  ex_self :: ptr
  ex_create :: "'h pci_mrf_data \<Rightarrow> int \<times> 'h"
  ex_dev :: 'h

definition evrma_core_api_external_probe :: "int \<Rightarrow> int \<Rightarrow> 'h evrma_core_api_external_device \<Rightarrow> 'h pci_world \<Rightarrow>
    int \<times> 'h evrma_core_api_external_device \<times> 'h pci_world" where
  "evrma_core_api_external_probe major minor_start x w =
     (case sease_a_slot (ex_dev x) w of
        (Inl e, w) \<Rightarrow> (- errno_code e, x, w)
      | (Inr i, w) \<Rightarrow>
          let w = upd_pci i (\<lambda>d. d\<lparr>pd_external := Some (ex_self x), pd_bridge := Bridge_External, pd_pcidev := None,
                 pd_mngdev_des := (pd_mngdev_des d)\<lparr>md_hw_support_hint1 := -1\<rparr>,
                 pd_io_ptr := ex_io_start x, pd_start := ucast (ex_io_start_phys x), pd_length := ex_io_size x\<rparr>) w;
              (ret, w) = finish_probe major minor_start (ex_create x) i CLEAN_SLOT w
          in (ret, x\<lparr>ex_priv := Some i\<rparr>, w))"

text \<open>The counter \<open>activity\<close> is not used; a device that is not found is the one in \<open>priv\<close>.\<close>

definition evrma_core_api_external_remove :: "'h evrma_core_api_external_device \<Rightarrow> 'h pci_world \<Rightarrow> 'h pci_world" where
  "evrma_core_api_external_remove x w =
     (case find (\<lambda>i. pd_used (pw_devs w ! i) \<and> pd_external (pw_devs w ! i) = Some (ex_self x)) [0..<MAX_PCI_MRF_DEVICES] of
        Some i \<Rightarrow> pci_cleanup i CLEAN_MNG_DEV_CREATE (upd_pci i remove_free_irq w)
      | None \<Rightarrow> (case ex_priv x of
            None \<Rightarrow> w
          | Some i \<Rightarrow> pci_cleanup i CLEAN_MNG_DEV_CREATE (upd_pci i remove_free_irq w)))"

text \<open>An external driver's interrupt goes to the MNG_DEV without a test, \<open>activity\<close> included.\<close>

definition evrma_core_api_external_irq :: "('h \<Rightarrow> 'h) \<Rightarrow> ('h, bool) pci" where
  "evrma_core_api_external_irq mng_isr = State (\<lambda>d. (True, d\<lparr>pd_dev := mng_isr (pd_dev d)\<rparr>))"

section \<open>Nothing is lost\<close>

lemma pci_world_simps [simp]:
  "pw_held (upd_pci i f w) = pw_held w"
  "pw_devs (upd_held g w) = pw_devs w"
  "pw_held (upd_held g w) = g (pw_held w)"
  "length (pw_devs (upd_pci i f w)) = length (pw_devs w)"
  "i < length (pw_devs w) \<Longrightarrow> pw_devs (upd_pci i f w) ! i = f (pw_devs w ! i)"
  "j \<noteq> i \<Longrightarrow> pw_devs (upd_pci i f w) ! j = pw_devs w ! j"
  by (simp_all add: upd_pci_def upd_held_def)

text \<open>What the kernel holds more for a device that has come to a level of the probe, and what it holds less after the cleanup.\<close>

definition acquire_plx :: "'h pci_mrf_data \<Rightarrow> kernel_held \<Rightarrow> kernel_held" where
  "acquire_plx d k = (case plx_pLC (pd_plx d) of None \<Rightarrow> k
     | Some pLC \<Rightarrow> k\<lparr>kh_mapped := pLC # kh_mapped k, kh_regions := (plx_mrLC (pd_plx d), plx_lenLC (pd_plx d)) # kh_regions k\<rparr>)"

fun acquire :: "nat \<Rightarrow> clean_level \<Rightarrow> 'h pci_mrf_data \<Rightarrow> kernel_held \<Rightarrow> kernel_held" where
  "acquire i CLEAN_SLOT d k = k"
| "acquire i CLEAN_PCI_ENABLE d k = k\<lparr>kh_enabled := the (pd_pcidev d) # kh_enabled k\<rparr>"
| "acquire i CLEAN_PLX_STUFF d k = acquire_plx d (k\<lparr>kh_enabled := the (pd_pcidev d) # kh_enabled k\<rparr>)"
| "acquire i CLEAN_REQUEST_MEM d k = (let k = acquire_plx d (k\<lparr>kh_enabled := the (pd_pcidev d) # kh_enabled k\<rparr>)
     in k\<lparr>kh_regions := (pd_start d, pd_length d) # kh_regions k\<rparr>)"
| "acquire i CLEAN_IOREMAP d k = (let k = acquire_plx d (k\<lparr>kh_enabled := the (pd_pcidev d) # kh_enabled k\<rparr>)
     in k\<lparr>kh_regions := (pd_start d, pd_length d) # kh_regions k, kh_mapped := the (pd_io_ptr d) # kh_mapped k\<rparr>)"
| "acquire i CLEAN_MNG_DEV_CREATE d k = (let k = acquire_plx d (k\<lparr>kh_enabled := the (pd_pcidev d) # kh_enabled k\<rparr>)
     in k\<lparr>kh_regions := (pd_start d, pd_length d) # kh_regions k, kh_mapped := the (pd_io_ptr d) # kh_mapped k,
          kh_mngdevs := i # kh_mngdevs k\<rparr>)"

text \<open>A cleanup from a level that the device has come to gives back what the device holds, and frees its slot.\<close>

definition given_back :: "nat \<Rightarrow> 'h pci_world \<Rightarrow> 'h pci_world \<Rightarrow> bool" where
  "given_back i w w1 \<longleftrightarrow> length (pw_devs w1) = length (pw_devs w) \<and> \<not> pd_used (pw_devs w1 ! i)
     \<and> (\<forall>j. j \<noteq> i \<longrightarrow> pw_devs w1 ! j = pw_devs w ! j)"

declare pci_cleanup.simps [simp del]

lemma given_back_same:
  "given_back i (upd_held g w) w1 \<longleftrightarrow> given_back i w w1"
  "i < length (pw_devs w) \<Longrightarrow> given_back i (upd_pci i f w) w1 \<longleftrightarrow> given_back i w w1"
  by (simp_all add: given_back_def)

lemma given_back_plx: "i < length (pw_devs w) \<Longrightarrow> given_back i (evr_plx_fini i w) w1 \<longleftrightarrow> given_back i w w1"
  "length (pw_devs (evr_plx_fini i w)) = length (pw_devs w)"
  by (simp_all add: evr_plx_fini_def Let_def given_back_same split: option.split)

lemma cleanup_given_back:
  assumes "i < length (pw_devs w)"
  shows "given_back i w (pci_cleanup i what w)"
proof -
  have slot: "given_back i w (pci_cleanup i CLEAN_SLOT w)" if "i < length (pw_devs w)" for w :: "'a pci_world"
    using that by (simp add: pci_cleanup.simps(6) given_back_def)
  have enable: "given_back i w (pci_cleanup i CLEAN_PCI_ENABLE w)" if "i < length (pw_devs w)" for w :: "'a pci_world"
    using that slot [of "upd_held f w" for f] slot [of w]
    by (simp add: pci_cleanup.simps(5) on_pcidev_def given_back_same split: option.split)
  have plx: "given_back i w (pci_cleanup i CLEAN_PLX_STUFF w)" if "i < length (pw_devs w)" for w :: "'a pci_world"
    using that enable [of "evr_plx_fini i w"] enable [of w]
    by (simp add: pci_cleanup.simps(4) on_pcidev_def given_back_plx split: option.split)
  have request: "given_back i w (pci_cleanup i CLEAN_REQUEST_MEM w)" if "i < length (pw_devs w)" for w :: "'a pci_world"
    using that plx [of "upd_held f w" for f] plx [of w]
    by (simp add: pci_cleanup.simps(3) on_pcidev_def given_back_same split: option.split)
  have ioremap: "given_back i w (pci_cleanup i CLEAN_IOREMAP w)" if "i < length (pw_devs w)" for w :: "'a pci_world"
    using that request [of "upd_held f w" for f] request [of w]
    by (simp add: pci_cleanup.simps(2) on_pcidev_def given_back_same split: option.split)
  have mng: "given_back i w (pci_cleanup i CLEAN_MNG_DEV_CREATE w)" if "i < length (pw_devs w)" for w :: "'a pci_world"
    using that ioremap [of "upd_held f w" for f]
    by (simp add: pci_cleanup.simps(1) given_back_same)
  show ?thesis using slot enable plx request ioremap mng assms by (cases what) blast+
qed

lemma cleanup_slot: "pw_held (pci_cleanup i CLEAN_SLOT w) = pw_held w"
  by (simp add: pci_cleanup.simps)

lemma cleanup_pci_enable:
  "pd_pcidev (pw_devs w ! i) = Some p \<Longrightarrow> pw_held w = k\<lparr>kh_enabled := p # kh_enabled k\<rparr> \<Longrightarrow>
   pw_held (pci_cleanup i CLEAN_PCI_ENABLE w) = k"
  by (simp add: pci_cleanup.simps on_pcidev_def)

lemma evr_plx_fini_held:
  assumes "i < length (pw_devs w)" and "evr_plx_active (pd_plx (pw_devs w ! i))" and "pw_held w = acquire_plx (pw_devs w ! i) k"
  shows "pw_held (evr_plx_fini i w) = k" and "pd_pcidev (pw_devs (evr_plx_fini i w) ! i) = pd_pcidev (pw_devs w ! i)"
  using assms by (auto simp: evr_plx_fini_def evr_plx_active_def acquire_plx_def Let_def)

lemma cleanup_plx:
  assumes "i < length (pw_devs w)" and "pd_pcidev (pw_devs w ! i) = Some p"
    and "pw_held w = acquire_plx (pw_devs w ! i) (k\<lparr>kh_enabled := p # kh_enabled k\<rparr>)"
  shows "pw_held (pci_cleanup i CLEAN_PLX_STUFF w) = k"
proof (cases "evr_plx_active (pd_plx (pw_devs w ! i))")
  case True
  have "pw_held (pci_cleanup i CLEAN_PCI_ENABLE (evr_plx_fini i w)) = k"
    using evr_plx_fini_held [OF assms(1) True assms(3)] assms(2) by (intro cleanup_pci_enable) simp_all
  with True assms(2) show ?thesis by (simp add: pci_cleanup.simps(4) on_pcidev_def)
next
  case False
  have "pw_held (pci_cleanup i CLEAN_PCI_ENABLE w) = k"
    using False assms by (intro cleanup_pci_enable) (simp_all add: acquire_plx_def evr_plx_active_def)
  with False assms(2) show ?thesis by (simp add: pci_cleanup.simps(4) on_pcidev_def)
qed

lemma cleanup_request_mem:
  assumes "i < length (pw_devs w)" and "pd_pcidev (pw_devs w ! i) = Some p"
    and "pw_held w = (let k = acquire_plx (pw_devs w ! i) (k\<lparr>kh_enabled := p # kh_enabled k\<rparr>)
      in k\<lparr>kh_regions := (pd_start (pw_devs w ! i), pd_length (pw_devs w ! i)) # kh_regions k\<rparr>)"
  shows "pw_held (pci_cleanup i CLEAN_REQUEST_MEM w) = k"
  using assms by (simp add: pci_cleanup.simps(3) on_pcidev_def Let_def) (rule cleanup_plx; simp)

lemma cleanup_ioremap:
  assumes "i < length (pw_devs w)" and "pd_pcidev (pw_devs w ! i) = Some p" and "pd_io_ptr (pw_devs w ! i) = Some io"
    and "pw_held w = (let k = acquire_plx (pw_devs w ! i) (k\<lparr>kh_enabled := p # kh_enabled k\<rparr>)
      in k\<lparr>kh_regions := (pd_start (pw_devs w ! i), pd_length (pw_devs w ! i)) # kh_regions k, kh_mapped := io # kh_mapped k\<rparr>)"
  shows "pw_held (pci_cleanup i CLEAN_IOREMAP w) = k"
  using assms by (simp add: pci_cleanup.simps(2) on_pcidev_def Let_def) (rule cleanup_request_mem; simp add: Let_def)

lemma cleanup_mng_dev:
  assumes "i < length (pw_devs w)" and "pd_pcidev (pw_devs w ! i) = Some p" and "pd_io_ptr (pw_devs w ! i) = Some io"
    and "pw_held w = (let k = acquire_plx (pw_devs w ! i) (k\<lparr>kh_enabled := p # kh_enabled k\<rparr>)
      in k\<lparr>kh_regions := (pd_start (pw_devs w ! i), pd_length (pw_devs w ! i)) # kh_regions k, kh_mapped := io # kh_mapped k,
          kh_mngdevs := i # kh_mngdevs k\<rparr>)"
  shows "pw_held (pci_cleanup i CLEAN_MNG_DEV_CREATE w) = k"
  using assms by (simp add: pci_cleanup.simps(1) Let_def) (rule cleanup_ioremap; simp add: Let_def)

lemma cleanup_releases:
  assumes "i < length (pw_devs w)" and "pd_pcidev (pw_devs w ! i) = Some p" and "pd_io_ptr (pw_devs w ! i) = Some io \<or> what \<in> {CLEAN_SLOT,
      CLEAN_PCI_ENABLE, CLEAN_PLX_STUFF, CLEAN_REQUEST_MEM}"
    and "pw_held w = acquire i what (pw_devs w ! i) k"
  shows "pw_held (pci_cleanup i what w) = k"
proof (cases what)
  case CLEAN_SLOT
  with assms show ?thesis by (simp add: cleanup_slot)
next
  case CLEAN_PCI_ENABLE
  with assms show ?thesis by (simp add: cleanup_pci_enable)
next
  case CLEAN_PLX_STUFF
  with assms show ?thesis by (simp add: cleanup_plx)
next
  case CLEAN_REQUEST_MEM
  with assms show ?thesis by (simp add: cleanup_request_mem Let_def)
next
  case CLEAN_IOREMAP
  with assms show ?thesis by (simp add: cleanup_ioremap Let_def)
next
  case CLEAN_MNG_DEV_CREATE
  with assms show ?thesis by (simp add: cleanup_mng_dev Let_def)
qed

definition probe_done :: "nat \<Rightarrow> ptr \<Rightarrow> kernel_held \<Rightarrow> 'h pci_world \<Rightarrow> int \<times> 'h pci_world \<Rightarrow> bool" where
  "probe_done i p k w r \<longleftrightarrow> length (pw_devs (snd r)) = length (pw_devs w) \<and> (\<forall>j. j \<noteq> i \<longrightarrow> pw_devs (snd r) ! j = pw_devs w ! j)
     \<and> (if fst r \<noteq> 0 then \<not> pd_used (pw_devs (snd r) ! i) \<and> pw_held (snd r) = k
        else let d = pw_devs (snd r) ! i in
          pd_used d \<and> pd_activity d = 2 \<and> pd_pcidev d = Some p \<and> \<not> pd_irq_enabled d \<and> pd_io_ptr d \<noteq> None
          \<and> md_io_start (pd_mngdev_des d) = pd_io_ptr d \<and> pw_held (snd r) = acquire i CLEAN_MNG_DEV_CREATE d k)"

lemma probe_done_cleanup:
  assumes "r \<noteq> 0" and "i < length (pw_devs w1)" and "pw_held (pci_cleanup i what w1) = k"
    and "length (pw_devs w1) = length (pw_devs w)" and "\<And>j. j \<noteq> i \<Longrightarrow> pw_devs w1 ! j = pw_devs w ! j"
  shows "probe_done i p k w (r, pci_cleanup i what w1)"
  using assms cleanup_given_back [OF assms(2), of what] by (simp add: probe_done_def given_back_def)

lemma probe_done_upd:
  "i < length (pw_devs w) \<Longrightarrow> probe_done i p k (upd_pci i f w) r \<longleftrightarrow> probe_done i p k w r"
  "probe_done i p k (upd_held g w) r \<longleftrightarrow> probe_done i p k w r"
  by (simp_all add: probe_done_def)

lemma probe_done_cong:
  "length (pw_devs w1) = length (pw_devs w) \<Longrightarrow> \<forall>j. j \<noteq> i \<longrightarrow> pw_devs w1 ! j = pw_devs w ! j \<Longrightarrow>
   probe_done i p k w1 r \<longleftrightarrow> probe_done i p k w r"
  by (simp add: probe_done_def)

lemma acquire_plx_eq: "pd_plx d1 = pd_plx d \<Longrightarrow> acquire_plx d1 k = acquire_plx d k"
  unfolding acquire_plx_def by (simp only:)

lemma acquire_unchanged:
  assumes "pd_pcidev d1 = pd_pcidev d" "pd_plx d1 = pd_plx d" "pd_start d1 = pd_start d" "pd_length d1 = pd_length d" "pd_io_ptr d1 = pd_io_ptr d"
  shows "acquire i what d1 k = acquire i what d k"
  using assms acquire_plx_eq [OF assms(2)] by (cases what) simp_all

lemma finish_probe_done:
  assumes "i < length (pw_devs w)" and "pd_pcidev (pw_devs w ! i) = Some p" and "pd_io_ptr (pw_devs w ! i) = Some io"
    and "pw_held w = acquire i CLEAN_IOREMAP (pw_devs w ! i) k" and "pd_used (pw_devs w ! i)" and "\<not> pd_irq_enabled (pw_devs w ! i)"
  shows "probe_done i p k w (finish_probe major minor_start create i CLEAN_IOREMAP w)"
proof -
  define w1 where "w1 = upd_pci i (\<lambda>d. d\<lparr>pd_mngdev_des := (pd_mngdev_des d)\<lparr>md_major := major,
      md_minor := minor_start + int i * MINOR_MULTIPLICATOR, md_io_start := pd_io_ptr d, md_io_start_phys := ucast (pd_start d),
      md_io_size := pd_length d, md_name := mng_name i\<rparr>\<rparr>) w"
  obtain ret h where create: "create (pw_devs w1 ! i) = (ret, h)" by fastforce
  define w2 where "w2 = upd_pci i (\<lambda>d. d\<lparr>pd_dev := h\<rparr>) w1"
  have finish: "finish_probe major minor_start create i CLEAN_IOREMAP w = (if ret \<noteq> 0 then (ret, pci_cleanup i CLEAN_IOREMAP w2)
      else (0, upd_pci i (\<lambda>d. d\<lparr>pd_activity := 2\<rparr>) (upd_held (\<lambda>k. k\<lparr>kh_mngdevs := i # kh_mngdevs k\<rparr>) w2)))"
    unfolding finish_probe_def Let_def w1_def [symmetric] create by (simp add: w2_def)
  have dev: "i < length (pw_devs w2)" "pd_pcidev (pw_devs w2 ! i) = Some p" "pd_io_ptr (pw_devs w2 ! i) = Some io"
    "pd_used (pw_devs w2 ! i)" "\<not> pd_irq_enabled (pw_devs w2 ! i)" "md_io_start (pd_mngdev_des (pw_devs w2 ! i)) = Some io"
    "length (pw_devs w2) = length (pw_devs w)" "\<And>j. j \<noteq> i \<Longrightarrow> pw_devs w2 ! j = pw_devs w ! j"
    using assms by (simp_all add: w2_def w1_def)
  have "acquire i CLEAN_IOREMAP (pw_devs w2 ! i) k = acquire i CLEAN_IOREMAP (pw_devs w ! i) k"
    using assms(1) by (intro acquire_unchanged) (simp_all add: w2_def w1_def)
  then have held: "pw_held w2 = acquire i CLEAN_IOREMAP (pw_devs w2 ! i) k"
    using assms(4) by (simp add: w2_def w1_def)
  show ?thesis
  proof (cases "ret = 0")
    case False
    have "pw_held (pci_cleanup i CLEAN_IOREMAP w2) = k"
      by (rule cleanup_releases [OF dev(1,2) _ held]) (simp_all add: dev(3))
    with False dev have "probe_done i p k w (ret, pci_cleanup i CLEAN_IOREMAP w2)"
      by (intro probe_done_cleanup) simp_all
    with False show ?thesis by (simp add: finish)
  next
    case True
    have "acquire i CLEAN_MNG_DEV_CREATE ((pw_devs w2 ! i)\<lparr>pd_activity := 2\<rparr>) k = acquire i CLEAN_MNG_DEV_CREATE (pw_devs w2 ! i) k"
      by (rule acquire_unchanged) simp_all
    with True show ?thesis using dev held by (simp add: finish probe_done_def Let_def)
  qed
qed


lemma probe_bridge_keeps:
  "\<exists>b h. snd (run_state (probe_bridge pp) d) = d\<lparr>pd_bridge := b, pd_dev := h\<rparr>"
proof (cases "evr_plx_active (pd_plx d)")
  case True
  then show ?thesis
    by (intro exI [of _ "pd_bridge d"] exI [of _ "pd_dev d"]) (simp add: probe_bridge_def get_dev_def)
next
  case False
  obtain v h where "io_read_u32 (pp_io pp) (pd_dev d) EVR_REG_FW_VERSION = (v, h)" by fastforce
  with False show ?thesis
    by (intro exI [of _ "if evr_card_is_slac (swab32 v) then Bridge_Slac else Bridge_Lattice"] exI [of _ h])
      (simp add: probe_bridge_def get_dev_def be_read_u32_def read_u32_def upd_dev_def)
qed

lemma probe_mapped_done:
  assumes "i < length (pw_devs w)" and "pd_pcidev (pw_devs w ! i) = Some p" and "pd_io_ptr (pw_devs w ! i) = Some io"
    and "pw_held w = acquire i CLEAN_IOREMAP (pw_devs w ! i) k" and "pd_used (pw_devs w ! i)" and "\<not> pd_irq_enabled (pw_devs w ! i)"
  shows "probe_done i p k w (probe_mapped pp major minor_start pc i w)"
proof -
  obtain b h where b: "snd (run_state (probe_bridge pp) (pw_devs w ! i)) = (pw_devs w ! i)\<lparr>pd_bridge := b, pd_dev := h\<rparr>"
    using probe_bridge_keeps [of pp "pw_devs w ! i"] by blast
  let ?w = "upd_pci i (\<lambda>d. (snd (run_state (probe_bridge pp) d))\<lparr>pd_irq := pe_irq pc\<rparr>) w"
  have dev: "pw_devs ?w ! i = (pw_devs w ! i)\<lparr>pd_bridge := b, pd_dev := h, pd_irq := pe_irq pc\<rparr>"
    using assms(1) by (simp add: b)
  have "acquire i CLEAN_IOREMAP (pw_devs ?w ! i) k = acquire i CLEAN_IOREMAP (pw_devs w ! i) k"
    unfolding dev by (rule acquire_unchanged) simp_all
  then have "probe_done i p k ?w (finish_probe major minor_start (pe_create pc) i CLEAN_IOREMAP ?w)"
    using assms by (intro finish_probe_done [of i ?w p io]) (simp_all add: dev del: acquire.simps)
  then show ?thesis by (simp add: probe_mapped_def probe_done_upd assms(1))
qed

lemma probe_memory_done:
  assumes "i < length (pw_devs w)" and "pd_pcidev (pw_devs w ! i) = Some p"
    and "pw_held w = acquire i CLEAN_PLX_STUFF (pw_devs w ! i) k" and "pd_used (pw_devs w ! i)" and "\<not> pd_irq_enabled (pw_devs w ! i)"
  shows "probe_done i p k w (probe_memory pp major minor_start pc i w)"
proof (cases "pe_region pc")
  case False
  have "pw_held (pci_cleanup i CLEAN_PLX_STUFF w) = k"
    by (rule cleanup_releases [OF assms(1,2) _ assms(3)]) simp_all
  with False show ?thesis
    unfolding probe_memory_def by simp (rule probe_done_cleanup [OF _ assms(1)]; simp)
next
  case True
  let ?d = "pw_devs w ! i"
  let ?w = "upd_held (\<lambda>k. k\<lparr>kh_regions := (pd_start ?d, pd_length ?d) # kh_regions k\<rparr>) w"
  have held: "pw_held ?w = acquire i CLEAN_REQUEST_MEM (pw_devs ?w ! i) k" using assms(3) by (simp add: Let_def)
  show ?thesis
  proof (cases "pe_ioremap pc")
    case None
    have "pw_held (pci_cleanup i CLEAN_REQUEST_MEM ?w) = k"
      by (rule cleanup_releases [OF _ _ _ held]) (use assms in simp_all)
    then have "probe_done i p k w (- errno_code ENXIO, pci_cleanup i CLEAN_REQUEST_MEM ?w)"
      using assms(1) by (intro probe_done_cleanup) simp_all
    with True None show ?thesis unfolding probe_memory_def Let_def by simp
  next
    case (Some io)
    let ?w1 = "upd_pci i (\<lambda>d. d\<lparr>pd_io_ptr := Some io\<rparr>) (upd_held (\<lambda>k. k\<lparr>kh_mapped := io # kh_mapped k\<rparr>) ?w)"
    have dev: "pw_devs ?w1 ! i = ?d\<lparr>pd_io_ptr := Some io\<rparr>" using assms(1) by simp
    have "acquire_plx (?d\<lparr>pd_io_ptr := Some io\<rparr>) j = acquire_plx ?d j" for j by (rule acquire_plx_eq) simp
    then have "pw_held ?w1 = acquire i CLEAN_IOREMAP (pw_devs ?w1 ! i) k"
      using held assms(1) unfolding dev by (simp add: Let_def)
    then have "probe_done i p k ?w1 (probe_mapped pp major minor_start pc i ?w1)"
      using assms by (intro probe_mapped_done [of i ?w1 p io]) (simp_all add: dev del: acquire.simps)
    with True Some assms(1) show ?thesis unfolding probe_memory_def Let_def by (simp add: probe_done_upd)
  qed
qed


lemma evr_plx_init_effect:
  assumes "i < length (pw_devs w)" and "plx_pLC (pd_plx (pw_devs w ! i)) = None"
    and "\<not> (pe_plx_region pc \<and> pe_plx_map pc = None)"
  shows "\<exists>plx. pw_devs (evr_plx_init pc bar i w) ! i = (pw_devs w ! i)\<lparr>pd_plx := plx\<rparr>
    \<and> pw_held (evr_plx_init pc bar i w) = acquire_plx ((pw_devs w ! i)\<lparr>pd_plx := plx\<rparr>) (pw_held w)
    \<and> length (pw_devs (evr_plx_init pc bar i w)) = length (pw_devs w)
    \<and> (\<forall>j. j \<noteq> i \<longrightarrow> pw_devs (evr_plx_init pc bar i w) ! j = pw_devs w ! j)"
proof -
  let ?plx = "if bar < 0 then (pd_plx (pw_devs w ! i))\<lparr>plx_pLC := None\<rparr>
    else \<lparr>plx_pLC = (if pe_plx_region pc then pe_plx_map pc else None), plx_mrLC = fst (pe_bars pc ! nat bar),
      plx_lenLC = snd (pe_bars pc ! nat bar) - fst (pe_bars pc ! nat bar) + 1\<rparr>"
  consider "bar < 0" | "0 \<le> bar" "\<not> pe_plx_region pc" | q where "0 \<le> bar" "pe_plx_region pc" "pe_plx_map pc = Some q"
    using assms(3) by (cases "pe_plx_map pc") fastforce+
  then show ?thesis
  proof cases
    case 1
    then show ?thesis using assms(1) by (intro exI [of _ ?plx]) (simp add: evr_plx_init_def acquire_plx_def)
  next
    case 2
    then show ?thesis using assms(1) by (intro exI [of _ ?plx]) (simp add: evr_plx_init_def acquire_plx_def split_beta Let_def)
  next
    case (3 q)
    then show ?thesis using assms(1) by (intro exI [of _ ?plx]) (simp add: evr_plx_init_def acquire_plx_def split_beta Let_def)
  qed
qed

text \<open>A PLX region whose mapping fails stays with the driver also after \<open>evr_plx_fini\<close>.\<close>

lemma plx_region_kept:
  assumes "i < length (pw_devs w)" and "0 \<le> bar" and "pe_plx_region pc" and "pe_plx_map pc = None"
    and "pe_bars pc ! nat bar = (a, b)"
  shows "pw_held (evr_plx_fini i (evr_plx_init pc bar i w)) =
    (pw_held w)\<lparr>kh_regions := (a, b - a + 1) # kh_regions (pw_held w)\<rparr>"
  using assms by (simp add: evr_plx_init_def evr_plx_fini_def Let_def)

lemma probe_enabled_done:
  assumes "i < length (pw_devs w)" and "pd_pcidev (pw_devs w ! i) = Some p" and "plx_pLC (pd_plx (pw_devs w ! i)) = None"
    and "pw_held w = acquire i CLEAN_PCI_ENABLE (pw_devs w ! i) k" and "pd_used (pw_devs w ! i)" and "\<not> pd_irq_enabled (pw_devs w ! i)"
    and "\<not> (pe_plx_region pc \<and> pe_plx_map pc = None)"
  shows "probe_done i p k w (probe_enabled pp major minor_start pc i w)"
proof -
  let ?w = "upd_pci i (\<lambda>d. d\<lparr>pd_bridge := Bridge_None, pd_length := 0,
      pd_mngdev_des := (pd_mngdev_des d)\<lparr>md_hw_support_hint1 := hint_of (pe_id pc)\<rparr>\<rparr>) w"
  have held: "pw_held ?w = k\<lparr>kh_enabled := p # kh_enabled k\<rparr>" using assms(2,4) by simp
  show ?thesis
  proof (cases "evr_bar (pe_bars pc)")
    case None
    have "pw_held (pci_cleanup i CLEAN_PCI_ENABLE ?w) = k"
      using assms(1,2) held by (simp add: pci_cleanup.simps on_pcidev_def)
    then have "probe_done i p k w (- errno_code ENXIO, pci_cleanup i CLEAN_PCI_ENABLE ?w)"
      using assms(1) by (intro probe_done_cleanup) simp_all
    with None show ?thesis by (simp add: probe_enabled_def Let_def)
  next
    case (Some bar)
    let ?w1 = "upd_pci i (\<lambda>d. d\<lparr>pd_bar := int bar, pd_start := fst (pe_bars pc ! bar), pd_length := bar_length (pe_bars pc ! bar)\<rparr>) ?w"
    let ?b = "if bar = 2 then 0 else -1 :: int"
    define w2 where "w2 = evr_plx_init pc ?b i ?w1"
    have plx0: "plx_pLC (pd_plx (pw_devs ?w1 ! i)) = None" using assms(1,3) by simp
    obtain plx where w2: "pw_devs w2 ! i = (pw_devs ?w1 ! i)\<lparr>pd_plx := plx\<rparr>"
      "pw_held w2 = acquire_plx ((pw_devs ?w1 ! i)\<lparr>pd_plx := plx\<rparr>) (pw_held ?w1)"
      "length (pw_devs w2) = length (pw_devs w)" "\<forall>j. j \<noteq> i \<longrightarrow> pw_devs w2 ! j = pw_devs w ! j"
      using evr_plx_init_effect [OF _ plx0 assms(7), of ?b] assms(1) unfolding w2_def [symmetric] by auto
    define w3 where "w3 = upd_pci i (\<lambda>d. if evr_plx_active (pd_plx d) then d\<lparr>pd_bridge := Bridge_Plx\<rparr> else d) w2"
    have i2: "i < length (pw_devs w2)" using w2(3) assms(1) by simp
    have plx3: "pd_plx (pw_devs w3 ! i) = plx" using i2 w2(1) by (simp add: w3_def)
    have pc3: "pd_pcidev (pw_devs w3 ! i) = Some p" using i2 w2(1) assms(1,2) by (simp add: w3_def)
    have "acquire_plx ((pw_devs ?w1 ! i)\<lparr>pd_plx := plx\<rparr>) j = acquire_plx (pw_devs w3 ! i) j" for j
      using plx3 by (intro acquire_plx_eq) simp
    then have "pw_held w3 = acquire i CLEAN_PLX_STUFF (pw_devs w3 ! i) k"
      using w2(2) held pc3 by (simp add: w3_def)
    moreover have "pd_used (pw_devs w3 ! i)" "\<not> pd_irq_enabled (pw_devs w3 ! i)"
      using i2 w2(1) assms(1,5,6) by (simp_all add: w3_def)
    ultimately have "probe_done i p k w3 (probe_memory pp major minor_start pc i w3)"
      using i2 pc3 by (intro probe_memory_done) (simp_all add: w3_def)
    moreover have "probe_enabled pp major minor_start pc i w = probe_memory pp major minor_start pc i w3"
      using Some by (simp add: probe_enabled_def Let_def w2_def w3_def)
    moreover have "probe_done i p k w3 r \<longleftrightarrow> probe_done i p k w r" for r
      using w2(3,4) by (intro probe_done_cong) (simp_all add: w3_def)
    ultimately show ?thesis by simp
  qed
qed


lemma find_pcidev_probed:
  assumes "i < MAX_PCI_MRF_DEVICES" and "pd_used (pw_devs w ! i)" and "pd_pcidev (pw_devs w ! i) = Some p"
    and "\<And>j. j < MAX_PCI_MRF_DEVICES \<Longrightarrow> j \<noteq> i \<Longrightarrow> pd_used (pw_devs w ! j) \<Longrightarrow> pd_pcidev (pw_devs w ! j) \<noteq> Some p"
  shows "find_pcidev p w = Some i"
  unfolding find_pcidev_def find_upt_Some
proof (intro conjI allI impI)
  fix j assume "j < i"
  with assms(1) have "j < MAX_PCI_MRF_DEVICES" "j \<noteq> i" by simp_all
  with assms(4) show "\<not> (pd_used (pw_devs w ! j) \<and> pd_pcidev (pw_devs w ! j) = Some p)" by blast
qed (use assms in simp_all)

lemma evrma_pci_remove_idle:
  assumes "length (pw_devs w) = MAX_PCI_MRF_DEVICES" and "find_pcidev p w = Some i" and "pd_activity (pw_devs w ! i) = 2"
    and "\<not> pd_irq_enabled (pw_devs w ! i)" and "pd_io_ptr (pw_devs w ! i) = Some io"
    and "pw_held w = acquire i CLEAN_MNG_DEV_CREATE (pw_devs w ! i) k"
  shows "\<exists>w2. evrma_pci_remove p w = Some w2 \<and> pw_held w2 = k \<and> given_back i w w2"
proof -
  have i: "i < length (pw_devs w)" "pd_pcidev (pw_devs w ! i) = Some p"
    using assms(1,2) by (auto simp: find_pcidev_def find_upt_Some)
  let ?w1 = "upd_pci i (\<lambda>d. remove_free_irq (remove_subtract d)) w"
  have dev: "pw_devs ?w1 ! i = (pw_devs w ! i)\<lparr>pd_activity := 0\<rparr>"
    using i(1) assms(3,4) by (simp add: remove_free_irq_def remove_subtract_def)
  have "acquire i CLEAN_MNG_DEV_CREATE ((pw_devs w ! i)\<lparr>pd_activity := 0\<rparr>) k = acquire i CLEAN_MNG_DEV_CREATE (pw_devs w ! i) k"
    by (rule acquire_unchanged) simp_all
  then have held: "pw_held ?w1 = acquire i CLEAN_MNG_DEV_CREATE (pw_devs ?w1 ! i) k"
    unfolding dev using assms(6) by simp
  have "pw_held (pci_cleanup i CLEAN_MNG_DEV_CREATE ?w1) = k"
    by (rule cleanup_releases [OF _ _ _ held]) (use i assms(5) dev in simp_all)
  moreover have "given_back i w (pci_cleanup i CLEAN_MNG_DEV_CREATE ?w1)"
    using cleanup_given_back [of i ?w1] i(1) by (simp add: given_back_def)
  moreover have "evrma_pci_remove p w = Some (pci_cleanup i CLEAN_MNG_DEV_CREATE ?w1)"
    using assms(2) by (simp add: evrma_pci_remove_def Let_def dev)
  ultimately show ?thesis by blast
qed

text \<open>
  C18: Taking over a card is all or nothing: if any of its steps fails, the kernel holds for the driver what it
  held before and the slot is free again; if it succeeds, the first free slot is taken, there is a MNG_DEV for it,
  and the removal of the card gives back exactly what was acquired and the slot, and no other device is touched. The
  one exception is a PLX whose registers cannot be mapped after their region was obtained.
\<close>
theorem pci_probe_remove:
  assumes "length (pw_devs w) = MAX_PCI_MRF_DEVICES" and "\<not> (pe_plx_region pc \<and> pe_plx_map pc = None)"
    and "\<forall>i<MAX_PCI_MRF_DEVICES. pd_used (pw_devs w ! i) \<longrightarrow> pd_pcidev (pw_devs w ! i) \<noteq> Some (pe_pcidev pc)"
    and "evrma_pci_probe pp major minor_start pc w = (ret, w1)"
  shows "if ret \<noteq> 0
    then pw_held w1 = pw_held w \<and> (\<forall>i<MAX_PCI_MRF_DEVICES. pd_used (pw_devs w1 ! i) = pd_used (pw_devs w ! i))
    else \<exists>i<MAX_PCI_MRF_DEVICES. \<not> pd_used (pw_devs w ! i) \<and> (\<forall>j<i. pd_used (pw_devs w ! j))
      \<and> kh_mngdevs (pw_held w1) = i # kh_mngdevs (pw_held w) \<and> pd_activity (pw_devs w1 ! i) = 2
      \<and> (\<exists>w2. evrma_pci_remove (pe_pcidev pc) w1 = Some w2 \<and> pw_held w2 = pw_held w
           \<and> (\<forall>j<MAX_PCI_MRF_DEVICES. pd_used (pw_devs w2 ! j) = pd_used (pw_devs w ! j)
                \<and> (j \<noteq> i \<longrightarrow> pw_devs w2 ! j = pw_devs w ! j)))"
proof (cases "find (\<lambda>i. \<not> pd_used (pw_devs w ! i)) [0..<MAX_PCI_MRF_DEVICES]")
  case None
  then have "ret = - errno_code EMFILE" "w1 = w" using assms(4) by (simp_all add: evrma_pci_probe_def sease_a_slot_def)
  then show ?thesis by simp
next
  case (Some i)
  let ?p = "pe_pcidev pc"
  from Some have i: "i < MAX_PCI_MRF_DEVICES" "\<not> pd_used (pw_devs w ! i)" "\<forall>j<i. pd_used (pw_devs w ! j)"
    unfolding find_upt_Some by simp_all
  with assms(1) have il: "i < length (pw_devs w)" by simp
  let ?w0 = "upd_pci i (\<lambda>d. d\<lparr>pd_pcidev := Some ?p, pd_external := None, pd_irq_enabled := False\<rparr>)
    (upd_pci i (\<lambda>_. (zero_pci_mrf_data (pe_dev pc))\<lparr>pd_used := True\<rparr>) w)"
  let ?we = "upd_held (\<lambda>k. k\<lparr>kh_enabled := ?p # kh_enabled k\<rparr>) ?w0"
  have "probe_done i ?p (pw_held w) w (ret, w1)"
  proof (cases "pe_enable pc = 0")
    case True
    have "probe_done i ?p (pw_held w) ?we (probe_enabled pp major minor_start pc i ?we)"
      using il assms(2) by (intro probe_enabled_done) (simp_all add: zero_pci_mrf_data_def)
    moreover have "evrma_pci_probe pp major minor_start pc w = probe_enabled pp major minor_start pc i ?we"
      using True by (simp add: evrma_pci_probe_def sease_a_slot_def Some Let_def)
    ultimately show ?thesis using assms(4) il by (simp add: probe_done_upd)
  next
    case False
    have "probe_done i ?p (pw_held w) w (pe_enable pc, pci_cleanup i CLEAN_SLOT ?w0)"
      using il False by (intro probe_done_cleanup) (simp_all add: pci_cleanup.simps)
    with False assms(4) show ?thesis
      by (simp add: evrma_pci_probe_def sease_a_slot_def Some Let_def)
  qed
  then have len: "length (pw_devs w1) = MAX_PCI_MRF_DEVICES" and others: "\<And>j. j \<noteq> i \<Longrightarrow> pw_devs w1 ! j = pw_devs w ! j"
    and dn: "ret \<noteq> 0 \<Longrightarrow> \<not> pd_used (pw_devs w1 ! i) \<and> pw_held w1 = pw_held w"
    "ret = 0 \<Longrightarrow> pd_used (pw_devs w1 ! i) \<and> pd_activity (pw_devs w1 ! i) = 2 \<and> pd_pcidev (pw_devs w1 ! i) = Some ?p
      \<and> \<not> pd_irq_enabled (pw_devs w1 ! i) \<and> pd_io_ptr (pw_devs w1 ! i) \<noteq> None
      \<and> pw_held w1 = acquire i CLEAN_MNG_DEV_CREATE (pw_devs w1 ! i) (pw_held w)"
    using assms(1) by (auto simp: probe_done_def Let_def simp del: acquire.simps)
  show ?thesis
  proof (cases "ret = 0")
    case False
    then show ?thesis using dn(1) others i(2) by (metis (mono_tags))
  next
    case True
    have "find_pcidev ?p w1 = Some i"
      using dn(2) True others assms(3) i(1) by (intro find_pcidev_probed) auto
    with evrma_pci_remove_idle [OF len this] dn(2) True obtain w2 where
      w2: "evrma_pci_remove ?p w1 = Some w2" "pw_held w2 = pw_held w" "given_back i w1 w2"
      by (auto simp del: acquire.simps)
    have "kh_mngdevs (pw_held w1) = i # kh_mngdevs (pw_held w)"
      using dn(2) True by (simp add: Let_def acquire_plx_def split: option.split)
    moreover have "\<forall>j<MAX_PCI_MRF_DEVICES. pd_used (pw_devs w2 ! j) = pd_used (pw_devs w ! j) \<and> (j \<noteq> i \<longrightarrow> pw_devs w2 ! j = pw_devs w ! j)"
      using w2(3) others i(2) unfolding given_back_def by (metis (mono_tags))
    ultimately show ?thesis using True i dn(2) w2 by auto
  qed
qed


text \<open>A platform and a card whose first BAR is the EVR.\<close>

definition pp_ex :: "bus_op list pci_platform" where
  "pp_ex = \<lparr>pp_io = io_ex, plx_read_INTCSR = (\<lambda>h. (0, h)), plx_write_INTCSR = (\<lambda>h v. h), ext_irq_enable = (\<lambda>h e. h)\<rparr>"

definition pci_card_ex :: "bus_op list pci_card" where
  "pci_card_ex = \<lparr>pe_pcidev = 77, pe_id = \<lparr>id_vendor = 0x1204, id_device = 0xec30, id_subvendor = 0x1A3E, id_subdevice = 0x172C\<rparr>,
     pe_enable = 0, pe_bars = [(0x10000, 0x1FFFF), (0, 0), (0, 0), (0, 0), (0, 0), (0, 0)], pe_plx_region = False, pe_plx_map = None,
     pe_region = True, pe_ioremap = Some 5, pe_irq = 11, pe_create = (\<lambda>d. (0, pd_dev d)), pe_dev = []\<rparr>"

definition pci_world_ex :: "bus_op list pci_world" where
  "pci_world_ex = \<lparr>pw_devs = replicate 7 (zero_pci_mrf_data []),
     pw_held = \<lparr>kh_enabled = [], kh_regions = [(0, 1)], kh_mapped = [], kh_mngdevs = []\<rparr>\<rparr>"

lemma pci_probe_remove_witness:
  "\<exists>w1 w2. evrma_pci_probe pp_ex 240 0 pci_card_ex pci_world_ex = (0, w1) \<and> kh_mngdevs (pw_held w1) = [0]
    \<and> evrma_pci_remove 77 w1 = Some w2 \<and> kh_regions (pw_held w2) = [(0, 1)]"
proof -
  obtain ret w1 where run: "evrma_pci_probe pp_ex 240 0 pci_card_ex pci_world_ex = (ret, w1)" by fastforce
  have len: "length (pw_devs pci_world_ex) = MAX_PCI_MRF_DEVICES" and plx: "\<not> (pe_plx_region pci_card_ex \<and> pe_plx_map pci_card_ex = None)"
    and free: "\<forall>i<MAX_PCI_MRF_DEVICES. pd_used (pw_devs pci_world_ex ! i) \<longrightarrow> pd_pcidev (pw_devs pci_world_ex ! i) \<noteq> Some (pe_pcidev pci_card_ex)"
    by (simp_all add: pci_world_ex_def pci_card_ex_def zero_pci_mrf_data_def)
  have bar: "evr_bar (pe_bars pci_card_ex) = Some 0"
    by (simp add: evr_bar_def find_upt_Some pci_card_ex_def bar_length_def)
  have slot: "find (\<lambda>i. \<not> pd_used (pw_devs pci_world_ex ! i)) [0..<7] = Some 0"
    by (simp add: find_upt_Some pci_world_ex_def zero_pci_mrf_data_def)
  have fields: "pe_enable pci_card_ex = 0" "pe_region pci_card_ex" "pe_ioremap pci_card_ex = Some 5"
    "pe_create pci_card_ex = (\<lambda>d. (0, pd_dev d))" by (simp_all add: pci_card_ex_def)
  have "ret = 0"
    using run by (simp add: evrma_pci_probe_def sease_a_slot_def slot Let_def probe_enabled_def bar probe_memory_def
        probe_mapped_def finish_probe_def fields)
  with pci_probe_remove [OF len plx free run] obtain i w2 where i: "i < 7" "\<forall>j<i. pd_used (pw_devs pci_world_ex ! j)"
    and w1: "kh_mngdevs (pw_held w1) = i # kh_mngdevs (pw_held pci_world_ex)"
    and w2: "evrma_pci_remove (pe_pcidev pci_card_ex) w1 = Some w2" "pw_held w2 = pw_held pci_world_ex" by auto
  have "i = 0"
  proof (rule ccontr)
    assume "i \<noteq> 0"
    with i(2) have "pd_used (pw_devs pci_world_ex ! 0)" by simp
    then show False by (simp add: pci_world_ex_def zero_pci_mrf_data_def)
  qed
  with run w1 w2 \<open>ret = 0\<close> show ?thesis by (auto simp: pci_world_ex_def pci_card_ex_def)
qed

end
