(* ===== verification/Pci_Irq.thy ===== *)
theory Pci_Irq
  imports Pci_Evr
begin

text \<open>
  The interrupt of a PCI device and its removal as they run at the same time on several CPUs
  (src/src/pci-evr.c): the handler, and the system of the handlers in progress, the switch of the
  interrupt and the removal, whose steps are the atomic accesses to the counter \<open>activity\<close>. The kernel
  does not run the handler of one interrupt line twice at the same time; \<open>serial\<close> says whether it does not.
\<close>

section \<open>The handler\<close>

definition isr_inc :: "'h pci_mrf_data \<Rightarrow> 'h pci_mrf_data" where
  "isr_inc d = d\<lparr>pd_activity := pd_activity d + 1\<rparr>"

definition isr_dec :: "'h pci_mrf_data \<Rightarrow> 'h pci_mrf_data" where
  "isr_dec d = d\<lparr>pd_activity := pd_activity d - 1\<rparr>"

definition isr_may_run :: "'h pci_mrf_data \<Rightarrow> bool" where
  "isr_may_run d \<longleftrightarrow> pd_activity d \<ge> 2"

text \<open>The result is whether the interrupt was handled; \<open>mng_isr\<close> is the MNG_DEV's handler on what is behind the device.\<close>

definition evrma_pci_isr :: "'h pci_platform \<Rightarrow> ('h \<Rightarrow> 'h) \<Rightarrow> ('h, bool) pci" where
  "evrma_pci_isr pp mng_isr = do {
     d \<leftarrow> get_dev;
     from_evr \<leftarrow> irq_is_from_evr pp (pd_bridge d);
     if \<not> from_evr then State_Monad.return False
     else do {
       upd_dev isr_inc;
       d \<leftarrow> get_dev;
       (if isr_may_run d then upd_dev (\<lambda>d. d\<lparr>pd_dev := mng_isr (pd_dev d)\<rparr>) else State_Monad.return ());
       upd_dev isr_dec;
       State_Monad.return True
     }
   }"

section \<open>The system\<close>

text \<open>Where a handler in progress is, and where the removal is.\<close>

datatype isr_pc = Entered | Counted | Using | Leaving
datatype remove_pc = Present | Subtracted | Waiting | Destroyed

record 'h pci_sys =
  sys_dev :: "'h pci_mrf_data"
  sys_isrs :: "isr_pc list"
  sys_remove :: remove_pc

definition pci_sys_init :: "'h pci_mrf_data \<Rightarrow> 'h pci_sys" where
  "pci_sys_init d = \<lparr>sys_dev = d, sys_isrs = [], sys_remove = Present\<rparr>"

text \<open>The steps of a handler in progress.\<close>

inductive isr_step :: "'h pci_sys \<Rightarrow> 'h pci_sys \<Rightarrow> bool" where
  count: "sys_isrs s = xs @ Entered # ys \<Longrightarrow>
    isr_step s (s\<lparr>sys_dev := isr_inc (sys_dev s), sys_isrs := xs @ Counted # ys\<rparr>)"
| test: "sys_isrs s = xs @ Counted # ys \<Longrightarrow>
    isr_step s (s\<lparr>sys_isrs := xs @ (if isr_may_run (sys_dev s) then Using else Leaving) # ys\<rparr>)"
| use: "sys_isrs s = xs @ Using # ys \<Longrightarrow>
    isr_step s (s\<lparr>sys_dev := (sys_dev s)\<lparr>pd_dev := h\<rparr>, sys_isrs := xs @ Leaving # ys\<rparr>)"
| leave: "sys_isrs s = xs @ Leaving # ys \<Longrightarrow>
    isr_step s (s\<lparr>sys_dev := isr_dec (sys_dev s), sys_isrs := xs @ ys\<rparr>)"

text \<open>
  All steps: also a new interrupt, the switch, and the removal, which takes away its 2 from the counter, frees the
  interrupt and destroys the MNG_DEV when its loop has seen that the counter is not above 0.
\<close>

inductive pci_step :: "bool \<Rightarrow> 'h pci_platform \<Rightarrow> 'h pci_sys \<Rightarrow> 'h pci_sys \<Rightarrow> bool" for serial pp where
  enter: "(serial \<longrightarrow> sys_isrs s = []) \<Longrightarrow> pd_handlers (sys_dev s) > 0 \<Longrightarrow>
    run_state (irq_is_from_evr pp (pd_bridge (sys_dev s))) (sys_dev s) = (from_evr, d) \<Longrightarrow>
    pci_step serial pp s (s\<lparr>sys_dev := d, sys_isrs := (if from_evr then Entered # sys_isrs s else sys_isrs s)\<rparr>)"
| handler: "isr_step s s1 \<Longrightarrow> pci_step serial pp s s1"
| irq_set: "pci_step serial pp s (s\<lparr>sys_dev := snd (run_state (evrma_pci_irq_set pp request enabled) (sys_dev s))\<rparr>)"
| subtract: "sys_remove s = Present \<Longrightarrow>
    pci_step serial pp s (s\<lparr>sys_dev := remove_subtract (sys_dev s), sys_remove := Subtracted\<rparr>)"
| free: "sys_remove s = Subtracted \<Longrightarrow>
    pci_step serial pp s (s\<lparr>sys_dev := remove_free_irq (sys_dev s), sys_remove := Waiting\<rparr>)"
| destroy: "sys_remove s = Waiting \<Longrightarrow> \<not> pd_activity (sys_dev s) > 0 \<Longrightarrow>
    pci_step serial pp s (s\<lparr>sys_remove := Destroyed\<rparr>)"

inductive_cases isr_stepE: "isr_step s s1"
inductive_cases pci_stepE: "pci_step serial pp s s1"

abbreviation pci_reachable :: "bool \<Rightarrow> 'h pci_platform \<Rightarrow> 'h pci_sys \<Rightarrow> 'h pci_sys \<Rightarrow> bool" where
  "pci_reachable serial pp \<equiv> (pci_step serial pp)\<^sup>*\<^sup>*"

section \<open>What the parts keep\<close>

definition only_dev :: "('h, 'a) pci \<Rightarrow> bool" where
  "only_dev f \<longleftrightarrow> (\<forall>d. \<exists>h. snd (run_state f d) = d\<lparr>pd_dev := h\<rparr>)"

named_theorems only_dev_intros \<open>computations that change only what is behind the device\<close>

lemma same_dev [simp]: "\<exists>h. d = d\<lparr>pd_dev := h\<rparr>"
  by (rule exI [of _ "pd_dev d"]) simp

lemma only_dev_return [only_dev_intros]: "only_dev (State_Monad.return x)"
  by (simp add: only_dev_def)

lemma only_dev_bind [only_dev_intros]:
  assumes "only_dev f" and "\<And>x. only_dev (g x)"
  shows "only_dev (State_Monad.bind f g)"
  unfolding only_dev_def
proof
  fix d
  obtain x d1 where f: "run_state f d = (x, d1)" by fastforce
  then obtain h where h: "d1 = d\<lparr>pd_dev := h\<rparr>" using assms(1) unfolding only_dev_def by (metis snd_conv)
  obtain h2 where "snd (run_state (g x) d1) = d1\<lparr>pd_dev := h2\<rparr>" using assms(2) unfolding only_dev_def by blast
  with f h show "\<exists>h. snd (run_state (State_Monad.bind f g) d) = d\<lparr>pd_dev := h\<rparr>" by auto
qed

lemma only_dev_if [only_dev_intros]: "only_dev f \<Longrightarrow> only_dev g \<Longrightarrow> only_dev (if b then f else g)"
  by simp

lemma only_dev_access [only_dev_intros]: "only_dev (read_u32 pp a)" "only_dev (write_u32 pp a v)" "only_dev (external_set pp e)"
  by (auto simp: only_dev_def read_u32_def write_u32_def external_set_def split: prod.split)

lemma only_dev_plx [only_dev_intros]: "only_dev (plx_write pp v)" "only_dev (evr_plx_irq_is_not_evr pp)"
  unfolding only_dev_def plx_write_def evr_plx_irq_is_not_evr_def
  by (auto split: prod.split)

lemma only_dev_bridge: "only_dev (bridge_set pp b e)" "only_dev (irq_is_from_evr pp b)"
  by (cases b; auto simp: lattice_set_def slac_set_def be_read_u32_def be_write_u32_def evr_plx_irq_enable_def
      plx_bridge_irq_is_from_evr_def lattice_irq_is_from_evr_def slac_irq_is_from_evr_def
      evr_plx_irq_disable_def intro!: only_dev_intros)+


lemma irq_set_activity: "pd_activity (snd (run_state (evrma_pci_irq_set pp request enabled) d)) = pd_activity d"
proof -
  have bridge: "pd_activity (snd (run_state (bridge_set pp b e) d)) = pd_activity d" for b e d
    using only_dev_bridge(1) [of pp b e, unfolded only_dev_def, THEN spec, of d] by auto
  then have pair: "run_state (bridge_set pp b e) d = (u, d1) \<Longrightarrow> pd_activity d1 = pd_activity d" for b e d u d1
    by (metis snd_conv)
  show ?thesis
    by (auto simp: evrma_pci_irq_set_def get_dev_def upd_dev_def request_irq_def free_irq_def bridge split: prod.split dest: pair)
qed

text \<open>
  When \<open>request_irq\<close> fails the interrupt counts as enabled all the same, so that switching it off takes away a handler
  that was not registered.
\<close>

lemma irq_set_request_fails:
  assumes "2 \<le> pd_activity d" and "\<not> pd_irq_enabled d" and "pd_pcidev d \<noteq> None" and "request d \<noteq> 0"
  shows "run_state (evrma_pci_irq_set pp request True) d = ((), d\<lparr>pd_irq_enabled := True\<rparr>)"
    and "\<exists>h. run_state (evrma_pci_irq_set pp request False) (d\<lparr>pd_irq_enabled := True\<rparr>) =
      ((), d\<lparr>pd_dev := h, pd_handlers := pd_handlers d - 1, pd_irq_enabled := False\<rparr>)"
proof -
  show "run_state (evrma_pci_irq_set pp request True) d = ((), d\<lparr>pd_irq_enabled := True\<rparr>)"
    using assms by (auto simp: evrma_pci_irq_set_def get_dev_def upd_dev_def request_irq_def)
  obtain h where "run_state (bridge_set pp (pd_bridge d) False) (d\<lparr>pd_irq_enabled := True\<rparr>) = ((), d\<lparr>pd_irq_enabled := True, pd_dev := h\<rparr>)"
    using only_dev_bridge(1) [of pp "pd_bridge d" False, unfolded only_dev_def, THEN spec, of "d\<lparr>pd_irq_enabled := True\<rparr>"]
    by (metis old.unit.exhaust prod.collapse)
  with assms show "\<exists>h. run_state (evrma_pci_irq_set pp request False) (d\<lparr>pd_irq_enabled := True\<rparr>) =
      ((), d\<lparr>pd_dev := h, pd_handlers := pd_handlers d - 1, pd_irq_enabled := False\<rparr>)"
    by (cases d) (auto simp: evrma_pci_irq_set_def get_dev_def upd_dev_def free_irq_def)
qed

section \<open>The invariant\<close>

text \<open>The counter is 2 as long as the removal has not begun, and one for each handler that has counted itself.\<close>

definition counted :: "isr_pc list \<Rightarrow> nat" where
  "counted isrs = length (filter (\<lambda>pc. pc \<noteq> Entered) isrs)"

definition activity_ok :: "'h pci_sys \<Rightarrow> bool" where
  "activity_ok s \<longleftrightarrow> pd_activity (sys_dev s) = (if sys_remove s = Present then 2 else 0) + int (counted (sys_isrs s))"

definition serial_ok :: "'h pci_sys \<Rightarrow> bool" where
  "serial_ok s \<longleftrightarrow> length (sys_isrs s) \<le> 1 \<and> (sys_remove s = Destroyed \<longrightarrow> Using \<notin> set (sys_isrs s))"

lemma isr_step_activity: "isr_step s s1 \<Longrightarrow> activity_ok s \<Longrightarrow> activity_ok s1"
  by (induction rule: isr_step.induct) (auto simp: activity_ok_def counted_def isr_inc_def isr_dec_def)

lemma pci_step_activity: "pci_step serial pp s s1 \<Longrightarrow> activity_ok s \<Longrightarrow> activity_ok s1"
proof (induction rule: pci_step.induct)
  case (enter s from_evr d)
  have "\<exists>h. snd (run_state (irq_is_from_evr pp (pd_bridge (sys_dev s))) (sys_dev s)) = (sys_dev s)\<lparr>pd_dev := h\<rparr>"
    using only_dev_bridge(2) [of pp "pd_bridge (sys_dev s)"] unfolding only_dev_def by blast
  with enter have "pd_activity d = pd_activity (sys_dev s)" by auto
  with enter show ?case by (auto simp: activity_ok_def counted_def)
next
  case (handler s s1)
  then show ?case by (rule isr_step_activity)
qed (auto simp: activity_ok_def irq_set_activity remove_subtract_def remove_free_irq_def free_irq_def)

lemma counted_one: "length xs \<le> 1 \<Longrightarrow> counted xs \<le> 1"
  unfolding counted_def using length_filter_le [of "\<lambda>pc. pc \<noteq> Entered" xs] by linarith

lemma counted_using: "Using \<in> set xs \<Longrightarrow> 0 < counted xs"
  by (auto simp: counted_def filter_empty_conv)

lemma isr_step_serial: "isr_step s s1 \<Longrightarrow> activity_ok s \<Longrightarrow> serial_ok s \<Longrightarrow> serial_ok s1"
proof (induction rule: isr_step.induct)
  case (test s xs ys)
  then have "sys_remove s = Destroyed \<Longrightarrow> \<not> isr_may_run (sys_dev s)"
    using counted_one [of "sys_isrs s"] by (simp add: activity_ok_def serial_ok_def isr_may_run_def)
  with test show ?case by (auto simp: serial_ok_def)
qed (auto simp: serial_ok_def)

lemma pci_step_serial: "pci_step True pp s s1 \<Longrightarrow> activity_ok s \<Longrightarrow> serial_ok s \<Longrightarrow> serial_ok s1"
proof (induction rule: pci_step.induct)
  case (handler s s1)
  then show ?case by (blast intro: isr_step_serial)
next
  case (destroy s)
  then show ?case using counted_using [of "sys_isrs s"] by (auto simp: serial_ok_def activity_ok_def)
qed (auto simp: serial_ok_def)

lemma pci_reachable_ok:
  assumes "pci_reachable True pp s0 s" and "activity_ok s0" and "serial_ok s0"
  shows "activity_ok s \<and> serial_ok s"
  using assms by (induction rule: rtranclp_induct) (auto intro: pci_step_activity pci_step_serial)

lemma pci_sys_init_ok: "pd_activity d = 2 \<Longrightarrow> activity_ok (pci_sys_init d) \<and> serial_ok (pci_sys_init d)"
  by (simp add: pci_sys_init_def activity_ok_def serial_ok_def counted_def)


section \<open>Properties\<close>

text \<open>
  C10: However the interrupts, the switch of the interrupt and the removal of a device are interleaved, no interrupt
  handler is in the MNG_DEV when the device has been destroyed: in every reachable state the counter is the number of
  handlers that have counted themselves, and 2 more until the removal begins.
\<close>
theorem pci_isr_never_uses_destroyed:
  assumes "pci_reachable True pp (pci_sys_init d) s" and "pd_activity d = 2"
  shows "\<not> (Using \<in> set (sys_isrs s) \<and> sys_remove s = Destroyed)
    \<and> pd_activity (sys_dev s) = (if sys_remove s = Present then 2 else 0) + int (counted (sys_isrs s))"
  using pci_reachable_ok [OF assms(1)] pci_sys_init_ok [OF assms(2)] by (auto simp: activity_ok_def serial_ok_def)

text \<open>A device with its interrupt on.\<close>

definition pci_dev_ex :: "bus_op list pci_mrf_data" where
  "pci_dev_ex = (zero_pci_mrf_data [])\<lparr>pd_used := True, pd_pcidev := Some 77, pd_activity := 2, pd_irq_enabled := True, pd_handlers := 1\<rparr>"

lemma pci_isr_never_uses_destroyed_witness:
  "\<exists>s. pci_reachable True pp_ex (pci_sys_init pci_dev_ex) s \<and> sys_isrs s = [Counted] \<and> pd_activity (sys_dev s) = 3"
proof -
  let ?s0 = "pci_sys_init pci_dev_ex"
  have "pci_step True pp_ex ?s0 (?s0\<lparr>sys_dev := pci_dev_ex, sys_isrs := (if True then Entered # sys_isrs ?s0 else sys_isrs ?s0)\<rparr>)"
    by (rule pci_step.enter) (simp_all add: pci_sys_init_def pci_dev_ex_def zero_pci_mrf_data_def)
  then have 1: "pci_step True pp_ex ?s0 (?s0\<lparr>sys_dev := pci_dev_ex, sys_isrs := [Entered]\<rparr>)" by (simp add: pci_sys_init_def)
  let ?s2 = "?s0\<lparr>sys_dev := isr_inc pci_dev_ex, sys_isrs := [Counted]\<rparr>"
  have "isr_step (?s0\<lparr>sys_dev := pci_dev_ex, sys_isrs := [Entered]\<rparr>) ?s2"
    using isr_step.count [of "?s0\<lparr>sys_dev := pci_dev_ex, sys_isrs := [Entered]\<rparr>" "[]" "[]"] by simp
  then have reach: "pci_reachable True pp_ex ?s0 ?s2"
    using 1 by (meson pci_step.handler rtranclp.rtrancl_into_rtrancl rtranclp.rtrancl_refl)
  have "pd_activity pci_dev_ex = 2" by (simp add: pci_dev_ex_def)
  from pci_isr_never_uses_destroyed [OF reach this] reach show ?thesis
    by (intro exI [of _ ?s2]) (simp add: pci_sys_init_def counted_def)
qed

lemma isr_steps_leave:
  assumes "sys_isrs s = [pc]"
  shows "\<exists>d. isr_step\<^sup>*\<^sup>* s (s\<lparr>sys_dev := d, sys_isrs := []\<rparr>)"
proof -
  have leave: "\<exists>d. isr_step\<^sup>*\<^sup>* s (s\<lparr>sys_dev := d, sys_isrs := []\<rparr>)" if "sys_isrs s = [Leaving]" for s :: "'a pci_sys"
    using isr_step.leave [of s "[]" "[]"] that by (intro exI [of _ "isr_dec (sys_dev s)"] r_into_rtranclp) simp
  have use: "\<exists>d. isr_step\<^sup>*\<^sup>* s (s\<lparr>sys_dev := d, sys_isrs := []\<rparr>)" if "sys_isrs s = [Using]" for s :: "'a pci_sys"
  proof -
    let ?s1 = "s\<lparr>sys_dev := (sys_dev s)\<lparr>pd_dev := pd_dev (sys_dev s)\<rparr>, sys_isrs := [Leaving]\<rparr>"
    have "isr_step s ?s1" using isr_step.use [of s "[]" "[]" "pd_dev (sys_dev s)"] that by simp
    moreover obtain d where "isr_step\<^sup>*\<^sup>* ?s1 (?s1\<lparr>sys_dev := d, sys_isrs := []\<rparr>)" using leave [of ?s1] by auto
    ultimately show ?thesis by (intro exI [of _ d]) (auto intro: converse_rtranclp_into_rtranclp)
  qed
  have test: "\<exists>d. isr_step\<^sup>*\<^sup>* s (s\<lparr>sys_dev := d, sys_isrs := []\<rparr>)" if "sys_isrs s = [Counted]" for s :: "'a pci_sys"
  proof -
    let ?s1 = "s\<lparr>sys_isrs := [if isr_may_run (sys_dev s) then Using else Leaving]\<rparr>"
    have "isr_step s ?s1" using isr_step.test [of s "[]" "[]"] that by simp
    moreover obtain d where "isr_step\<^sup>*\<^sup>* ?s1 (?s1\<lparr>sys_dev := d, sys_isrs := []\<rparr>)"
      using leave [of ?s1] use [of ?s1] by (cases "isr_may_run (sys_dev s)") auto
    ultimately show ?thesis by (intro exI [of _ d]) (auto intro: converse_rtranclp_into_rtranclp)
  qed
  show ?thesis
  proof (cases pc)
    case Entered
    let ?s1 = "s\<lparr>sys_dev := isr_inc (sys_dev s), sys_isrs := [Counted]\<rparr>"
    have "isr_step s ?s1" using isr_step.count [of s "[]" "[]"] assms Entered by simp
    moreover obtain d where "isr_step\<^sup>*\<^sup>* ?s1 (?s1\<lparr>sys_dev := d, sys_isrs := []\<rparr>)" using test [of ?s1] by auto
    ultimately show ?thesis by (intro exI [of _ d]) (auto intro: converse_rtranclp_into_rtranclp)
  qed (use assms leave use test in auto)
qed

text \<open>
  C19: The removal does not wait for ever: from every reachable state in which it waits, the steps of the handler that is
  still in progress lead to a state in which the counter is 0 and the device is destroyed with the next step.
\<close>
theorem pci_remove_completes:
  assumes "pci_reachable True pp (pci_sys_init d) s" and "pd_activity d = 2" and "sys_remove s = Waiting"
  shows "\<exists>s1. isr_step\<^sup>*\<^sup>* s s1 \<and> sys_isrs s1 = [] \<and> pd_activity (sys_dev s1) = 0
    \<and> pci_step True pp s1 (s1\<lparr>sys_remove := Destroyed\<rparr>)"
proof -
  have ok: "activity_ok s" "serial_ok s"
    using pci_reachable_ok [OF assms(1)] pci_sys_init_ok [OF assms(2)] by auto
  have "\<exists>e. isr_step\<^sup>*\<^sup>* s (s\<lparr>sys_dev := e, sys_isrs := []\<rparr>)"
  proof (cases "sys_isrs s")
    case Nil
    then have "s\<lparr>sys_dev := sys_dev s, sys_isrs := []\<rparr> = s" by simp
    then show ?thesis by (metis rtranclp.rtrancl_refl)
  next
    case (Cons pc rest)
    with ok(2) have "sys_isrs s = [pc]" by (simp add: serial_ok_def)
    then show ?thesis by (rule isr_steps_leave)
  qed
  then obtain e where run: "isr_step\<^sup>*\<^sup>* s (s\<lparr>sys_dev := e, sys_isrs := []\<rparr>)" (is "isr_step\<^sup>*\<^sup>* s ?s1") by blast
  then have "activity_ok ?s1" using ok(1) by (induction rule: rtranclp_induct) (auto intro: isr_step_activity)
  then have "pd_activity (sys_dev ?s1) = 0" using assms(3) by (simp add: activity_ok_def counted_def)
  moreover from this have "pci_step True pp ?s1 (?s1\<lparr>sys_remove := Destroyed\<rparr>)"
    using assms(3) by (intro pci_step.destroy) simp_all
  ultimately show ?thesis using run by (intro exI [of _ ?s1]) simp
qed

lemma pci_remove_completes_witness:
  "\<exists>s1. pci_step True pp_ex s1 (s1\<lparr>sys_remove := Destroyed\<rparr>) \<and> pd_activity (sys_dev s1) = 0"
proof -
  let ?s0 = "pci_sys_init pci_dev_ex"
  let ?s1 = "?s0\<lparr>sys_dev := remove_subtract (sys_dev ?s0), sys_remove := Subtracted\<rparr>"
  let ?s2 = "?s1\<lparr>sys_dev := remove_free_irq (sys_dev ?s1), sys_remove := Waiting\<rparr>"
  have "pci_step True pp_ex ?s0 ?s1" by (rule pci_step.subtract) (simp add: pci_sys_init_def)
  moreover have "pci_step True pp_ex ?s1 ?s2" by (rule pci_step.free) simp
  ultimately have reach: "pci_reachable True pp_ex ?s0 ?s2" by (meson rtranclp.rtrancl_into_rtrancl rtranclp.rtrancl_refl)
  have "pd_activity pci_dev_ex = 2" "sys_remove ?s2 = Waiting" by (simp_all add: pci_dev_ex_def)
  from pci_remove_completes [OF reach this] show ?thesis by blast
qed

end
