(* ===== verification/Vdev_Files.thy ===== *)
theory Vdev_Files
  imports Mng_Properties
begin

text \<open>
  The file operations of a VIRT_DEV that go through its MNG_DEV (src/src/virt-dev.c): opening by the
  minor number and closing, the \<open>ioctl\<close> calls with their three ranges, the read-only mapping and the
  \<open>config\<close> file. \<open>mg\<close> is the MNG_DEV of the VIRT_DEV, \<open>q\<close> the VIRT_DEV's private data that
  the open file holds.
\<close>

section \<open>Opening and closing\<close>

abbreviation des_of :: "'s mngdev_data \<Rightarrow> ptr \<Rightarrow> ptr" where
  "des_of mg q \<equiv> vdev_des (the (vdev_objs (mg_sys mg) q))"

text \<open>The result, the private data of the opened file and the MNG_DEV.\<close>

definition vdev_open :: "int \<Rightarrow> inode \<Rightarrow> bool \<Rightarrow> 's mngdev_data \<Rightarrow> (int res \<times> ptr option \<times> 's mngdev_data) option" where
  "vdev_open minor i kmalloc_ok mg = (case calc_table_indices (mg_sys mg) minor of
     Inl e \<Rightarrow> Some (Inl e, None, mg)
   | Inr (imngdev, ivdev) \<Rightarrow> (case vdev_table (mg_sys mg) imngdev ivdev of
        None \<Rightarrow> Some (Inl ENODEV, None, mg)
      | Some q \<Rightarrow> (case modac_c_vdev_on_open (des_of mg q) i kmalloc_ok mg of
            None \<Rightarrow> None
          | Some (Inl e, mg) \<Rightarrow> Some (Inl e, None, mg)
          | Some (Inr v, mg) \<Rightarrow> Some (Inr v, Some q, mg))))"

definition vdev_release :: "'s modac_hw_support_def \<Rightarrow> ptr \<Rightarrow> inode \<Rightarrow> 's mngdev_data \<Rightarrow> (bool \<times> 's mngdev_data) option" where
  "vdev_release hws q i mg = modac_c_vdev_on_close hws (des_of mg q) i mg"

section \<open>The \<open>ioctl\<close> calls\<close>

text \<open>The calls that may not sleep: they hold the direct access and not the mutex.\<close>

definition vdev_ioctl_direct :: "'s modac_hw_support_def \<Rightarrow> u32 \<Rightarrow> umem \<Rightarrow> ptr \<Rightarrow> 's mngdev_data \<Rightarrow>
    int res \<times> umem \<times> 's mngdev_data" where
  "vdev_ioctl_direct hws cmd m p mg = (case lock_direct_call (vdev_at mg p) of
     (locked, d) \<Rightarrow>
       let mg = upd_vdev p (\<lambda>_. d) mg in
       if \<not> locked then (Inl ENODEV, m, mg)
       else case modac_c_vdev_do_direct_ioctl hws cmd m mg of
         (ret, m, mg) \<Rightarrow> (ret, m, upd_vdev p unlock_direct_call mg))"

definition vdev_ioctl_hw :: "'s modac_hw_support_def \<Rightarrow> call_env \<Rightarrow> u32 \<Rightarrow> umem \<Rightarrow> ptr \<Rightarrow> 's mngdev_data \<Rightarrow>
    int res \<times> umem \<times> 's mngdev_data" where
  "vdev_ioctl_hw hws env cmd m p mg = (case copy_from_user m 8 of
     None \<Rightarrow> (Inl EFAULT, m, mg)
   | Some bs \<Rightarrow> modac_c_vdev_do_ioctl hws env p (vres_at bs 0) cmd m mg)"

definition vdev_ioc_subscribe :: "'s modac_hw_support_def \<Rightarrow> umem \<Rightarrow> ptr \<Rightarrow> 's mngdev_data \<Rightarrow>
    int res \<times> umem \<times> 's mngdev_data" where
  "vdev_ioc_subscribe hws m p mg = (case copy_from_user m 8 of
     None \<Rightarrow> (Inl EFAULT, m, mg)
   | Some bs \<Rightarrow>
       let subscribe_args = get_subscribe bs in
       case modac_c_vdev_subscribe hws p (subscribe_event subscribe_args) (subscribe_action subscribe_args) mg of
         (ret, mg) \<Rightarrow> (ret, m, mg))"

definition vdev_ioctl_status_get :: "umem \<Rightarrow> ptr \<Rightarrow> 's mngdev_data \<Rightarrow> int res \<times> umem \<times> 's mngdev_data" where
  "vdev_ioctl_status_get m p mg =
     (let d = vdev_at mg p;
          status = \<lparr>status_major = vdd_major d, status_minor = vdd_minor d,
                    status_name = strncpy (vdd_name d) (MODAC_DEVICE_MAX_NAME + 1)\<rparr>
      in case copy_to_user m 0 (status_bytes status) of
           None \<Rightarrow> (Inl EFAULT, m, mg)
         | Some m \<Rightarrow> (Inr 0, m, mg))"

definition vdev_ioctl_res_status_get :: "umem \<Rightarrow> ptr \<Rightarrow> 's mngdev_data \<Rightarrow> int res \<times> umem \<times> 's mngdev_data" where
  "vdev_ioctl_res_status_get m p mg = (case copy_from_user m 8 of
     None \<Rightarrow> (Inl EFAULT, m, mg)
   | Some bs \<Rightarrow> (case modac_c_vdev_get_res_status p (get_res_status bs) mg of
        Inl e \<Rightarrow> (Inl e, m, mg)
      | Inr res_status \<Rightarrow> (case copy_to_user m 0 (res_status_bytes res_status) of
           None \<Rightarrow> (Inl EFAULT, m, mg)
         | Some m \<Rightarrow> (Inr 0, m, mg))))"

text \<open>The part with the mutex held; the range of the debug calls is empty.\<close>

definition vdev_ioctl_locked :: "'s modac_hw_support_def \<Rightarrow> call_env \<Rightarrow> u32 \<Rightarrow> umem \<Rightarrow> ptr \<Rightarrow> 's mngdev_data \<Rightarrow>
    int res \<times> umem \<times> 's mngdev_data" where
  "vdev_ioctl_locked hws env cmd m p mg =
     (if IOC_NR cmd \<le> VIRT_DEV_IOC_MAX then
        (if cmd = VIRT_DEV_IOC_SUBSCRIBE then vdev_ioc_subscribe hws m p mg
         else if cmd = VIRT_DEV_IOC_STATUS_GET then vdev_ioctl_status_get m p mg
         else if cmd = VIRT_DEV_IOC_RES_STATUS_GET then vdev_ioctl_res_status_get m p mg
         else (Inl ENOSYS, m, mg))
      else if VIRT_DEV_HW_IOC_MIN \<le> IOC_NR cmd \<and> IOC_NR cmd \<le> VIRT_DEV_HW_IOC_MAX then vdev_ioctl_hw hws env cmd m p mg
      else if VIRT_DEV_DBG_IOC_MIN \<le> IOC_NR cmd \<and> IOC_NR cmd \<le> VIRT_DEV_DBG_IOC_MAX then (Inl ENOSYS, m, mg)
      else (Inl ENOTTY, m, mg))"

definition vdev_unlocked_ioctl :: "'s modac_hw_support_def \<Rightarrow> call_env \<Rightarrow> u32 \<Rightarrow> umem \<Rightarrow> ptr \<Rightarrow> 's mngdev_data \<Rightarrow>
    (int res \<times> umem \<times> 's mngdev_data) option" where
  "vdev_unlocked_ioctl hws env cmd m q mg =
     (let p = des_of mg q in
      if IOC_TYPE cmd \<noteq> VIRT_DEV_IOC_MAGIC then Some (Inl ENOTTY, m, mg)
      else if ioctl_access_denied (env_access_ok env) cmd then Some (Inl EFAULT, m, mg)
      else if VIRT_DEV_HW_DIRECT_IOC_MIN \<le> IOC_NR cmd \<and> IOC_NR cmd \<le> VIRT_DEV_HW_DIRECT_IOC_MAX
      then Some (vdev_ioctl_direct hws cmd m p mg)
      else case mngdev_devref_lock mg of
        None \<Rightarrow> None
      | Some (Inl e, mg) \<Rightarrow> Some (Inl e, m, mg)
      | Some (Inr _, mg) \<Rightarrow> (case vdev_ioctl_locked hws env cmd m p mg of
          (ret, m, mg) \<Rightarrow> Some (ret, m, mngdev_devref_unlock mg)))"

section \<open>The mapping and the \<open>config\<close> file\<close>

text \<open>\<open>readonly\<close> is whether the protection of the mapping is \<open>PAGE_READONLY\<close>; the second result is the mapped address.\<close>

definition vdev_mmap_ro :: "'s modac_hw_support_def \<Rightarrow> bool \<Rightarrow> bool \<Rightarrow> ulong \<Rightarrow> ulong \<Rightarrow> 's mngdev_data \<Rightarrow>
    (ulong res \<times> 's mngdev_data) option" where
  "vdev_mmap_ro hws readonly remap_ok offset vsize mg = (case mngdev_devref_lock mg of
     None \<Rightarrow> None
   | Some (Inl e, mg) \<Rightarrow> Some (Inl e, mg)
   | Some (Inr _, mg) \<Rightarrow>
       Some (if \<not> readonly then Inl EINVAL
             else case modac_c_vdev_mmap_ro hws offset vsize mg of
               Inl e \<Rightarrow> Inl e
             | Inr physical \<Rightarrow> if \<not> remap_ok then Inl EAGAIN else Inr physical,
             mngdev_devref_unlock mg))"

text \<open>
  \<open>kstrtoul\<close> is the kernel's conversion of a text to a number. Once the device is locked the result is the whole text's
  length, whatever was made of it. The number is cut to an \<open>int\<close>.
\<close>

definition PSTRINGS_EQUAL :: "u8 list \<Rightarrow> u8 list \<Rightarrow> nat \<Rightarrow> bool" where
  "PSTRINGS_EQUAL s1 s2 n \<longleftrightarrow> take n (cstr s1) = take n (cstr s2)"

definition hw_reset :: "u8 list" where
  "hw_reset = map of_char ''hw_reset'' @ [0]"

definition store_config :: "'s modac_hw_support_def \<Rightarrow> (u8 list \<Rightarrow> ulong option) \<Rightarrow> u8 list \<Rightarrow> int \<Rightarrow> ptr \<Rightarrow> 's mngdev_data \<Rightarrow>
    (int res \<times> 's mngdev_data) option" where
  "store_config hws kstrtoul buf n q mg = (case mngdev_devref_lock mg of
     None \<Rightarrow> None
   | Some (Inl e, mg) \<Rightarrow> Some (Inl e, mg)
   | Some (Inr _, mg) \<Rightarrow>
       let p = des_of mg q;
           mg = (if PSTRINGS_EQUAL buf hw_reset 8 then modac_c_vdev_init_res hws p mg
                 else case kstrtoul buf of
                   None \<Rightarrow> mg
                 | Some val \<Rightarrow> upd_vdev p (\<lambda>d. d\<lparr>vdd_leave_res_set_on_last_close := sint (ucast val :: u32)\<rparr>) mg)
       in Some (Inr n, mngdev_devref_unlock mg))"

section \<open>Lemmas\<close>

lemma devref_lock_valid:
  assumes "mngdev_devref_lock mg = Some (Inr v, mg0)"
  shows "mg0 = mg\<lparr>mg_ref := (mg_ref mg)\<lparr>ref_mtx := True\<rparr>\<rparr> \<and> mngdev_devref_unlock mg0 = mg \<and> ref_ptr (mg_ref mg) \<noteq> None"
  using assms by (cases "mg_ref mg")
    (auto simp: mngdev_devref_lock_def mngdev_devref_unlock_def devref_lock_def devref_unlock_def split: if_splits)

text \<open>What is not a number is accepted: the writer of \<open>config\<close> gets the length back, and nothing has changed.\<close>

lemma store_config_not_number:
  assumes "\<not> ref_mtx (mg_ref mg)" and "ref_ptr (mg_ref mg) \<noteq> None"
    and "\<not> PSTRINGS_EQUAL buf hw_reset 8" and "kstrtoul buf = None"
  shows "store_config hws kstrtoul buf n q mg = Some (Inr n, mg)"
proof -
  obtain mg0 where lock: "mngdev_devref_lock mg = Some (Inr 0, mg0)"
    using assms(1,2) by (auto simp: mngdev_devref_lock_def devref_lock_def)
  moreover from devref_lock_valid [OF lock] have "mngdev_devref_unlock mg0 = mg" by blast
  ultimately show ?thesis using assms(3,4) by (simp add: store_config_def Let_def)
qed

lemma id_owner_not_error: "id_owner vid \<noteq> - 22"
  using uint_ge_0 [of vid] by linarith

lemma get_vres_desc_ref [simp]: "mngdev_vdev_get_vres_desc (mg\<lparr>mg_ref := r\<rparr>) = mngdev_vdev_get_vres_desc mg"
  by (simp add: mngdev_vdev_get_vres_desc_def fun_eq_iff)

lemma vdev_do_ioctl_ref:
  "modac_c_vdev_do_ioctl hws env p vres cmd m (mg\<lparr>mg_ref := ref\<rparr>) =
     (case modac_c_vdev_do_ioctl hws env p vres cmd m mg of (r, m, mg) \<Rightarrow> (r, m, mg\<lparr>mg_ref := ref\<rparr>))"
  by (simp add: modac_c_vdev_do_ioctl_def Let_def split: option.split prod.split)

text \<open>A locked call leaves the device unlocked, also after an error.\<close>

lemma vdev_ioctl_hw_run:
  assumes "vdev_unlocked_ioctl hws env cmd m q mg = Some (r, m1, mg1)" and "IOC_TYPE cmd = VIRT_DEV_IOC_MAGIC"
    and "\<not> ioctl_access_denied (env_access_ok env) cmd" and "VIRT_DEV_HW_IOC_MIN \<le> IOC_NR cmd" and "IOC_NR cmd < VIRT_DEV_HW_DIRECT_IOC_MIN"
    and "ref_ptr (mg_ref mg) \<noteq> None" and "copy_from_user m 8 = Some bs"
  shows "modac_c_vdev_do_ioctl hws env (des_of mg q) (vres_at bs 0) cmd m mg = (r, m1, mg1)"
proof -
  from assms(1-5) obtain v mg0 where lock: "mngdev_devref_lock mg = Some (v, mg0)"
    by (auto simp: vdev_unlocked_ioctl_def split: option.splits)
  obtain u where "v = Inr u"
    using lock assms(6) by (auto simp: mngdev_devref_lock_def devref_lock_def split: if_splits)
  note lk = devref_lock_valid [OF lock [unfolded this]]
  obtain r2 m2 mg2 where io: "modac_c_vdev_do_ioctl hws env (des_of mg q) (vres_at bs 0) cmd m mg = (r2, m2, mg2)"
    by (cases "modac_c_vdev_do_ioctl hws env (des_of mg q) (vres_at bs 0) cmd m mg")
  have same: "mg_ref mg2 = mg_ref mg"
    using io by (auto simp: modac_c_vdev_do_ioctl_def Let_def split: option.splits prod.splits if_splits)
  have "vdev_ioctl_locked hws env cmd m (des_of mg q) mg0 = (r2, m2, mg2\<lparr>mg_ref := (mg_ref mg)\<lparr>ref_mtx := True\<rparr>\<rparr>)"
    using assms(4,5,7) lk io by (simp add: vdev_ioctl_locked_def vdev_ioctl_hw_def vdev_do_ioctl_ref)
  moreover have "mngdev_devref_unlock (mg2\<lparr>mg_ref := (mg_ref mg)\<lparr>ref_mtx := True\<rparr>\<rparr>) = mg2"
    using lk same by (cases mg; cases mg2) (simp add: mngdev_devref_unlock_def devref_unlock_def)
  ultimately show ?thesis
    using assms(1-5) lock \<open>v = Inr u\<close> io by (auto simp: vdev_unlocked_ioctl_def)
qed

section \<open>Properties\<close>


text \<open>A hardware call of the VIRT_DEV at 100 on its pulse generator.\<close>

lemma st_a_priv: "vdd_priv (vdev_at st_a 100) = Some 200" "mg_vdevs st_a 100 \<noteq> None"
  unfolding st_a_def ioctl_ex_def ioctl_ex_cmds(1) [OF mg_ex_ref(1-3)]
  by (simp_all add: mng_ioctl_create_def create_args_copy create_args_ids mngdev_devref_unlock_def list_find_vdev_def
      list_find_vdev_by_name_def ex_simps)

lemma st_a_objs: "des_of st_a 200 = 100"
  unfolding st_a_def ioctl_ex_def ioctl_ex_cmds(1) [OF mg_ex_ref(1-3)]
  by (simp add: mng_ioctl_create_def create_args_copy create_args_ids mngdev_devref_unlock_def list_find_vdev_def
      list_find_vdev_by_name_def ex_simps vdev_init_dev_def)

lemma st_b_priv: "vdd_priv (vdev_at st_b 100) = Some 200" "des_of st_b 200 = 100"
  using st_a_priv st_a_objs by (simp_all add: st_b_eq mngdev_devref_unlock_def upd_vdev_def)

definition hw_call_args :: umem where
  "hw_call_args = (\<lambda>_. Some 0)"

lemma hw_call_copy: "copy_from_user hw_call_args 8 = Some (replicate 8 0)"
  by (simp add: copy_from_user_def umem_bytes_def hw_call_args_def upt_rec numeral_nat)

lemma hw_call_vres: "vres_at (replicate 8 0) 0 = \<lparr>vres_type = 0, vres_index = 0\<rparr>"
  by (simp add: vres_at_def int_at_def u32_at_def)


lemma inod_dec_inc: "inod_inc i l = Some l1 \<Longrightarrow> \<forall>e\<in>set l. 0 < l_rcnt e \<Longrightarrow> inod_dec i l1 = l"
  by (induction l arbitrary: l1) (auto split: if_splits)

text \<open>A reference that is taken for an inode and put again is the same as before.\<close>

lemma devref_get_put:
  assumes "devref_get ref (Some i) k = Some (Inr v, ref1)" and "inods_ok (ref_lhd ref)"
  shows "v = 0 \<and> ref_mtx ref1 \<and> ref_cnt ref1 = ref_cnt ref + 1 \<and> ref_ptr ref1 = ref_ptr ref \<and> ref_ptr ref \<noteq> None
    \<and> devref_put ref1 (Some i) = (ref_cnt ref, ref)"
  using assms inod_dec_inc [of i "ref_lhd ref"]
  by (cases ref) (auto simp: devref_get_def devref_lock_def devref_put_def devref_unlock_def inods_ok_def Let_def split: option.splits if_splits)

lemma devref_relock: "ref_mtx ref \<Longrightarrow> devref_lock (devref_unlock ref) = Some ref"
  by (cases ref) (simp add: devref_lock_def devref_unlock_def)

lemma upd_vdev_twice: "upd_vdev p f (upd_vdev p g mg) = upd_vdev p (\<lambda>d. f (g d)) mg"
  by (simp add: upd_vdev_def)

lemma upd_vdev_ref: "upd_vdev p f (mg\<lparr>mg_ref := r\<rparr>) = (upd_vdev p f mg)\<lparr>mg_ref := r\<rparr>"
  by (simp add: upd_vdev_def)

lemma upd_vdev_same: "mg_vdevs mg p \<noteq> None \<Longrightarrow> upd_vdev p (\<lambda>d. d) mg = mg"
  by (auto simp: upd_vdev_def fun_upd_idem)

lemma vdev_on_open_run:
  assumes "devref_get (mg_ref mg) (Some i) k = Some (Inr v, ref1)"
  shows "modac_c_vdev_on_open p i k mg = Some (Inr v,
    upd_vdev p (\<lambda>d. d\<lparr>vdd_usage_counter := vdd_usage_counter d + 1\<rparr>) (mg\<lparr>mg_ref := devref_unlock ref1\<rparr>))"
  using assms by (simp add: modac_c_vdev_on_open_def modac_mng_check_on_open_def)

text \<open>
  Opening a VIRT_DEV by its minor number gives its private data, counts the file in the VIRT_DEV and in the device
  reference, and leaves the mutex free. As long as another file has the VIRT_DEV open, closing the file restores the
  MNG_DEV exactly: no resource is reset and no subscription is lost.
\<close>
theorem vdev_open_release:
  assumes "calc_table_indices (mg_sys mg) minor = Inr (imngdev, ivdev)" and "vdev_table (mg_sys mg) imngdev ivdev = Some q"
    and "p = des_of mg q" and "mg_vdevs mg p \<noteq> None"
    and "held_by (mg_ref mg) H" and "ref_ptr (mg_ref mg) \<noteq> None" and "\<not> ref_mtx (mg_ref mg)" and "H \<noteq> {#}"
  shows "\<exists>mg1. vdev_open minor i True mg = Some (Inr 0, Some q, mg1)
    \<and> vdd_usage_counter (vdev_at mg1 p) = vdd_usage_counter (vdev_at mg p) + 1
    \<and> held_by (mg_ref mg1) (add_mset (Some i) H) \<and> \<not> ref_mtx (mg_ref mg1)
    \<and> (1 \<le> vdd_usage_counter (vdev_at mg p) \<longrightarrow> vdev_release hws q i mg1 = Some (False, mg))"
proof -
  obtain v ref1 where get: "devref_get (mg_ref mg) (Some i) True = Some (Inr v, ref1)"
    using assms(6,7) by (cases "inod_inc i (ref_lhd (mg_ref mg))") (auto simp: devref_get_def devref_lock_def Let_def)
  have inods: "inods_ok (ref_lhd (mg_ref mg))" using assms(5) by (simp add: held_by_def)
  note ref1 = devref_get_put [OF get inods]
  let ?mg1 = "upd_vdev p (\<lambda>d. d\<lparr>vdd_usage_counter := vdd_usage_counter d + 1\<rparr>) (mg\<lparr>mg_ref := devref_unlock ref1\<rparr>)"
  have opened: "vdev_open minor i True mg = Some (Inr 0, Some q, ?mg1)"
    using assms(1-3) vdev_on_open_run [OF get] ref1 by (simp add: vdev_open_def)
  have "held_by ref1 (add_mset (Some i) H)" using devref_get_held [OF assms(5) get] by simp
  moreover have "vdev_release hws q i ?mg1 = Some (False, mg)" if "1 \<le> vdd_usage_counter (vdev_at mg p)"
  proof -
    have "ref_cnt (mg_ref mg) \<noteq> 0" using assms(5,8) by (simp add: held_by_def)
    moreover have "close_prepare hws p (?mg1\<lparr>mg_ref := ref1\<rparr>) = mg\<lparr>mg_ref := ref1\<rparr>"
      using that assms(4) by (simp add: close_prepare_def Let_def upd_vdev_ref upd_vdev_twice upd_vdev_same)
    ultimately show ?thesis
      using ref1 assms(3) by (simp add: vdev_release_def on_close_eq devref_relock drvdat_put_def upd_vdev_def)
  qed
  ultimately show ?thesis
    using opened by (intro exI [of _ ?mg1]) (simp add: upd_vdev_def devref_unlock_def)
qed

text \<open>The VIRT_DEV at 100, which the inode 7 has open, is opened by the inode 8 as well.\<close>

definition st_open :: "unit mngdev_data" where
  "st_open = upd_vdev 100 (\<lambda>d. d\<lparr>vdd_usage_counter := 1\<rparr>)
     (st_b\<lparr>mg_ref := \<lparr>ref_ptr = Some (), ref_cnt = 2, ref_mtx = False, ref_lhd = [\<lparr>l_inod = 7, l_rcnt = 1\<rparr>]\<rparr>\<rparr>)"

lemma st_a_table: "calc_table_indices (mg_sys st_a) 1 = Inr (0, 0)" "vdev_table (mg_sys st_a) 0 0 = Some 200"
  unfolding st_a_def ioctl_ex_def ioctl_ex_cmds(1) [OF mg_ex_ref(1-3)]
  by (simp_all add: mng_ioctl_create_def create_args_copy create_args_ids mngdev_devref_unlock_def list_find_vdev_def
      list_find_vdev_by_name_def ex_simps)

lemma st_open_sys: "mg_sys st_open = mg_sys st_a" "mg_vdevs st_open 100 \<noteq> None" "vdd_usage_counter (vdev_at st_open 100) = 1"
  using st_a_priv(2) by (simp_all add: st_open_def st_b_eq mngdev_devref_unlock_def upd_vdev_def)

lemma vdev_open_release_witness:
  "\<exists>mg1. vdev_open 1 8 True st_open = Some (Inr 0, Some 200, mg1) \<and> vdev_release hws_ex 200 8 mg1 = Some (False, st_open)"
proof -
  have tab: "calc_table_indices (mg_sys st_open) 1 = Inr (0, 0)" "vdev_table (mg_sys st_open) 0 0 = Some 200" "100 = des_of st_open 200"
    using st_a_table st_a_objs by (simp_all add: st_open_sys)
  have held: "held_by (mg_ref st_open) {#None, Some 7#}" "ref_ptr (mg_ref st_open) \<noteq> None" "\<not> ref_mtx (mg_ref st_open)"
    by (auto simp: st_open_def upd_vdev_def held_by_def inods_ok_def)
  have "{#None, Some 7#} \<noteq> {#}" by simp
  from vdev_open_release [OF tab st_open_sys(2) held this, of 8 hws_ex] show ?thesis by (auto simp: st_open_sys(3))
qed

end
