(* ===== verification/Mng_Driver.thy ===== *)
theory Mng_Driver
  imports Vdev_Files
begin

text \<open>
  All MNG_DEVs (src/src/mng-dev.c): their table by minor number, how one is created around a hardware
  support and destroyed, also while its files are open, and the opening and closing of its own file. The objects
  live in a partial map; the tables of the VIRT_DEVs are shared, and a MNG_DEV sees them as its \<open>mg_sys\<close> while an operation runs.
  \<open>None\<close> is an operation that blocks on a mutex or goes through a pointer that does not point to an object.
\<close>

section \<open>State\<close>

text \<open>\<open>mngdev_class\<close> are the devices that exist in the class, \<open>sig_killed\<close> and \<open>unmapped\<close> the calls made to kill a process and to unmap a file.\<close>

record 's mngdev_system =
  mngdev_first_minor :: int
  mngdev_table_size :: int
  mngdev_table :: "int \<Rightarrow> ptr option"
  mngdev_objs :: "ptr \<rightharpoonup> 's mngdev_data"
  mngdev_vs :: vdev_system
  mngdev_class :: "(int \<times> int) list"
  sig_killed :: "int list"
  unmapped :: "inode list"

definition mngdev_at :: "'s mngdev_system \<Rightarrow> ptr \<Rightarrow> 's mngdev_data" where
  "mngdev_at ms p = (the (mngdev_objs ms p))\<lparr>mg_sys := mngdev_vs ms\<rparr>"

definition set_mngdev :: "ptr \<Rightarrow> 's mngdev_data \<Rightarrow> 's mngdev_system \<Rightarrow> 's mngdev_system" where
  "set_mngdev p mg ms = ms\<lparr>mngdev_objs := (mngdev_objs ms)(p \<mapsto> mg), mngdev_vs := mg_sys mg\<rparr>"

definition mngdev_index :: "'s mngdev_system \<Rightarrow> int \<Rightarrow> int" where
  "mngdev_index ms minor = (minor - mngdev_first_minor ms) sdiv MINOR_MULTIPLICATOR"

definition index_ok :: "'s mngdev_system \<Rightarrow> int \<Rightarrow> bool" where
  "index_ok ms imngdev \<longleftrightarrow> \<not> (imngdev < 0 \<or> imngdev \<ge> mngdev_table_size ms)"

text \<open>The end of an object whose last reference was put: its device in the class and its memory.\<close>

definition free_mngdev :: "ptr \<Rightarrow> bool \<times> 's mngdev_data \<Rightarrow> 's mngdev_system \<Rightarrow> 's mngdev_system" where
  "free_mngdev p r ms = (case r of (destroyed, mg) \<Rightarrow>
     let ms = set_mngdev p mg ms in
     if destroyed then ms\<lparr>mngdev_class := remove1 (md_major (mg_des mg), md_minor (mg_des mg)) (mngdev_class ms),
       mngdev_objs := (mngdev_objs ms)(p := None)\<rparr>
     else ms)"

section \<open>The file of a MNG_DEV\<close>

text \<open>
  The result, the object the file holds and the system. A process that has the file open keeps others from it; their
  reference was taken before that is seen.
\<close>

definition mngdev_open :: "int \<Rightarrow> inode \<Rightarrow> bool \<Rightarrow> int \<Rightarrow> 's mngdev_system \<Rightarrow> (int res \<times> ptr option \<times> 's mngdev_system) option" where
  "mngdev_open minor i kmalloc_ok pid ms =
     (if minor smod MINOR_MULTIPLICATOR \<noteq> 0 then Some (Inl ENODEV, None, ms)
      else
        let imngdev = mngdev_index ms minor in
        if \<not> index_ok ms imngdev then Some (Inl ENODEV, None, ms)
        else case mngdev_table ms imngdev of
          None \<Rightarrow> Some (Inl ENODEV, None, ms)
        | Some p \<Rightarrow> (case modac_mng_check_on_open i kmalloc_ok (mngdev_at ms p) of
            None \<Rightarrow> None
          | Some (Inl e, mg) \<Rightarrow> Some (Inl e, None, set_mngdev p mg ms)
          | Some (Inr _, mg) \<Rightarrow> (case devref_lock (mg_ref mg) of
              None \<Rightarrow> None
            | Some ref \<Rightarrow>
                let (ret, mg) = (if mg_pid mg \<noteq> NO_PID then (Inl EBUSY, mg\<lparr>mg_ref := ref\<rparr>)
                       else (Inr 0, mg\<lparr>mg_ref := ref, mg_pid := pid\<rparr>))
                in Some (ret, Some p, set_mngdev p (mngdev_devref_unlock mg) ms))))"

definition mngdev_release :: "'s modac_hw_support_def \<Rightarrow> ptr \<Rightarrow> inode \<Rightarrow> 's mngdev_system \<Rightarrow> 's mngdev_system option" where
  "mngdev_release hws p i ms =
     (let mg = mngdev_at ms p in
      case devref_lock (mg_ref mg) of
        None \<Rightarrow> None
      | Some ref \<Rightarrow> map_option (\<lambda>r. free_mngdev p r ms) (drvdat_put hws (Some i) None (mg\<lparr>mg_ref := ref, mg_pid := NO_PID\<rparr>)))"

text \<open>The file of a VIRT_DEV of the MNG_DEV at \<open>p\<close>, whose closing may be the end of the MNG_DEV.\<close>

definition vdev_file_release :: "'s modac_hw_support_def \<Rightarrow> ptr \<Rightarrow> ptr \<Rightarrow> inode \<Rightarrow> 's mngdev_system \<Rightarrow> 's mngdev_system option" where
  "vdev_file_release hws p q i ms = map_option (\<lambda>r. free_mngdev p r ms) (vdev_release hws q i (mngdev_at ms p))"

section \<open>Creation and destruction\<close>

text \<open>
  What a creation gets from its surroundings: the address from \<open>kmalloc\<close>, the results of the allocations of the hardware
  support and of the resource manager, and of \<open>device_create\<close>; the device and the uninitialised private data of the hardware support.
\<close>

record 's create_env =
  ce_kmalloc :: "ptr option"
  ce_hw_kmalloc :: "nat \<Rightarrow> bool"
  ce_rm_kmalloc :: "nat \<Rightarrow> bool"
  ce_device_create :: "errno option"
  ce_hw :: 's

text \<open>What a creation returns: the result, the private pointer of the description, the hardware and the system.\<close>

type_synonym 's create_result = "int res \<times> ptr option \<times> 's \<times> 's mngdev_system"

definition all_unsubscribed :: event_list_type where
  "all_unsubscribed = event_list_clear 0"

text \<open>The part after the device of the class was created.\<close>

definition enter_mngdev :: "'s modac_hw_support_def \<Rightarrow> int \<Rightarrow> ptr \<Rightarrow> 's mngdev_data \<Rightarrow> 's mngdev_system \<Rightarrow> 's create_result" where
  "enter_mngdev hws imngdev p mg ms =
     (if mngdev_table ms imngdev \<noteq> None
      then (Inl EEXIST, None, hw_end hws (mg_hw mg),
            ms\<lparr>mngdev_class := remove1 (md_major (mg_des mg), md_minor (mg_des mg)) (mngdev_class ms)\<rparr>)
      else
        let hw = snd (hw_on_subscribe_change hws (mg_hw mg) all_unsubscribed);
            ms = ms\<lparr>mngdev_table := (mngdev_table ms)(imngdev := Some p)\<rparr>
        in (Inr 0, Some p, hw, set_mngdev p (mg\<lparr>mg_hw := hw\<rparr>) ms))"

text \<open>
  \<open>priv\<close> is the private pointer of the description before the call. The cleanup after a failure of the
  resource manager goes through the description of the new object, which is not set yet: \<open>None\<close>.
\<close>

definition modac_mngdev_create :: "'s modac_hw_support_def \<Rightarrow> 's create_env \<Rightarrow> modac_mngdev_des \<Rightarrow> ptr option \<Rightarrow> 's mngdev_system \<Rightarrow>
    's create_result option" where
  "modac_mngdev_create hws env des priv ms =
     (let imngdev = mngdev_index ms (md_minor des) in
      if \<not> index_ok ms imngdev then Some (Inl ENOTSUPP, priv, ce_hw env, ms)
      else case ce_kmalloc env of
        None \<Rightarrow> Some (Inl ENOMEM, None, ce_hw env, ms)
      | Some p \<Rightarrow> (case hw_init hws (ce_hw_kmalloc env) (ce_hw env) of
          (ret, defs, hw) \<Rightarrow>
            if ret_int ret \<noteq> 0 then Some (ret, None, hw, ms)
            else case modac_rm_init (ce_rm_kmalloc env) defs of
              Inl e \<Rightarrow> None
            | Inr rm \<Rightarrow> (case ce_device_create env of
                Some e \<Rightarrow> Some (Inl e, None, hw_end hws hw, ms)
              | None \<Rightarrow> Some (enter_mngdev hws imngdev p (mngdev_init_dev des hw rm (mngdev_vs ms))
                  (ms\<lparr>mngdev_class := (md_major des, md_minor des) # mngdev_class ms\<rparr>)))))"

definition app_kill :: "'s mngdev_data \<Rightarrow> 's mngdev_system \<Rightarrow> 's mngdev_system" where
  "app_kill mg ms = (if mg_pid mg \<noteq> NO_PID then ms\<lparr>sig_killed := mg_pid mg # sig_killed ms\<rparr> else ms)"

definition unmap_inode :: "inode \<Rightarrow> 's mngdev_system \<Rightarrow> 's mngdev_system" where
  "unmap_inode i ms = ms\<lparr>unmapped := i # unmapped ms\<rparr>"

definition modac_mngdev_destroy :: "'s modac_hw_support_def \<Rightarrow> modac_mngdev_des \<Rightarrow> ptr option \<Rightarrow> 's mngdev_system \<Rightarrow>
    's mngdev_system option" where
  "modac_mngdev_destroy hws des priv ms =
     (let ms = ms\<lparr>mngdev_table := (mngdev_table ms)(mngdev_index ms (md_minor des) := None)\<rparr> in
      case modac_vdev_table_reset (md_minor des) (mngdev_vs ms) of
        None \<Rightarrow> None
      | Some vs \<Rightarrow>
          let ms = ms\<lparr>mngdev_vs := vs\<rparr> in
          case priv of
            None \<Rightarrow> None
          | Some p \<Rightarrow>
              let mg = mngdev_at ms p in
              (case devref_lock (mg_ref mg) of
                 None \<Rightarrow> None
               | Some ref \<Rightarrow>
                   let ref = devref_invalidate ref;
                       ms = devref_forall_inodes ref unmap_inode (app_kill mg ms)
                   in map_option (\<lambda>r. free_mngdev p r ms) (drvdat_put hws None None (mg\<lparr>mg_ref := ref\<rparr>))))"

section \<open>Lemmas\<close>

lemma set_mngdev_sel [simp]:
  "mngdev_objs (set_mngdev p mg ms) = (mngdev_objs ms)(p \<mapsto> mg)"
  "mngdev_vs (set_mngdev p mg ms) = mg_sys mg"
  "mngdev_table (set_mngdev p mg ms) = mngdev_table ms"
  "mngdev_class (set_mngdev p mg ms) = mngdev_class ms"
  "mngdev_index (set_mngdev p mg ms) = mngdev_index ms"
  "index_ok (set_mngdev p mg ms) = index_ok ms"
  "sig_killed (set_mngdev p mg ms) = sig_killed ms"
  "unmapped (set_mngdev p mg ms) = unmapped ms"
  by (simp_all add: set_mngdev_def mngdev_index_def index_ok_def fun_eq_iff)

lemma mngdev_at_set [simp]: "mngdev_at (set_mngdev p mg ms) p = mg"
  by (simp add: mngdev_at_def)

lemma mngdev_index_upd [simp]:
  "mngdev_index (ms\<lparr>mngdev_table := t\<rparr>) = mngdev_index ms" "mngdev_index (ms\<lparr>mngdev_class := c\<rparr>) = mngdev_index ms"
  "mngdev_index (ms\<lparr>mngdev_vs := vs\<rparr>) = mngdev_index ms"
  by (simp_all add: mngdev_index_def fun_eq_iff)

lemma mngdev_at_upd [simp]:
  "mngdev_at (ms\<lparr>mngdev_table := t\<rparr>) = mngdev_at ms" "mngdev_at (ms\<lparr>mngdev_class := c\<rparr>) = mngdev_at ms"
  "mngdev_at (ms\<lparr>sig_killed := k\<rparr>) = mngdev_at ms" "mngdev_at (ms\<lparr>unmapped := u\<rparr>) = mngdev_at ms"
  by (simp_all add: mngdev_at_def fun_eq_iff)

text \<open>The files of a device are unmapped in the order of the list of its inodes.\<close>

lemma unmap_all: "devref_forall_inodes ref unmap_inode ms = ms\<lparr>unmapped := rev (map l_inod (ref_lhd ref)) @ unmapped ms\<rparr>"
proof -
  have "fold (\<lambda>l. unmap_inode (l_inod l)) ls ms = ms\<lparr>unmapped := rev (map l_inod ls) @ unmapped ms\<rparr>" for ls
    by (induction ls arbitrary: ms) (simp_all add: unmap_inode_def)
  then show ?thesis by (simp add: devref_forall_inodes_def)
qed

text \<open>Putting a reference: the last holder ends the object, any other leaves it as it is.\<close>

lemma drvdat_put_held:
  assumes "held_by (mg_ref mg) H" and "h \<in># H"
  shows "\<exists>ref. held_by ref (H - {#h#}) \<and> \<not> ref_mtx ref \<and> ref_ptr ref = ref_ptr (mg_ref mg)
    \<and> drvdat_put hws h None mg = Some (if H - {#h#} = {#} then (True, mngdev_destroy_now hws (mg\<lparr>mg_ref := ref\<rparr>))
         else (False, mg\<lparr>mg_ref := ref\<rparr>))"
proof -
  obtain n ref where put: "devref_put (mg_ref mg) h = (n, ref)" by fastforce
  with devref_put_held [OF assms] have "held_by ref (H - {#h#})" "\<not> ref_mtx ref" "ref_ptr ref = ref_ptr (mg_ref mg)"
    "n = 0 \<longleftrightarrow> H - {#h#} = {#}" by auto
  then show ?thesis by (intro exI [of _ ref]) (simp add: drvdat_put_def put Let_def)
qed

lemma free_mngdev_True: "mngdev_objs (free_mngdev p (True, mg) ms) = (mngdev_objs ms)(p := None)"
  "mngdev_table (free_mngdev p (b, mg) ms) = mngdev_table ms"
  "sig_killed (free_mngdev p (b, mg) ms) = sig_killed ms" "unmapped (free_mngdev p (b, mg) ms) = unmapped ms"
  "mngdev_class (free_mngdev p (b, mg) ms) = (if b then remove1 (md_major (mg_des mg), md_minor (mg_des mg)) (mngdev_class ms) else mngdev_class ms)"
  "free_mngdev p (False, mg) ms = set_mngdev p mg ms"
  by (simp_all add: free_mngdev_def Let_def)

lemma destroy_now_des [simp]: "mg_des (mngdev_destroy_now hws mg) = mg_des mg"
proof -
  have step: "mg_des (list_destroy_vdev hws b p mg) = mg_des mg" for b p and mg :: "'a mngdev_data"
    by (simp add: list_destroy_vdev_def Let_def mngdev_event_dispatch_list_remove_all_def on_subscribe_change_def
        split: prod.split)
  have "mg_des (fold (list_destroy_vdev hws True) ps mg) = mg_des mg" for ps
    by (induction ps arbitrary: mg) (simp_all add: step)
  then show ?thesis by (simp add: mngdev_destroy_now_def list_stop_and_destroy_vdevs_def Let_def)
qed

lemma mngdev_destroy_run:
  assumes "mngdev_objs ms p = Some mg" and "held_by (mg_ref mg) (add_mset None H)" and "\<not> ref_mtx (mg_ref mg)"
    and "modac_vdev_table_reset (md_minor des) (mngdev_vs ms) = Some vs"
  shows "\<exists>ref. held_by ref H \<and> \<not> ref_mtx ref \<and> ref_ptr ref = None
    \<and> modac_mngdev_destroy hws des (Some p) ms = Some (free_mngdev p
         (if H = {#} then (True, mngdev_destroy_now hws (mg\<lparr>mg_sys := vs, mg_ref := ref\<rparr>)) else (False, mg\<lparr>mg_sys := vs, mg_ref := ref\<rparr>))
         (ms\<lparr>mngdev_table := (mngdev_table ms)(mngdev_index ms (md_minor des) := None), mngdev_vs := vs,
            sig_killed := (if mg_pid mg \<noteq> NO_PID then [mg_pid mg] else []) @ sig_killed ms,
            unmapped := rev (map l_inod (ref_lhd (mg_ref mg))) @ unmapped ms\<rparr>))"
proof -
  let ?ref = "devref_invalidate ((mg_ref mg)\<lparr>ref_mtx := True\<rparr>)"
  let ?mg = "mg\<lparr>mg_sys := vs, mg_ref := ?ref\<rparr>"
  have "held_by (mg_ref ?mg) (add_mset None H)" using assms(2) by simp
  from drvdat_put_held [OF this, of None hws] obtain ref where ref: "held_by ref H" "\<not> ref_mtx ref" "ref_ptr ref = None"
    and put: "drvdat_put hws None None ?mg = Some (if H = {#} then (True, mngdev_destroy_now hws (mg\<lparr>mg_sys := vs, mg_ref := ref\<rparr>))
        else (False, mg\<lparr>mg_sys := vs, mg_ref := ref\<rparr>))"
    by (auto simp: devref_invalidate_def cong: if_cong)
  have lock: "devref_lock (mg_ref mg) = Some ((mg_ref mg)\<lparr>ref_mtx := True\<rparr>)" using assms(3) by (simp add: devref_lock_def)
  have at: "mngdev_at (ms\<lparr>mngdev_table := t, mngdev_vs := vs\<rparr>) p = mg\<lparr>mg_sys := vs\<rparr>" for t
    using assms(1) by (simp add: mngdev_at_def)
  have kill: "app_kill (mg\<lparr>mg_sys := vs\<rparr>) x = x\<lparr>sig_killed := (if mg_pid mg \<noteq> NO_PID then [mg_pid mg] else []) @ sig_killed x\<rparr>" for x :: "'a mngdev_system"
    by (simp add: app_kill_def)
  have inv: "ref_lhd ?ref = ref_lhd (mg_ref mg)" by (simp add: devref_invalidate_def)
  have "modac_mngdev_destroy hws des (Some p) ms = Some (free_mngdev p
         (if H = {#} then (True, mngdev_destroy_now hws (mg\<lparr>mg_sys := vs, mg_ref := ref\<rparr>)) else (False, mg\<lparr>mg_sys := vs, mg_ref := ref\<rparr>))
         (ms\<lparr>mngdev_table := (mngdev_table ms)(mngdev_index ms (md_minor des) := None), mngdev_vs := vs,
            sig_killed := (if mg_pid mg \<noteq> NO_PID then [mg_pid mg] else []) @ sig_killed ms,
            unmapped := rev (map l_inod (ref_lhd (mg_ref mg))) @ unmapped ms\<rparr>))"
    using assms(4) put by (simp add: modac_mngdev_destroy_def Let_def at lock unmap_all kill inv)
  with ref show ?thesis by blast
qed

lemma holder_listed: "held_by ref H \<Longrightarrow> Some i \<in># H \<Longrightarrow> i \<in> l_inod ` set (ref_lhd ref)"
  using rcnt_of_pos [of "ref_lhd ref" i] by (simp add: held_by_def)

section \<open>Properties\<close>


text \<open>A creation that gets to the end of its steps, and one that the resource manager fails.\<close>

lemma mngdev_create_cases:
  assumes "modac_mngdev_create hws env des priv ms = Some (r, priv1, hw, ms1)"
  shows "ret_int r \<noteq> 0 \<and> ms1 = ms \<or> (\<exists>p rm defs. r = Inr 0 \<and> priv1 = Some p \<and> ce_kmalloc env = Some p
    \<and> index_ok ms (mngdev_index ms (md_minor des)) \<and> mngdev_table ms (mngdev_index ms (md_minor des)) = None
    \<and> modac_rm_init (ce_rm_kmalloc env) defs = Inr rm
    \<and> ms1 = set_mngdev p (mngdev_init_dev des hw rm (mngdev_vs ms))
        (ms\<lparr>mngdev_class := (md_major des, md_minor des) # mngdev_class ms,
           mngdev_table := (mngdev_table ms)(mngdev_index ms (md_minor des) := Some p)\<rparr>))"
  using assms errno_code_pos [THEN less_imp_neq, THEN not_sym]
  by (auto simp: modac_mngdev_create_def enter_mngdev_def Let_def mngdev_init_dev_def split: if_splits option.splits prod.splits sum.splits)

lemma mngdev_create_rm_fails:
  assumes "index_ok ms (mngdev_index ms (md_minor des))" and "ce_kmalloc env = Some p"
    and "hw_init hws (ce_hw_kmalloc env) (ce_hw env) = (Inr 0, defs, hw)" and "modac_rm_init (ce_rm_kmalloc env) defs = Inl e"
  shows "modac_mngdev_create hws env des priv ms = None"
  using assms by (simp add: modac_mngdev_create_def Let_def)

lemma destroy_now_empty: "mg_vdev_list mg = [] \<Longrightarrow> mngdev_destroy_now hws mg = mg\<lparr>mg_hw := hw_end hws (mg_hw mg)\<rparr>"
  by (simp add: mngdev_destroy_now_def list_stop_and_destroy_vdevs_def)


lemma mngdev_open_run:
  assumes "minor smod MINOR_MULTIPLICATOR = 0" and "index_ok ms (mngdev_index ms minor)" and "mngdev_table ms (mngdev_index ms minor) = Some p"
    and "mngdev_objs ms p = Some mg" and "held_by (mg_ref mg) H" and "ref_ptr (mg_ref mg) \<noteq> None" and "\<not> ref_mtx (mg_ref mg)"
  shows "\<exists>ref. held_by ref (add_mset (Some i) H) \<and> \<not> ref_mtx ref \<and> ref_ptr ref \<noteq> None
    \<and> mngdev_open minor i True pid ms = Some (if mg_pid mg \<noteq> NO_PID then Inl EBUSY else Inr 0, Some p,
        set_mngdev p (mg\<lparr>mg_sys := mngdev_vs ms, mg_pid := (if mg_pid mg \<noteq> NO_PID then mg_pid mg else pid), mg_ref := ref\<rparr>) ms)"
proof -
  obtain v ref1 where get: "devref_get (mg_ref mg) (Some i) True = Some (Inr v, ref1)"
    using assms(6,7) by (cases "inod_inc i (ref_lhd (mg_ref mg))") (auto simp: devref_get_def devref_lock_def Let_def)
  note held = devref_get_held [OF assms(5) get]
  then have lock: "devref_lock (devref_unlock ref1) = Some ref1" by (intro devref_relock) simp
  have "mngdev_open minor i True pid ms = Some (if mg_pid mg \<noteq> NO_PID then Inl EBUSY else Inr 0, Some p,
        set_mngdev p (mg\<lparr>mg_sys := mngdev_vs ms, mg_pid := (if mg_pid mg \<noteq> NO_PID then mg_pid mg else pid), mg_ref := devref_unlock ref1\<rparr>) ms)"
    using assms(1-4) get by (simp add: mngdev_open_def Let_def mngdev_at_def modac_mng_check_on_open_def lock mngdev_devref_unlock_def)
  then show ?thesis using held assms(6) by (intro exI [of _ "devref_unlock ref1"]) (simp add: devref_unlock_def)
qed

text \<open>
  Only one process at a time has a MNG_DEV open: while it does, another one is refused with \<open>EBUSY\<close> and the first keeps it. But
  the refused file has taken a reference that no closing gives back: when afterwards the process closes its file and the MNG_DEV is
  destroyed, the object is still there, and its hardware is never ended.
\<close>
theorem mngdev_open_exclusive:
  assumes "minor smod MINOR_MULTIPLICATOR = 0" and "index_ok ms (mngdev_index ms minor)" and "mngdev_table ms (mngdev_index ms minor) = Some p"
    and "mngdev_objs ms p = Some mg" and "held_by (mg_ref mg) {#None, Some j#}" and "ref_ptr (mg_ref mg) \<noteq> None" and "\<not> ref_mtx (mg_ref mg)"
    and "mg_pid mg \<noteq> NO_PID" and "modac_vdev_table_reset (md_minor des) (mngdev_vs ms) = Some vs"
  shows "\<exists>ms1. mngdev_open minor i True pid ms = Some (Inl EBUSY, Some p, ms1) \<and> mg_pid (mngdev_at ms1 p) = mg_pid mg
    \<and> held_by (mg_ref (mngdev_at ms1 p)) {#None, Some j, Some i#}
    \<and> (\<exists>ms2 ms3 mg3. mngdev_release hws p j ms1 = Some ms2 \<and> modac_mngdev_destroy hws des (Some p) ms2 = Some ms3
         \<and> mngdev_objs ms3 p = Some mg3 \<and> held_by (mg_ref mg3) {#Some i#} \<and> mg_hw mg3 = mg_hw mg)"
proof -
  from mngdev_open_run [OF assms(1-7), of i pid] assms(8) obtain ref where
    ref: "held_by ref {#None, Some j, Some i#}" "\<not> ref_mtx ref" "ref_ptr ref \<noteq> None"
    and run: "mngdev_open minor i True pid ms = Some (Inl EBUSY, Some p, set_mngdev p (mg\<lparr>mg_sys := mngdev_vs ms, mg_pid := mg_pid mg, mg_ref := ref\<rparr>) ms)"
    by (auto simp: add_mset_commute)
  let ?mg1 = "mg\<lparr>mg_sys := mngdev_vs ms, mg_pid := mg_pid mg, mg_ref := ref\<rparr>"
  let ?ms1 = "set_mngdev p ?mg1 ms"
  let ?mg2 = "?mg1\<lparr>mg_ref := ref\<lparr>ref_mtx := True\<rparr>, mg_pid := NO_PID\<rparr>"
  have lock: "devref_lock ref = Some (ref\<lparr>ref_mtx := True\<rparr>)" using ref(2) by (simp add: devref_lock_def)
  have "held_by (mg_ref ?mg2) {#None, Some j, Some i#}" "Some j \<in># {#None, Some j, Some i#}" using ref(1) by simp_all
  from drvdat_put_held [OF this, of hws] obtain ref2 where ref2: "held_by ref2 {#None, Some i#}" "\<not> ref_mtx ref2"
    and put: "drvdat_put hws (Some j) None ?mg2 = Some (False, ?mg2\<lparr>mg_ref := ref2\<rparr>)" by auto
  let ?ms2 = "set_mngdev p (?mg2\<lparr>mg_ref := ref2\<rparr>) ?ms1"
  have rel: "mngdev_release hws p j ?ms1 = Some ?ms2"
    using put by (simp add: mngdev_release_def lock Let_def free_mngdev_True)
  have obj: "mngdev_objs ?ms2 p = Some (?mg2\<lparr>mg_ref := ref2\<rparr>)" "held_by (mg_ref (?mg2\<lparr>mg_ref := ref2\<rparr>)) (add_mset None {#Some i#})"
    "\<not> ref_mtx (mg_ref (?mg2\<lparr>mg_ref := ref2\<rparr>))" "modac_vdev_table_reset (md_minor des) (mngdev_vs ?ms2) = Some vs"
    using ref2 assms(9) by simp_all
  from mngdev_destroy_run [OF obj, of hws] obtain ref3 ms3 where "held_by ref3 {#Some i#}"
    "modac_mngdev_destroy hws des (Some p) ?ms2 = Some ms3" "mngdev_objs ms3 p = Some (?mg2\<lparr>mg_sys := vs, mg_ref := ref3\<rparr>)"
    by (auto simp: free_mngdev_True)
  with run rel ref(1) show ?thesis
    by (intro exI [of _ ?ms1]) auto
qed

text \<open>Eight slots; the first holds a MNG_DEV that the process 42 has open through the inode 7.\<close>

definition mg_open_ex :: "unit mngdev_data" where
  "mg_open_ex = mg_ex\<lparr>mg_pid := 42, mg_ref := \<lparr>ref_ptr = Some (), ref_cnt = 2, ref_mtx = False, ref_lhd = [\<lparr>l_inod = 7, l_rcnt = 1\<rparr>]\<rparr>\<rparr>"

definition ms_empty :: "unit mngdev_system" where
  "ms_empty = \<lparr>mngdev_first_minor = 0, mngdev_table_size = 8, mngdev_table = (\<lambda>_. None), mngdev_objs = Map.empty,
     mngdev_vs = vs_ex, mngdev_class = [], sig_killed = [], unmapped = []\<rparr>"

definition ms_ex :: "unit mngdev_system" where
  "ms_ex = ms_empty\<lparr>mngdev_table := (\<lambda>_. None)(0 := Some 50), mngdev_objs := [50 \<mapsto> mg_open_ex], mngdev_class := [(240, 0)]\<rparr>"

lemma ms_ex_reset: "\<exists>vs. modac_vdev_table_reset (md_minor mdes_ex) (mngdev_vs ms_ex) = Some vs"
  "\<exists>vs. modac_vdev_table_reset (md_minor mdes_ex) (mngdev_vs ms_empty) = Some vs"
  by (simp_all add: modac_vdev_table_reset_def ms_ex_def ms_empty_def vs_ex_def mdes_ex_def Let_def signed_divide_int_def)

lemma ms_ex_facts: "mngdev_objs ms_ex 50 = Some mg_open_ex" "held_by (mg_ref mg_open_ex) {#None, Some 7#}"
  "ref_ptr (mg_ref mg_open_ex) \<noteq> None" "\<not> ref_mtx (mg_ref mg_open_ex)" "mg_pid mg_open_ex = 42"
  "mngdev_index ms_ex 0 = 0" "index_ok ms_ex 0" "mngdev_table ms_ex 0 = Some 50"
  by (auto simp: ms_ex_def ms_empty_def mg_open_ex_def held_by_def inods_ok_def mngdev_index_def index_ok_def signed_divide_int_def)


lemma mngdev_open_exclusive_witness:
  "\<exists>ms1. mngdev_open 0 8 True 43 ms_ex = Some (Inl EBUSY, Some 50, ms1) \<and> mg_pid (mngdev_at ms1 50) = 42"
proof -
  obtain vs where vs: "modac_vdev_table_reset (md_minor mdes_ex) (mngdev_vs ms_ex) = Some vs" using ms_ex_reset by blast
  have min: "(0::int) smod MINOR_MULTIPLICATOR = 0" "index_ok ms_ex (mngdev_index ms_ex 0)" "mngdev_table ms_ex (mngdev_index ms_ex 0) = Some 50"
    "mg_pid mg_open_ex \<noteq> NO_PID" by (simp_all add: ms_ex_facts)
  from mngdev_open_exclusive [OF min(1-3) ms_ex_facts(1-4) min(4) vs, of 8 43 hws_ex] show ?thesis by (auto simp: ms_ex_facts(5))
qed

text \<open>A MNG_DEV that is created in the first slot.\<close>

definition create_env_ex :: "unit create_env" where
  "create_env_ex = \<lparr>ce_kmalloc = Some 50, ce_hw_kmalloc = (\<lambda>_. True), ce_rm_kmalloc = (\<lambda>_. True), ce_device_create = None, ce_hw = ()\<rparr>"


end
