(* ===== verification/Drv_Start.thy ===== *)
theory Drv_Start
  imports Modac_Prelude "HOL-Library.Multiset" "HOL-Library.Signed_Division"
begin

text \<open>
  Loading and unloading the module (src/src/main_evrma.c, with the starts and ends of mng-dev.c and
  virt-dev.c): which of the kernel's objects are obtained and given back, and in which order. The kernel's calls that can
  fail get their results as arguments.
\<close>

section \<open>What is obtained and given back\<close>

datatype sys_part = Mng | Virt

datatype sys_res = R_class sys_part | R_table sys_part | R_cdev sys_part nat | R_region | R_test_dev | R_pci

datatype sys_op = Get sys_res | Put sys_res

text \<open>What is held after the operations; giving back what is not held is an error.\<close>

fun held_after :: "sys_res multiset \<Rightarrow> sys_op list \<Rightarrow> sys_res multiset option" where
  "held_after H [] = Some H"
| "held_after H (Get r # ops) = held_after (add_mset r H) ops"
| "held_after H (Put r # ops) = (if r \<in># H then held_after (H - {#r#}) ops else None)"

text \<open>The results of \<open>class_create\<close>, \<open>kzalloc\<close> and of \<open>cdev_add\<close> for each slot.\<close>

record init_env =
  ie_class_create :: "errno option"
  ie_kzalloc :: bool
  ie_cdev_add :: "nat \<Rightarrow> errno option"

abbreviation (input) MINOR_MULTIPLICATOR :: int where "MINOR_MULTIPLICATOR \<equiv> 32"

section \<open>The device classes and tables\<close>

text \<open>The levels below \<open>CLEAN_SYS_VDEV\<close>; \<open>have_cdev\<close> is the table's member.\<close>

datatype clean_sys = CLEAN_SYS_CLASS | CLEAN_SYS_TABLE | CLEAN_SYS_CDEV

primrec cleanup_sys :: "sys_part \<Rightarrow> bool list \<Rightarrow> clean_sys \<Rightarrow> sys_op list" where
  "cleanup_sys p have_cdev CLEAN_SYS_CLASS = [Put (R_class p)]"
| "cleanup_sys p have_cdev CLEAN_SYS_TABLE = [Put (R_table p), Put (R_class p)]"
| "cleanup_sys p have_cdev CLEAN_SYS_CDEV =
     map (\<lambda>i. Put (R_cdev p i)) (filter (\<lambda>i. have_cdev ! i) [0..<length have_cdev]) @ [Put (R_table p), Put (R_class p)]"

text \<open>The loop over the slots, which cleans up when one of them fails.\<close>

fun add_cdevs :: "sys_part \<Rightarrow> (nat \<Rightarrow> errno option) \<Rightarrow> nat \<Rightarrow> nat \<Rightarrow> int res \<times> bool list \<times> sys_op list" where
  "add_cdevs p cdev_add i 0 = (Inr 0, [], [])"
| "add_cdevs p cdev_add i (Suc k) = (case cdev_add i of
     Some e \<Rightarrow> (Inl e, replicate (Suc k) False, cleanup_sys p [] CLEAN_SYS_TABLE)
   | None \<Rightarrow> (case add_cdevs p cdev_add (Suc i) k of
        (ret, have_cdev, ops) \<Rightarrow> (ret, True # have_cdev, Get (R_cdev p i) # ops)))"

definition modac_vdev_init :: "init_env \<Rightarrow> int \<Rightarrow> int res \<times> bool list \<times> sys_op list" where
  "modac_vdev_init env n = (case ie_class_create env of
     Some e \<Rightarrow> (Inl e, [], [])
   | None \<Rightarrow>
       if \<not> ie_kzalloc env then (Inl ENOMEM, [], Get (R_class Virt) # cleanup_sys Virt [] CLEAN_SYS_CLASS)
       else case add_cdevs Virt (ie_cdev_add env) 0 (nat (n sdiv MINOR_MULTIPLICATOR)) of
         (ret, have_cdev, ops) \<Rightarrow>
           let ops = Get (R_class Virt) # Get (R_table Virt) # ops in
           (case ret of
              Inl e \<Rightarrow> (Inl e, have_cdev, ops @ cleanup_sys Virt have_cdev CLEAN_SYS_CDEV)
            | Inr _ \<Rightarrow> (Inr 0, have_cdev, ops)))"

definition modac_vdev_fini :: "bool list \<Rightarrow> sys_op list" where
  "modac_vdev_fini have_cdev = cleanup_sys Virt have_cdev CLEAN_SYS_CDEV"

text \<open>The second result are the tables of the MNG_DEVs and of the VIRT_DEVs.\<close>

definition modac_mngdev_init :: "init_env \<Rightarrow> init_env \<Rightarrow> int \<Rightarrow> int \<Rightarrow> int res \<times> (bool list \<times> bool list) \<times> sys_op list" where
  "modac_mngdev_init env venv first_minor n =
     (if first_minor smod MINOR_MULTIPLICATOR \<noteq> 0 then (Inl EINVAL, ([], []), [])
      else if n smod MINOR_MULTIPLICATOR \<noteq> 0 then (Inl EINVAL, ([], []), [])
      else case ie_class_create env of
        Some e \<Rightarrow> (Inl e, ([], []), [])
      | None \<Rightarrow>
          if \<not> ie_kzalloc env then (Inl ENOMEM, ([], []), Get (R_class Mng) # cleanup_sys Mng [] CLEAN_SYS_CLASS)
          else case add_cdevs Mng (ie_cdev_add env) 0 (nat (n sdiv MINOR_MULTIPLICATOR)) of
            (ret, have_cdev, ops) \<Rightarrow>
              let ops = Get (R_class Mng) # Get (R_table Mng) # ops in
              (case ret of
                 Inl e \<Rightarrow> (Inl e, (have_cdev, []), ops @ cleanup_sys Mng have_cdev CLEAN_SYS_CDEV)
               | Inr _ \<Rightarrow> (case modac_vdev_init venv n of
                   (Inl e, have_vdev, vops) \<Rightarrow> (Inl e, (have_cdev, have_vdev), ops @ vops @ cleanup_sys Mng have_cdev CLEAN_SYS_CDEV)
                 | (Inr _, have_vdev, vops) \<Rightarrow> (Inr 0, (have_cdev, have_vdev), ops @ vops))))"

definition modac_mngdev_fini :: "bool list \<times> bool list \<Rightarrow> sys_op list" where
  "modac_mngdev_fini t = modac_vdev_fini (snd t) @ cleanup_sys Mng (fst t) CLEAN_SYS_CDEV"

section \<open>The module\<close>

abbreviation (input) NUM_MINORS :: int where "NUM_MINORS \<equiv> 256"

text \<open>\<open>me_create\<close> is whether the simulated MNG_DEV could be created.\<close>

record module_env =
  me_alloc_region :: "errno option"
  me_mng :: init_env
  me_virt :: init_env
  me_create :: bool
  me_pci_register :: "errno option"

definition evrma_pci_init :: "errno option \<Rightarrow> int res \<times> sys_op list" where
  "evrma_pci_init pci_register = (case pci_register of Some e \<Rightarrow> (Inl e, []) | None \<Rightarrow> (Inr 0, [Get R_pci]))"

definition evrma_pci_fini :: "sys_op list" where
  "evrma_pci_fini = [Put R_pci]"

text \<open>The region starts at the minor number 0. The results of the last two steps are not looked at.\<close>

definition evrma_init :: "module_env \<Rightarrow> int res \<times> (bool list \<times> bool list) \<times> sys_op list" where
  "evrma_init env = (case me_alloc_region env of
     Some e \<Rightarrow> (Inl e, ([], []), [])
   | None \<Rightarrow> (case modac_mngdev_init (me_mng env) (me_virt env) 0 NUM_MINORS of
       (Inl e, t, ops) \<Rightarrow> (Inl e, t, Get R_region # ops)
     | (Inr _, t, ops) \<Rightarrow> (Inr 0, t, Get R_region # ops @ (if me_create env then [Get R_test_dev] else [])
         @ snd (evrma_pci_init (me_pci_register env)))))"

definition evrma_fini :: "bool list \<times> bool list \<Rightarrow> sys_op list" where
  "evrma_fini t = evrma_pci_fini @ [Put R_test_dev] @ modac_mngdev_fini t @ [Put R_region]"

section \<open>Lemmas\<close>

lemma held_after_append: "held_after H (xs @ ys) = Option.bind (held_after H xs) (\<lambda>H. held_after H ys)"
  by (induction H xs rule: held_after.induct) simp_all

lemma held_after_gets: "held_after H (map (\<lambda>i. Get (g i)) xs) = Some (H + mset (map g xs))"
  by (induction xs arbitrary: H) simp_all

lemma held_after_puts: "held_after (H + mset (map g xs)) (map (\<lambda>i. Put (g i)) xs) = Some H"
  by (induction xs arbitrary: H) simp_all

lemma add_cdevs_ok:
  "\<forall>j<k. f (i + j) = None \<Longrightarrow> add_cdevs p f i k = (Inr 0, replicate k True, map (\<lambda>j. Get (R_cdev p j)) [i..<i + k])"
proof (induction k arbitrary: i)
  case (Suc k)
  then have "f i = None" by (metis add_0_right zero_less_Suc)
  moreover have "\<forall>j<k. f (Suc i + j) = None" using Suc.prems by auto
  moreover have "[i..<i + Suc k] = i # [Suc i..<Suc i + k]" using upt_rec [of i "i + Suc k"] by simp
  ultimately show ?case using Suc.IH [of "Suc i"] by simp
qed simp

lemma add_cdevs_fail:
  "j < k \<Longrightarrow> f (i + j) = Some e \<Longrightarrow> \<forall>l<j. f (i + l) = None \<Longrightarrow>
   add_cdevs p f i k = (Inl e, replicate j True @ replicate (k - j) False,
     map (\<lambda>l. Get (R_cdev p l)) [i..<i + j] @ [Put (R_table p), Put (R_class p)])"
proof (induction k arbitrary: i j)
  case (Suc k)
  show ?case
  proof (cases j)
    case 0
    with Suc.prems show ?thesis by simp
  next
    case (Suc j')
    have "f i = None" using Suc.prems(3) Suc by (metis add_0_right zero_less_Suc)
    moreover have "\<forall>l<j'. f (Suc i + l) = None" using Suc.prems(3) Suc by auto
    moreover have "[i..<i + Suc j'] = i # [Suc i..<Suc i + j']" using upt_rec [of i "i + Suc j'"] by simp
    ultimately show ?thesis using Suc.IH [of j' "Suc i"] Suc Suc.prems(1,2) by simp
  qed
qed simp

lemma cleanup_all: "cleanup_sys p (replicate n True) CLEAN_SYS_CDEV = map (\<lambda>i. Put (R_cdev p i)) [0..<n] @ [Put (R_table p), Put (R_class p)]"
proof -
  have "filter (\<lambda>i. replicate n True ! i) [0..<n] = [0..<n]" by (simp add: filter_id_conv)
  then show ?thesis by simp
qed

text \<open>What one part holds when all its slots are there, and that its end gives it back.\<close>

definition part_held :: "sys_part \<Rightarrow> nat \<Rightarrow> sys_res multiset" where
  "part_held p n = {#R_class p, R_table p#} + mset (map (R_cdev p) [0..<n])"

lemma part_obtained: "held_after H (Get (R_class p) # Get (R_table p) # map (\<lambda>i. Get (R_cdev p i)) [0..<n]) = Some (H + part_held p n)"
  by (simp add: held_after_gets part_held_def)

lemma part_given_back: "held_after (H + part_held p n) (cleanup_sys p (replicate n True) CLEAN_SYS_CDEV) = Some H"
proof -
  have "H + part_held p n = (H + {#R_class p, R_table p#}) + mset (map (R_cdev p) [0..<n])" by (simp add: part_held_def)
  then show ?thesis unfolding cleanup_all held_after_append by (simp only: held_after_puts) simp
qed

definition cdevs_ok :: "init_env \<Rightarrow> nat \<Rightarrow> bool" where
  "cdevs_ok env n \<longleftrightarrow> (\<forall>i<n. ie_cdev_add env i = None)"

lemma vdev_init_cases:
  assumes "cdevs_ok env (nat (n sdiv MINOR_MULTIPLICATOR))" and "modac_vdev_init env n = (r, t, ops)"
  shows "r = Inr 0 \<and> t = replicate (nat (n sdiv MINOR_MULTIPLICATOR)) True \<and> held_after H ops = Some (H + part_held Virt (nat (n sdiv MINOR_MULTIPLICATOR)))
    \<or> (\<exists>e. r = Inl e) \<and> held_after H ops = Some H"
proof -
  have ok: "add_cdevs Virt (ie_cdev_add env) 0 k = (Inr 0, replicate k True, map (\<lambda>j. Get (R_cdev Virt j)) [0..<k])"
    if "k = nat (n sdiv MINOR_MULTIPLICATOR)" for k using add_cdevs_ok [of k _ 0] assms(1) that by (simp add: cdevs_ok_def)
  show ?thesis
  proof (cases "ie_class_create env = None \<and> ie_kzalloc env")
    case True
    with assms(2) ok [OF refl] have "r = Inr 0" "t = replicate (nat (n sdiv MINOR_MULTIPLICATOR)) True"
      "ops = Get (R_class Virt) # Get (R_table Virt) # map (\<lambda>i. Get (R_cdev Virt i)) [0..<nat (n sdiv MINOR_MULTIPLICATOR)]"
      by (auto simp: modac_vdev_init_def)
    then show ?thesis by (simp only: part_obtained) simp
  next
    case False
    with assms(2) show ?thesis by (cases "ie_class_create env") (auto simp: modac_vdev_init_def)
  qed
qed

lemma mngdev_init_cases:
  assumes "cdevs_ok env (nat (n sdiv MINOR_MULTIPLICATOR))" and "cdevs_ok venv (nat (n sdiv MINOR_MULTIPLICATOR))"
    and "modac_mngdev_init env venv first_minor n = (r, t, ops)"
  shows "r = Inr 0 \<and> (\<exists>M. held_after H ops = Some (H + M) \<and> (\<forall>H. held_after (H + M) (modac_mngdev_fini t) = Some H)
        \<and> R_test_dev \<notin># M \<and> R_pci \<notin># M)
    \<or> (\<exists>e. r = Inl e) \<and> held_after H ops = Some H"
proof -
  let ?k = "nat (n sdiv MINOR_MULTIPLICATOR)"
  let ?mops = "Get (R_class Mng) # Get (R_table Mng) # map (\<lambda>i. Get (R_cdev Mng i)) [0..<?k]"
  let ?start = "first_minor smod MINOR_MULTIPLICATOR = 0 \<and> n smod MINOR_MULTIPLICATOR = 0 \<and> ie_class_create env = None \<and> ie_kzalloc env"
  have ok: "add_cdevs Mng (ie_cdev_add env) 0 k = (Inr 0, replicate k True, map (\<lambda>j. Get (R_cdev Mng j)) [0..<k])" if "k = ?k" for k
    using add_cdevs_ok [of k _ 0] assms(1) that by (simp add: cdevs_ok_def)
  obtain vr vt vops where v: "modac_vdev_init venv n = (vr, vt, vops)" by (rule prod_cases3)
  note vc = vdev_init_cases [OF assms(2) v]
  consider "?start" "vr = Inr 0" | e where "?start" "vr = Inl e" | "\<not> ?start" using vc [of H] by blast
  then show ?thesis
  proof cases
    case 1
    then have run: "r = Inr 0" "t = (replicate ?k True, vt)" "ops = ?mops @ vops" using assms(3) v ok [OF refl] by (auto simp: modac_mngdev_init_def)
    let ?M = "part_held Mng ?k + part_held Virt ?k"
    have vt: "vt = replicate ?k True" and vh: "held_after H vops = Some (H + part_held Virt ?k)" for H using vc 1(2) by auto
    have "held_after H ops = Some (H + ?M)"
      unfolding run(3) held_after_append part_obtained by (simp add: vh add.assoc)
    moreover have "held_after (H + ?M) (modac_mngdev_fini t) = Some H" for H
      using part_given_back [of "H + part_held Mng ?k" Virt ?k] part_given_back [of H Mng ?k]
      unfolding modac_mngdev_fini_def modac_vdev_fini_def run(2) vt held_after_append by (simp only: add.assoc fst_conv snd_conv Option.bind.bind_lunit)
    moreover have "R_test_dev \<notin># ?M" "R_pci \<notin># ?M" by (auto simp: part_held_def)
    ultimately show ?thesis using run(1) by blast
  next
    case (2 e)
    then have run: "r = Inl e" "ops = ?mops @ vops @ cleanup_sys Mng (replicate ?k True) CLEAN_SYS_CDEV"
      using assms(3) v ok [OF refl] by (auto simp: modac_mngdev_init_def simp del: cleanup_sys.simps)
    have "held_after H vops = Some H" for H using vc [of H] 2(2) by auto
    then have "held_after H ops = Some H"
      unfolding run(2) held_after_append part_obtained by (simp add: part_given_back del: cleanup_sys.simps)
    with run(1) show ?thesis by blast
  next
    case 3
    then show ?thesis using assms(3)
      by (cases "ie_class_create env") (auto simp: modac_mngdev_init_def split: if_splits)
  qed
qed

section \<open>Properties\<close>


definition init_env_ok :: init_env where
  "init_env_ok = \<lparr>ie_class_create = None, ie_kzalloc = True, ie_cdev_add = (\<lambda>_. None)\<rparr>"

definition module_env_ex :: module_env where
  "module_env_ex = \<lparr>me_alloc_region = None, me_mng = init_env_ok, me_virt = init_env_ok, me_create = True, me_pci_register = None\<rparr>"


text \<open>
  When a slot's \<open>cdev_add\<close> fails, the code gives the table and the class back twice: once in the loop and once after it, where
  it also reads the table that it has freed.
\<close>
theorem vdev_init_double_free:
  assumes "ie_class_create env = None" and "ie_kzalloc env" and "j < nat (n sdiv MINOR_MULTIPLICATOR)"
    and "ie_cdev_add env j = Some e" and "\<forall>i<j. ie_cdev_add env i = None"
  shows "\<exists>t ops. modac_vdev_init env n = (Inl e, t, ops) \<and> held_after {#} ops = None
    \<and> filter (\<lambda>x. x = Put (R_table Virt)) ops = [Put (R_table Virt), Put (R_table Virt)]
    \<and> filter (\<lambda>x. x = Put (R_class Virt)) ops = [Put (R_class Virt), Put (R_class Virt)]"
proof -
  let ?k = "nat (n sdiv MINOR_MULTIPLICATOR)"
  let ?have = "replicate j True @ replicate (?k - j) False"
  let ?gets = "map (\<lambda>i. Get (R_cdev Virt i)) [0..<j]"
  let ?puts = "map (\<lambda>i. Put (R_cdev Virt i)) (filter (\<lambda>i. ?have ! i) [0..<length ?have])"
  let ?ops = "Get (R_class Virt) # Get (R_table Virt) # (?gets @ [Put (R_table Virt), Put (R_class Virt)])
    @ ?puts @ [Put (R_table Virt), Put (R_class Virt)]"
  have "add_cdevs Virt (ie_cdev_add env) 0 ?k = (Inl e, ?have, ?gets @ [Put (R_table Virt), Put (R_class Virt)])"
    using add_cdevs_fail [of j ?k "ie_cdev_add env" 0 e Virt] assms(3-5) by simp
  then have run: "modac_vdev_init env n = (Inl e, ?have, ?ops)"
    using assms(1,2) by (simp add: modac_vdev_init_def)
  have none: "held_after H (map (\<lambda>i. Put (R_cdev Virt i)) xs @ [Put (R_table Virt), Put (R_class Virt)]) = None"
    if "R_table Virt \<notin># H" for H xs
    using that by (induction xs arbitrary: H) (auto dest: in_diffD)
  have "held_after {#} (Get (R_class Virt) # Get (R_table Virt) # (?gets @ [Put (R_table Virt), Put (R_class Virt)])) = Some (mset (map (R_cdev Virt) [0..<j]))"
    by (simp add: held_after_append held_after_gets)
  moreover have "R_table Virt \<notin># mset (map (R_cdev Virt) [0..<j])" by auto
  ultimately have "held_after {#} ?ops = None"
    unfolding append_Cons [symmetric] held_after_append [of _ _ "?puts @ _"] by (simp only: Option.bind.bind_lunit) (rule none)
  moreover have "filter (\<lambda>x. x = Put r) (map (\<lambda>i. Get (g i)) xs) = []" "filter (\<lambda>x. x = Put (R_table Virt)) (map (\<lambda>i. Put (R_cdev Virt i)) xs) = []"
    "filter (\<lambda>x. x = Put (R_class Virt)) (map (\<lambda>i. Put (R_cdev Virt i)) xs) = []" for r g and xs :: "nat list"
    by (induction xs) simp_all
  ultimately show ?thesis using run by simp
qed

lemma vdev_init_double_free_witness:
  "\<exists>t ops. modac_vdev_init (init_env_ok\<lparr>ie_cdev_add := (\<lambda>i. if i = 3 then Some ENOMEM else None)\<rparr>) 256 = (Inl ENOMEM, t, ops)
     \<and> held_after {#} ops = None"
  using vdev_init_double_free [of "init_env_ok\<lparr>ie_cdev_add := (\<lambda>i. if i = 3 then Some ENOMEM else None)\<rparr>" 3 256 ENOMEM]
  by (auto simp: init_env_ok_def signed_divide_int_def)

end
