(* ===== verification/Text_Out.thy ===== *)
theory Text_Out
  imports Evr_Regs
begin

text \<open>
  Text for the files of sysfs: the kernel's \<open>scnprintf\<close> into a buffer of a given size, and the conversions of numbers that the
  code uses. The code prints with \<open>n += scnprintf(buf + n, count - n, ...)\<close>; here the state has the text printed so far beside what
  the computation reads and writes.
\<close>

section \<open>Digits\<close>

definition digit :: "nat \<Rightarrow> char" where
  "digit n = char_of (n + 48)"

fun dec_digits :: "nat \<Rightarrow> string" where
  "dec_digits n = (if n < 10 then [digit n] else dec_digits (n div 10) @ [digit (n mod 10)])"

declare dec_digits.simps [simp del]

text \<open>\<open>first_letter\<close> is the letter for 10: A or a.\<close>

definition hex_digit :: "nat \<Rightarrow> nat \<Rightarrow> char" where
  "hex_digit first_letter n = (if n < 10 then digit n else char_of (first_letter + (n - 10)))"

fun hex_digits :: "nat \<Rightarrow> nat \<Rightarrow> string" where
  "hex_digits first_letter n =
     (if n < 16 then [hex_digit first_letter n] else hex_digits first_letter (n div 16) @ [hex_digit first_letter (n mod 16)])"

declare hex_digits.simps [simp del]

definition pad0 :: "nat \<Rightarrow> string \<Rightarrow> string" where
  "pad0 w s = replicate (w - length s) (digit 0) @ s"

definition fmt_d :: "int \<Rightarrow> string" where
  "fmt_d i = (if i < 0 then CHR ''-'' # dec_digits (nat (- i)) else dec_digits (nat i))"

definition fmt_x :: "u32 \<Rightarrow> string" where
  "fmt_x w = hex_digits 97 (unat w)"

definition fmt_X :: "u32 \<Rightarrow> string" where
  "fmt_X w = hex_digits 65 (unat w)"

text \<open>A word that is printed with \<open>%d\<close>.\<close>

definition fmt_sd :: "u32 \<Rightarrow> string" where
  "fmt_sd w = fmt_d (sint w)"

definition text_of :: "u8 list \<Rightarrow> string" where
  "text_of bs = map (\<lambda>b. char_of (unat b)) (cstr bs)"

section \<open>Printing\<close>

type_synonym ('s, 'a) printer = "('s \<times> string, 'a) state"

text \<open>A buffer of \<open>cnt\<close> bytes takes one character less, and the terminating NUL, which is not kept here.\<close>

definition scnprintf :: "nat \<Rightarrow> string \<Rightarrow> ('s, unit) printer" where
  "scnprintf cnt t = State (\<lambda>(s, b). ((), s, b @ take (cnt - 1 - length b) t))"

text \<open>A computation that prints nothing.\<close>

definition quietly :: "('s, 'a) state \<Rightarrow> ('s, 'a) printer" where
  "quietly f = State (\<lambda>(s, b). case run_state f s of (x, s1) \<Rightarrow> (x, s1, b))"

text \<open>The text that is printed into an empty buffer.\<close>

definition printed :: "('s, 'a) printer \<Rightarrow> 's \<Rightarrow> string \<times> 's" where
  "printed f s = (case run_state f (s, []) of (_, s1, b) \<Rightarrow> (b, s1))"

section \<open>Truncation\<close>

text \<open>
  A print function never fills more than its buffer, and in a smaller buffer it prints the beginning of what it prints in a larger
  one and does otherwise the same.
\<close>

definition truncates :: "(nat \<Rightarrow> ('s, 'a) printer) \<Rightarrow> bool" where
  "truncates f \<longleftrightarrow> (\<forall>cnt cnt' s b. cnt \<le> cnt' \<longrightarrow>
     (case run_state (f cnt') (s, b) of (x, s1, b1) \<Rightarrow>
        run_state (f cnt) (s, take (cnt - 1) b) = (x, s1, take (cnt - 1) b1)
        \<and> (length b \<le> cnt' - 1 \<longrightarrow> length b1 \<le> cnt' - 1)))"

named_theorems truncates_intros \<open>print functions that only truncate\<close>

lemma truncates_scnprintf [truncates_intros]: "truncates (\<lambda>cnt. scnprintf cnt t)"
  by (auto simp: truncates_def scnprintf_def min_def take_append)

lemma truncates_quietly [truncates_intros]: "truncates (\<lambda>cnt. quietly f)"
  by (simp add: truncates_def quietly_def split: prod.split)

lemma truncates_return [truncates_intros]: "truncates (\<lambda>cnt. State_Monad.return x)"
  by (simp add: truncates_def)

lemma truncatesD:
  assumes "truncates f" and "cnt \<le> cnt'" and "run_state (f cnt') (s, b) = (x, s1, b1)"
  shows "run_state (f cnt) (s, take (cnt - 1) b) = (x, s1, take (cnt - 1) b1)" "length b \<le> cnt' - 1 \<Longrightarrow> length b1 \<le> cnt' - 1"
  using assms(1) [unfolded truncates_def, rule_format, OF assms(2), of s b] assms(3) by simp_all

lemma truncatesI:
  assumes "\<And>cnt cnt' s b x s1 b1. cnt \<le> cnt' \<Longrightarrow> run_state (f cnt') (s, b) = (x, s1, b1) \<Longrightarrow>
    run_state (f cnt) (s, take (cnt - 1) b) = (x, s1, take (cnt - 1) b1) \<and> (length b \<le> cnt' - 1 \<longrightarrow> length b1 \<le> cnt' - 1)"
  shows "truncates f"
  unfolding truncates_def using assms by (simp split: prod.split)

lemma truncates_bind [truncates_intros]:
  assumes f: "truncates f" and g: "\<And>x. truncates (\<lambda>cnt. g cnt x)"
  shows "truncates (\<lambda>cnt. State_Monad.bind (f cnt) (g cnt))"
proof (rule truncatesI)
  fix cnt cnt' :: nat and s b x s2 b2
  assume le: "cnt \<le> cnt'" and run: "run_state (State_Monad.bind (f cnt') (g cnt')) (s, b) = (x, s2, b2)"
  obtain y s1 b1 where fy: "run_state (f cnt') (s, b) = (y, s1, b1)" by (rule prod_cases3)
  with run have gy: "run_state (g cnt' y) (s1, b1) = (x, s2, b2)" by simp
  show "run_state (State_Monad.bind (f cnt) (g cnt)) (s, take (cnt - 1) b) = (x, s2, take (cnt - 1) b2)
      \<and> (length b \<le> cnt' - 1 \<longrightarrow> length b2 \<le> cnt' - 1)"
    using truncatesD [OF f le fy] truncatesD [OF g le gy] by simp
qed

lemma truncates_if [truncates_intros]: "truncates f \<Longrightarrow> truncates g \<Longrightarrow> truncates (\<lambda>cnt. if c then f cnt else g cnt)"
  by (cases c) simp_all

lemma truncates_for_each [truncates_intros]:
  assumes "\<And>x. truncates (\<lambda>cnt. f cnt x)"
  shows "truncates (\<lambda>cnt. for_each (f cnt) xs)"
  using assms by (induction xs) (simp_all add: truncates_intros)

lemma truncates_length:
  assumes "truncates f"
  shows "length (fst (printed (f cnt) s)) \<le> cnt - 1"
  using assms [unfolded truncates_def, rule_format, of cnt cnt s "[]"] by (auto simp: printed_def split: prod.splits)

lemma truncates_prefix:
  assumes "truncates f" and "cnt \<le> cnt'"
  shows "fst (printed (f cnt) s) = take (cnt - 1) (fst (printed (f cnt') s)) \<and> snd (printed (f cnt) s) = snd (printed (f cnt') s)"
  using assms(1) [unfolded truncates_def, rule_format, OF assms(2), of s "[]"] by (auto simp: printed_def split: prod.splits)

end
