(* ===== verification/Evr_Text.thy ===== *)
theory Evr_Text
  imports Text_Out Evr_Irq
begin

text \<open>
  The text interface of the EVR: the listings of its registers, resources and Map RAM (src/src/evr-dbg.c) and the commands and listings
  of the simulation (src/src/evr-sim.c). A listing is a printer over the state of the EVR; what it reads goes through the
  register access, so that it can be seen which registers a listing touches.
\<close>

section \<open>Registers that only the listings use\<close>

abbreviation (input) EVR_REG_STATUS :: u32 where "EVR_REG_STATUS \<equiv> 0x0000"
abbreviation (input) EVR_REG_USEC_DIV :: u32 where "EVR_REG_USEC_DIV \<equiv> 0x004C"
abbreviation (input) EVR_REG_FRAC_DIV :: u32 where "EVR_REG_FRAC_DIV \<equiv> 0x0080"
abbreviation (input) C_EVR_CTRL_MASTER_ENABLE :: nat where "C_EVR_CTRL_MASTER_ENABLE \<equiv> 31"
abbreviation (input) C_EVR_DATABUF_RECEIVING :: nat where "C_EVR_DATABUF_RECEIVING \<equiv> 15"
abbreviation (input) C_EVR_DATABUF_RXREADY :: nat where "C_EVR_DATABUF_RXREADY \<equiv> 14"
abbreviation (input) EVR_REG_MAPRAM_EVENT_BIT_SAVE_EVENT_IN_FIFO :: nat where
  "EVR_REG_MAPRAM_EVENT_BIT_SAVE_EVENT_IN_FIFO \<equiv> 96 + C_EVR_MAP_SAVE_EVENT"

section \<open>The simulation\<close>

text \<open>A result below 0 is an error; the position moves behind the characters that were looked at.\<close>

definition extract_hex4 :: "u8 list \<Rightarrow> nat \<Rightarrow> int \<times> nat" where
  "extract_hex4 buf i =
     (if i < length buf then
        let v = uint (buf ! i); i = i + 1 in
        if v \<ge> 48 \<and> v \<le> 57 then (v - 48, i)
        else if v \<ge> 65 \<and> v \<le> 70 then (v - 65 + 10, i)
        else if v \<ge> 97 \<and> v \<le> 102 then (v - 97 + 10, i)
        else (-1, i)
      else (-1, i))"

definition extract_hex8 :: "u8 list \<Rightarrow> nat \<Rightarrow> int \<times> nat" where
  "extract_hex8 buf i =
     (let (h, i) = extract_hex4 buf i in
      if h < 0 then (-1, i)
      else let (l, i) = extract_hex4 buf i in
        if l < 0 then (-1, i) else (push_bit 4 h OR l, i))"

definition extract_hex12 :: "u8 list \<Rightarrow> nat \<Rightarrow> int \<times> nat" where
  "extract_hex12 buf i =
     (let (hh, i) = extract_hex4 buf i in
      if hh < 0 then (-1, i)
      else let (h, i) = extract_hex4 buf i in
        if h < 0 then (-1, i)
        else let (l, i) = extract_hex4 buf i in
          if l < 0 then (-1, i) else (push_bit 8 hh OR push_bit 4 h OR l, i))"

text \<open>The loop over the data bytes, with the number of bytes that still fit.\<close>

fun sim_bytes :: "u8 list \<Rightarrow> nat \<Rightarrow> nat \<Rightarrow> u8 list" where
  "sim_bytes buf 0 i = []"
| "sim_bytes buf (Suc left) i =
     (let (v, i) = extract_hex8 buf i in
      if v < 0 then [] else word_of_int v # sim_bytes buf left i)"

text \<open>The calls into the MNG_DEV that a written command makes, and the result of the write.\<close>

definition evr_sim_dbg :: "u8 list \<Rightarrow> hw_event list \<times> int" where
  "evr_sim_dbg buf =
     (if \<not> 0 < length buf then ([], int (length buf))
      else
        let cmd = buf ! 0; i = 1 in
        if cmd = 0x69 then
          let (code, i) = extract_hex8 buf i in
          if code < 0 then ([], int (length buf))
          else ([Put_Event code (sim_bytes buf 16 i)], int (length buf))
        else if cmd = 0x6E then
          let (code, i) = extract_hex12 buf i in
          if code < 0 then ([], int (length buf))
          else ([Notify code], int (length buf))
        else ([], int (length buf)))"

definition evr_sim_dbg_res :: "nat \<Rightarrow> evr_sim_data \<Rightarrow> int \<Rightarrow> int \<Rightarrow> ('s, unit) printer" where
  "evr_sim_dbg_res cnt d res_type res_index =
     (if res_type = EVR_RES_TYPE_PULSEGEN \<and> res_index \<ge> 0 \<and> res_index < int EVRSIM_PULSEGEN_COUNT then
        let p = sim_pulsegen_params d ! nat res_index in
        do {
          scnprintf cnt (fmt_sd (ps_prescaler p) @ '','');
          scnprintf cnt (fmt_sd (ps_delay p) @ '','');
          scnprintf cnt (fmt_sd (ps_width p))
        }
      else if res_type = EVR_RES_TYPE_OUTPUT \<and> res_index \<ge> 0 \<and> res_index < int EVRSIM_OUTPUT_COUNT then
        scnprintf cnt (fmt_d (sim_output_src d ! nat res_index))
      else scnprintf cnt ''XXX'')"

section \<open>The listings of a card\<close>

abbreviation (input) NL :: string where "NL \<equiv> [CHR 0x0A]"

definition show_map_ram_bits :: "'h modac_io_rw_plugin \<Rightarrow> nat \<Rightarrow> nat \<Rightarrow> nat \<Rightarrow> ('h evr_state, unit) printer" where
  "show_map_ram_bits io cnt mapram b = do {
     scnprintf cnt (''MapRam['' @ fmt_d (int mapram) @ ''],bit='' @ fmt_d (int b) @ '':'');
     for_each (\<lambda>i. do {
       let ram_start = (if mapram \<noteq> 0 then EVR_REG_MAPRAM2 else EVR_REG_MAPRAM1) + of_nat i * EVR_REG_MAPRAM_SLOT_SIZE;
       rval \<leftarrow> quietly (evr_read32 io (ram_start + 4 * (3 - of_nat (b div 32))));
       (if drop_bit (b mod 32) rval AND 1 \<noteq> 0 then scnprintf cnt (fmt_d (int i) @ '' '') else State_Monad.return ())
     }) [0..<EVR_EVENT_CODES];
     scnprintf cnt NL
   }"

text \<open>The fields of one register, each a name and a bit.\<close>

definition show_fields :: "nat \<Rightarrow> u32 \<Rightarrow> (string \<times> nat) list \<Rightarrow> ('s, unit) printer" where
  "show_fields cnt rval fs = for_each (\<lambda>f. scnprintf cnt (fst f @ ''='' @ fmt_sd (drop_bit (snd f) rval AND 1) @ NL)) fs"

definition hw_support_evr_show_dbg :: "'h modac_io_rw_plugin \<Rightarrow> nat \<Rightarrow> ('h evr_state, unit) printer" where
  "hw_support_evr_show_dbg io cnt = do {
     hw_data \<leftarrow> quietly get_hw;
     if sim hw_data \<noteq> None then State_Monad.return ()
     else do {
       rval \<leftarrow> quietly (evr_read32 io EVR_REG_CTRL);
       show_fields cnt rval [(''CTRL[MASTER_ENABLE]'', C_EVR_CTRL_MASTER_ENABLE), (''CTRL[MAP_RAM_ENABLE]'', C_EVR_CTRL_MAP_RAM_ENABLE),
         (''CTRL[MAP_RAM_SELECT]'', C_EVR_CTRL_MAP_RAM_SELECT)];
       rval \<leftarrow> quietly (evr_read32 io EVR_REG_IRQEN);
       show_fields cnt rval [(''IRQEN[MASTER_ENABLE]'', 31), (''IRQEN[DATABUF]'', 5), (''IRQEN[PULSE]'', 4), (''IRQEN[EVENT]'', 3),
         (''IRQEN[HEARTBEAT]'', 2), (''IRQEN[FIFOFULL]'', 1), (''IRQEN[VIOLATION]'', 0)];
       rval \<leftarrow> quietly (evr_read32 io EVR_REG_STATUS);
       show_fields cnt rval [(''STATUS[LEGVIO]'', 16), (''STATUS[FIFOSTP]'', 5), (''STATUS[LINK]'', 6), (''STATUS[SFPMOD]'', 7)];
       rval \<leftarrow> quietly (evr_read32 io EVR_REG_DATA_BUF_CTRL);
       show_fields cnt rval [(''DATA_BUF_CTRL[DATABUF_MODE]'', C_EVR_DATABUF_MODE), (''DATA_BUF_CTRL[DATABUF_RECEIVING]'', C_EVR_DATABUF_RECEIVING),
         (''DATA_BUF_CTRL[DATABUF_RXREADY]'', C_EVR_DATABUF_RXREADY), (''DATA_BUF_CTRL[DATABUF_CHECKSUM]'', C_EVR_DATABUF_CHECKSUM)];
       scnprintf cnt (''DATA_BUF_CTRL[RXSIZE]=0x'' @ fmt_x (rval AND C_EVR_DATABUF_RXSIZE_MASK) @ NL);
       rval \<leftarrow> quietly (evr_read32 io EVR_REG_USEC_DIV);
       scnprintf cnt (''USEC_DIV=0x'' @ fmt_x rval @ NL);
       rval \<leftarrow> quietly (evr_read32 io EVR_REG_FRAC_DIV);
       scnprintf cnt (''FRAC_DIV=0x'' @ fmt_x rval @ NL);
       show_map_ram_bits io cnt 0 EVR_REG_MAPRAM_EVENT_BIT_SAVE_EVENT_IN_FIFO;
       show_map_ram_bits io cnt 1 EVR_REG_MAPRAM_EVENT_BIT_SAVE_EVENT_IN_FIFO
     }
   }"

text \<open>A write: only the simulation takes commands.\<close>

definition hw_support_evr_store_dbg :: "'h evr_state \<Rightarrow> u8 list \<Rightarrow> hw_event list \<times> int" where
  "hw_support_evr_store_dbg s buf = (if sim (ev_hw s) \<noteq> None then evr_sim_dbg buf else ([], int (length buf)))"

text \<open>The name of an output and its index among the outputs of that name.\<close>

definition out_name :: "evr_hw_data \<Rightarrow> int \<Rightarrow> string \<times> int" where
  "out_name hw res_index =
     (let ttl = out_cfg hw ! 0; univ = out_cfg hw ! 1; tb = out_cfg hw ! 2 in
      if res_index < res_start ttl + res_count ttl then (''FP_TTL'', res_index - res_start ttl)
      else if res_index < res_start univ + res_count univ then (''FP_UNIV'', res_index - res_start univ)
      else (''TB'', res_index - res_start tb))"

definition hw_support_evr_dbg_res :: "'h modac_io_rw_plugin \<Rightarrow> nat \<Rightarrow> int \<Rightarrow> int \<Rightarrow> ('h evr_state, unit) printer" where
  "hw_support_evr_dbg_res io cnt res_type res_index = do {
     hw_data \<leftarrow> quietly get_hw;
     case sim hw_data of
       Some d \<Rightarrow> evr_sim_dbg_res cnt d res_type res_index
     | None \<Rightarrow>
         if res_type = EVR_RES_TYPE_PULSEGEN then
           if res_index < 0 \<or> res_index \<ge> pulsegen_count (hd_type_data hw_data) then scnprintf cnt ''invalid''
           else
             let info = pulsegen_data (hd_type_data hw_data) ! nat res_index in
             scnprintf cnt (''abs:'' @ fmt_d res_index @ '',bits:presc='' @ fmt_d (prescaler_bits info) @ '';delay='' @ fmt_d (delay_bits info)
               @ '';width='' @ fmt_d (width_bits info))
         else if res_type = EVR_RES_TYPE_OUTPUT then
           if res_index < 0 \<or> res_index \<ge> out_res_count hw_data then scnprintf cnt ''invalid''
           else do {
             let (name, rel_index) = out_name hw_data res_index;
             scnprintf cnt (''OUT['' @ fmt_d res_index @ '']='' @ name @ ''['' @ fmt_d rel_index @ '']'');
             out_map \<leftarrow> quietly (internal_evr_get_out_map io res_index);
             (if ret_int out_map \<ge> 0 then scnprintf cnt ('',MAP='' @ fmt_d (ret_int out_map)) else State_Monad.return ())
           }
         else State_Monad.return ()
   }"

text \<open>The values of a range of registers, eight to a line.\<close>

definition print_reg :: "'h modac_io_rw_plugin \<Rightarrow> nat \<Rightarrow> u32 \<Rightarrow> nat \<Rightarrow> ('h evr_state, unit) printer" where
  "print_reg io cnt regs_offset i = do {
     reg \<leftarrow> quietly (evr_read32 io (regs_offset + of_nat i * 4));
     (if i mod 8 = 0 then scnprintf cnt (pad0 6 (fmt_X (regs_offset + of_nat i * 4)) @ ''  '') else State_Monad.return ());
     scnprintf cnt (pad0 8 (fmt_X reg) @ '' '');
     (if i mod 8 = 7 then scnprintf cnt NL else State_Monad.return ())
   }"

definition regs_refused :: "ulong \<Rightarrow> u32 \<Rightarrow> u32 \<Rightarrow> bool" where
  "regs_refused io_size regs_offset regs_length \<longleftrightarrow>
     regs_offset + regs_length < regs_offset \<or> ucast (regs_offset + regs_length) > io_size"

definition print_regs :: "'h modac_io_rw_plugin \<Rightarrow> ulong \<Rightarrow> nat \<Rightarrow> u32 \<Rightarrow> u32 \<Rightarrow> ('h evr_state, unit) printer" where
  "print_regs io io_size cnt regs_offset regs_length =
     (if regs_refused io_size regs_offset regs_length
      then scnprintf cnt (''Bad range, offset=0x'' @ fmt_x regs_offset @ '' length='' @ fmt_sd regs_length)
      else for_each (print_reg io cnt regs_offset) [0..<unat (regs_length div 4)])"

definition hw_support_evr_dbg_regs :: "'h modac_io_rw_plugin \<Rightarrow> modac_mngdev_des \<Rightarrow> nat \<Rightarrow> u32 \<Rightarrow> u32 \<Rightarrow> ('h evr_state, unit) printer" where
  "hw_support_evr_dbg_regs io des cnt regs_offset regs_length = do {
     hw_data \<leftarrow> quietly get_hw;
     if sim hw_data \<noteq> None then scnprintf cnt ''no_regs''
     else print_regs io (md_io_size des) cnt regs_offset regs_length
   }"

text \<open>The register of a temperature as it is printed.\<close>

definition temperature_text :: "u32 \<Rightarrow> string" where
  "temperature_text v = pad0 3 (fmt_x (drop_bit 4 (swab32 v) AND 0xFFF))"

definition hw_support_evr_dbg_info :: "'h modac_io_rw_plugin \<Rightarrow> modac_mngdev_des \<Rightarrow> nat \<Rightarrow> ('h evr_state, unit) printer" where
  "hw_support_evr_dbg_info io des cnt = do {
     hw_data \<leftarrow> quietly get_hw;
     if sim hw_data \<noteq> None then scnprintf cnt ''simulation''
     else do {
       scnprintf cnt (td_name (hd_type_data hw_data));
       fw_ver \<leftarrow> quietly (evr_read32 io EVR_REG_FW_VERSION);
       scnprintf cnt ('', fw_ver=0x'' @ pad0 8 (fmt_X fw_ver));
       scnprintf cnt ('', hw_support_hint1='' @ fmt_d (md_hw_support_hint1 des));
       (if evr_card_is_slac (fw_version hw_data) then do {
          t \<leftarrow> quietly (evr_read32 io AXIXADC_REG_TEMPERATURE);
          scnprintf cnt ('', temperature_reg=0x'' @ temperature_text t);
          t \<leftarrow> quietly (evr_read32 io AXIXADC_REG_MAXTEMPERATURE);
          scnprintf cnt ('', max_temperature_reg=0x'' @ temperature_text t)
        }
        else State_Monad.return ())
     }
   }"


section \<open>The commands of the simulation\<close>

text \<open>Text as the bytes of a write, and a byte as two hexadecimal digits, in capitals (65) or not (97).\<close>

definition ascii :: "string \<Rightarrow> u8 list" where
  "ascii t = map (\<lambda>c. of_nat (of_char c)) t"

definition hex2 :: "nat \<Rightarrow> nat \<Rightarrow> string" where
  "hex2 L n = [hex_digit L (n div 16), hex_digit L (n mod 16)]"

lemma hex_or: "0 \<le> x \<Longrightarrow> x < 16 \<Longrightarrow> push_bit 4 (h::int) OR x = 16 * h + x"
proof -
  assume "0 \<le> x" "x < 16"
  then have x: "take_bit 4 x = x" by (simp add: take_bit_int_eq_self)
  have "push_bit 4 h AND take_bit 4 x = 0" by (rule bit_eqI) (auto simp: bit_simps)
  then show ?thesis using x by (simp add: disjunctive_add_eq_or [symmetric] push_bit_eq_mult)
qed

lemma nat_lt_16: "n < 16 \<Longrightarrow> n \<in> {0,1,2,3,4,5,6,7,8,9,10,11,12,13,14,15::nat}"
  unfolding insert_iff empty_iff by presburger

lemma hex4_digit:
  assumes "i < length buf" and "buf ! i = of_nat (of_char (hex_digit L n))" and "n < 16" and "L \<in> {65, 97}"
  shows "extract_hex4 buf i = (int n, i + 1)"
  using assms nat_lt_16 [OF assms(3)]
  by (auto simp: extract_hex4_def hex_digit_def digit_def)

lemma length_ascii [simp]: "length (ascii t) = length t"
  by (simp add: ascii_def)

lemma ascii_nth: "i < length t \<Longrightarrow> ascii t ! i = of_nat (of_char (t ! i))"
  by (simp add: ascii_def)

lemma ascii_append: "ascii (s @ t) = ascii s @ ascii t"
  by (simp add: ascii_def)

lemma drop_nth: "drop i buf = x # rest \<Longrightarrow> i < length buf \<and> buf ! i = x \<and> drop (i + 1) buf = rest"
  by (metis Cons_nth_drop_Suc Suc_eq_plus1 drop_all leI list.distinct(1) list.inject)

lemma hex4_head:
  assumes "drop i buf = of_nat (of_char (hex_digit L n)) # rest" and "n < 16" and "L \<in> {65, 97}"
  shows "extract_hex4 buf i = (int n, i + 1)" "drop (i + 1) buf = rest"
  using hex4_digit [of i buf L n] drop_nth [OF assms(1)] assms by auto

lemma hex8_head:
  assumes "drop i buf = ascii (hex2 L n) @ rest" and "n < 256" and "L \<in> {65, 97}"
  shows "extract_hex8 buf i = (int n, i + 2)" "drop (i + 2) buf = rest"
proof -
  have d: "drop i buf = of_nat (of_char (hex_digit L (n div 16))) # of_nat (of_char (hex_digit L (n mod 16))) # rest"
    using assms(1) by (simp add: ascii_def hex2_def)
  have n: "n div 16 < 16" "n mod 16 < 16" using assms(2) by auto
  note h = hex4_head [OF d n(1) assms(3)]
  note l = hex4_head [OF h(2) n(2) assms(3)]
  have "16 * int (n div 16) + int (n mod 16) = int n"
    by (simp add: zdiv_int zmod_int)
  then show "extract_hex8 buf i = (int n, i + 2)"
    using h(1) l(1) hex_or [of "int (n mod 16)" "int (n div 16)"] 
    by (simp add: extract_hex8_def del: of_nat_mod of_nat_div)
  show "drop (i + 2) buf = rest" using l(2) by simp
qed

text \<open>A text that does not start with a hexadecimal digit.\<close>

definition no_hex :: "u8 list \<Rightarrow> bool" where
  "no_hex t \<longleftrightarrow> fst (extract_hex4 t 0) < 0"

lemma no_hex8: "no_hex (drop i buf) \<Longrightarrow> fst (extract_hex8 buf i) < 0"
proof -
  assume "no_hex (drop i buf)"
  then have "fst (extract_hex4 buf i) < 0"
    by (cases "i < length buf") (simp_all add: no_hex_def extract_hex4_def Let_def split: if_splits)
  then show ?thesis by (simp add: extract_hex8_def case_prod_unfold)
qed

lemma sim_bytes_text:
  assumes "drop i buf = ascii (concat (map (\<lambda>b. hex2 L (unat b)) bs)) @ rest" and "length bs \<le> left" and L: "L \<in> {65, 97}"
    and "length bs < left \<Longrightarrow> no_hex rest"
  shows "sim_bytes buf left i = bs"
  using assms(1,2,4)
proof (induction bs arbitrary: i left)
  case Nil
  then have "0 < left \<Longrightarrow> fst (extract_hex8 buf i) < 0"
    by (intro no_hex8) (simp add: ascii_def)
  then show ?case
    by (cases left) (auto split: prod.split)
next
  case (Cons b bs)
  obtain l where l: "left = Suc l" using Cons.prems(2) by (cases left) auto
  have d: "drop i buf = ascii (hex2 L (unat b)) @ (ascii (concat (map (\<lambda>b. hex2 L (unat b)) bs)) @ rest)"
    using Cons.prems(1) by (simp add: ascii_append)
  have b: "unat b < 256" using unsigned_less [of b] by simp
  note h = hex8_head [OF d b L]
  have "sim_bytes buf l (i + 2) = bs"
    using Cons.prems l by (intro Cons.IH [OF h(2)]) auto
  then show ?case using h(1) l by simp
qed

lemma hex4_range: "fst (extract_hex4 buf i) < 16"
  by (simp add: extract_hex4_def Let_def)

lemma hex8_range: "fst (extract_hex8 buf i) < 256"
  using hex4_range [of buf i] hex4_range [of buf "snd (extract_hex4 buf i)"]
  by (simp add: extract_hex8_def hex_or case_prod_unfold Let_def)

lemma hex12_or: "0 \<le> h \<Longrightarrow> h < 16 \<Longrightarrow> 0 \<le> l \<Longrightarrow> l < 16 \<Longrightarrow> push_bit 8 (hh::int) OR push_bit 4 h OR l = 256 * hh + 16 * h + l"
proof -
  assume h: "0 \<le> h" "h < 16" and l: "0 \<le> l" "l < 16"
  have "push_bit 8 hh OR push_bit 4 h = push_bit 4 (push_bit 4 hh OR h)"
    by (simp add: push_bit_or)
  then have "push_bit 8 hh OR push_bit 4 h OR l = push_bit 4 (push_bit 4 hh OR h) OR l"
    by (simp only: or.assoc [symmetric])
  then show ?thesis using h l by (simp add: hex_or)
qed

lemma hex12_range: "fst (extract_hex12 buf i) < 4096"
  using hex4_range [of buf i] hex4_range [of buf "snd (extract_hex4 buf i)"]
    hex4_range [of buf "snd (extract_hex4 buf (snd (extract_hex4 buf i)))"]
  by (simp add: extract_hex12_def hex12_or case_prod_unfold Let_def)

lemma sim_bytes_length: "length (sim_bytes buf left i) \<le> left"
  by (induction buf left i rule: sim_bytes.induct) (auto split: prod.splits)

text \<open>
  Writing to the file \<open>dbg\<close> of a simulated EVR what the comment of \<open>evr_sim_dbg\<close> describes, an i, the code of the event as two hexadecimal digits
  and up to 16 data bytes as two digits each, in either case, makes the driver put exactly that event with exactly those bytes, whatever
  follows (in front of the 16th byte: that is no hexadecimal digit, as the newline of \<open>echo\<close>); the write is reported as complete.
\<close>

lemma sim_command_roundtrip:
  assumes "code < 256" and "length bs \<le> 16" and "L \<in> {65, 97}" and "length bs < 16 \<Longrightarrow> no_hex rest"
  shows "evr_sim_dbg (ascii (''i'' @ hex2 L code @ concat (map (\<lambda>b. hex2 L (unat b)) bs)) @ rest)
      = ([Put_Event (int code) bs], int (3 + 2 * length bs + length rest))"
proof -
  let ?buf = "ascii (''i'' @ hex2 L code @ concat (map (\<lambda>b. hex2 L (unat b)) bs)) @ rest"
  have d: "drop 1 ?buf = ascii (hex2 L code) @ (ascii (concat (map (\<lambda>b. hex2 L (unat b)) bs)) @ rest)"
    by (simp add: ascii_def)
  note h = hex8_head [OF d assms(1,3)]
  have b: "sim_bytes ?buf 16 (1 + 2) = bs"
    using assms(2-4) by (intro sim_bytes_text [OF h(2)]) auto
  have "length (concat (map (\<lambda>b. hex2 L (unat b)) bs)) = 2 * length bs"
    by (induction bs) (simp_all add: hex2_def)
  then have "length ?buf = 3 + 2 * length bs + length rest" by (simp add: hex2_def)
  moreover have "?buf ! 0 = 0x69" by (simp add: ascii_def)
  ultimately show ?thesis
    using h(1) b by (simp only: evr_sim_dbg_def) simp
qed

lemma sim_command_roundtrip_witness:
  "evr_sim_dbg (ascii ''i2a0ff0'' @ [10]) = ([Put_Event 42 [0x0F, 0xF0]], 8)"
proof -
  have t: "''i'' @ hex2 97 42 @ concat (map (\<lambda>b. hex2 97 (unat b)) [0x0F, 0xF0 :: u8]) = ''i2a0ff0''"
    by code_simp
  show ?thesis
    using sim_command_roundtrip [of 42 "[0x0F, 0xF0]" 97 "[10]"] unfolding t
    by (simp add: no_hex_def extract_hex4_def)
qed

text \<open>Whatever is written, there is at most one call, its event code has two digits and a notified code three, and there are at most 16 bytes.\<close>

lemma sim_command_bounds:
  "evr_sim_dbg buf = (es, n) \<Longrightarrow> n = int (length buf) \<and> length es \<le> 1
     \<and> (\<forall>e\<in>set es. case e of Put_Event code bs \<Rightarrow> 0 \<le> code \<and> code < 256 \<and> length bs \<le> 16 | Notify code \<Rightarrow> 0 \<le> code \<and> code < 4096)"
  using hex8_range [of buf 1] hex12_range [of buf 1]
  by (auto simp: evr_sim_dbg_def case_prod_unfold Let_def sim_bytes_length split: if_splits)


section \<open>What the listings do\<close>

lemma truncates_case_res [truncates_intros]:
  "(\<And>x. truncates (\<lambda>cnt. f cnt x)) \<Longrightarrow> truncates g \<Longrightarrow> truncates (\<lambda>cnt. case r of None \<Rightarrow> g cnt | Some x \<Rightarrow> f cnt x)"
  by (cases r) simp_all

lemma truncates_fields [truncates_intros]: "truncates (\<lambda>cnt. show_fields cnt rval fs)"
  unfolding show_fields_def by (intro truncates_intros)

lemma truncates_map_ram_bits [truncates_intros]: "truncates (\<lambda>cnt. show_map_ram_bits io cnt mapram b)"
  unfolding show_map_ram_bits_def Let_def by (intro truncates_intros)

lemma truncates_show_dbg: "truncates (hw_support_evr_show_dbg io)"
  unfolding hw_support_evr_show_dbg_def by (intro truncates_intros)

lemma truncates_sim_res [truncates_intros]: "truncates (\<lambda>cnt. evr_sim_dbg_res cnt d res_type res_index)"
  unfolding evr_sim_dbg_res_def Let_def by (intro truncates_intros)

lemma truncates_dbg_res: "truncates (\<lambda>cnt. hw_support_evr_dbg_res io cnt res_type res_index)"
  unfolding hw_support_evr_dbg_res_def Let_def case_prod_unfold by (intro truncates_intros)

lemma truncates_dbg_regs: "truncates (\<lambda>cnt. hw_support_evr_dbg_regs io des cnt regs_offset regs_length)"
  unfolding hw_support_evr_dbg_regs_def print_regs_def print_reg_def by (intro truncates_intros)

lemma truncates_dbg_info: "truncates (hw_support_evr_dbg_info io des)"
  unfolding hw_support_evr_dbg_info_def by (intro truncates_intros)

text \<open>A computation that only reads registers, each of which \<open>P\<close> holds of.\<close>

definition reads_only :: "(u32 \<Rightarrow> bool) \<Rightarrow> (bus_op list evr_state, 'a) printer \<Rightarrow> bool" where
  "reads_only P f \<longleftrightarrow> (\<forall>s b. \<exists>new. fst (snd (run_state f (s, b))) = s\<lparr>ev_dev := new @ ev_dev s\<rparr>
     \<and> (\<forall>op\<in>set new. \<exists>a. P a \<and> op \<in> {R32 a, R16 a}))"

named_theorems reads_only_intros \<open>computations that only read registers\<close>

lemma reads_only_nothing [reads_only_intros]: "reads_only P (State_Monad.return x)" "reads_only P (scnprintf cnt t)" "reads_only P (quietly get_hw)"
  by (auto simp: reads_only_def scnprintf_def quietly_def intro!: exI [of _ "[]"])

lemma reads_only_read32 [reads_only_intros]: "P a \<Longrightarrow> reads_only P (quietly (evr_read32 (bus_plugin d16 d32) a))"
  by (auto simp: reads_only_def quietly_def intro!: exI [of _ "[R32 a]"])

lemma reads_only_read16: "P a \<Longrightarrow> reads_only P (quietly (evr_read16 (bus_plugin d16 d32) a))"
  by (auto simp: reads_only_def quietly_def intro!: exI [of _ "[R16 a]"])

lemma reads_only_bind [reads_only_intros]:
  assumes f: "reads_only P f" and g: "\<And>x. reads_only P (g x)"
  shows "reads_only P (State_Monad.bind f g)"
  unfolding reads_only_def
proof (intro allI)
  fix s b
  obtain x s1 b1 where run: "run_state f (s, b) = (x, s1, b1)" by (rule prod_cases3)
  obtain new1 where n1: "s1 = s\<lparr>ev_dev := new1 @ ev_dev s\<rparr>" "\<forall>op\<in>set new1. \<exists>a. P a \<and> op \<in> {R32 a, R16 a}"
    using f run unfolding reads_only_def by (metis fst_conv snd_conv)
  obtain new2 where n2: "fst (snd (run_state (g x) (s1, b1))) = s1\<lparr>ev_dev := new2 @ ev_dev s1\<rparr>"
      "\<forall>op\<in>set new2. \<exists>a. P a \<and> op \<in> {R32 a, R16 a}"
    using g [of x] unfolding reads_only_def by blast
  show "\<exists>new. fst (snd (run_state (State_Monad.bind f g) (s, b))) = s\<lparr>ev_dev := new @ ev_dev s\<rparr>
      \<and> (\<forall>op\<in>set new. \<exists>a. P a \<and> op \<in> {R32 a, R16 a})"
    using n1 n2 run by (intro exI [of _ "new2 @ new1"]) auto
qed

lemma reads_only_if [reads_only_intros]: "(c \<Longrightarrow> reads_only P f) \<Longrightarrow> (\<not> c \<Longrightarrow> reads_only P g) \<Longrightarrow> reads_only P (if c then f else g)"
  by simp

lemma reads_only_option [reads_only_intros]:
  "(\<And>x. reads_only P (f x)) \<Longrightarrow> reads_only P g \<Longrightarrow> reads_only P (case r of None \<Rightarrow> g | Some x \<Rightarrow> f x)"
  by (cases r) simp_all

lemma reads_only_for_each [reads_only_intros]:
  assumes "\<And>x. x \<in> set xs \<Longrightarrow> reads_only P (f x)"
  shows "reads_only P (for_each f xs)"
  using assms by (induction xs) (auto intro!: reads_only_intros)

lemma reads_only_out_map [reads_only_intros]:
  "reads_only (\<lambda>_. True) (quietly (internal_evr_get_out_map (bus_plugin d16 d32) i))"
  unfolding reads_only_def
proof (intro allI)
  fix s :: "bus_op list evr_state" and b
  show "\<exists>new. fst (snd (run_state (quietly (internal_evr_get_out_map (bus_plugin d16 d32) i)) (s, b))) = s\<lparr>ev_dev := new @ ev_dev s\<rparr>
      \<and> (\<forall>op\<in>set new. \<exists>a. True \<and> op \<in> {R32 a, R16 a})"
  proof (cases "i < 0 \<or> i \<ge> ev_res_count s EVR_RES_TYPE_OUTPUT \<or> find_out_cfg (ev_hw s) i = None")
    case True
    then show ?thesis
      by (intro exI [of _ "[]"]) (auto simp: quietly_def internal_evr_get_out_map_def)
  next
    case False
    then obtain cfg rel where "find_out_cfg (ev_hw s) i = Some (cfg, rel)" by auto
    with False show ?thesis
      by (intro exI [of _ "[R16 (out_map_reg cfg rel)]"]) (auto simp: quietly_def internal_evr_get_out_map_def)
  qed
qed

text \<open>The registers that \<open>print_regs\<close> reads.\<close>

lemma regs_in_range:
  assumes "\<not> regs_refused io_size regs_offset regs_length" and "i < unat (regs_length div 4)"
  shows "uint regs_offset \<le> uint (regs_offset + of_nat i * 4) \<and> uint (regs_offset + of_nat i * 4) + 4 \<le> uint io_size"
proof -
  let ?o = "uint regs_offset" and ?l = "uint regs_length"
  have "4 * i + 4 \<le> unat regs_length"
    using assms(2) by (simp add: unat_div)
  then have i: "4 * int i + 4 \<le> ?l"
    by (simp only: uint_nat)
  have no: "\<not> regs_offset + regs_length < regs_offset" and fits: "\<not> ucast (regs_offset + regs_length) > io_size"
    using assms(1) by (simp_all add: regs_refused_def)
  have e: "uint (regs_offset + regs_length) = ?o + ?l"
    using no uint_lt2p [of regs_offset] uint_lt2p [of regs_length]
    by (simp add: word_less_def uint_plus_if' split: if_splits)
  have io: "uint (regs_offset + regs_length) \<le> uint io_size"
    using fits uint_lt2p [of "regs_offset + regs_length"] by (simp add: word_less_def unsigned_ucast_eq take_bit_int_eq_self)
  have "?o + ?l < 2 ^ 32"
    using e uint_lt2p [of "regs_offset + regs_length"] by simp
  moreover have m: "i mod 4294967296 = i" using i uint_lt2p [of regs_length] by simp
  ultimately have "uint (regs_offset + of_nat i * 4) = ?o + 4 * int i"
    using i uint_ge_0 [of regs_offset] by (simp add: uint_word_ariths unsigned_of_nat take_bit_eq_mod mod_simps m)
  then show ?thesis using e i io by simp
qed


end
