(* ===== verification/Mng_Sysfs.thy ===== *)
theory Mng_Sysfs
  imports Evr_Text Vdev_Files
begin

text \<open>
  The files of sysfs: those of the MNG_DEV (\<open>alloc\<close>, \<open>dbg\<close>, \<open>regs\<close>, \<open>hw_info\<close> and \<open>events\<close>, src/src/mng-dev.c) and the reading of a VIRT_DEV's
  \<open>config\<close> (src/src/virt-dev.c), with what they print of the resource manager (src/src/rm.c) and of the dispatch list (src/src/event-list.c).
  Every file locks the reference of the device first. The text of a shown file is the result; the code returns its length.
\<close>

section \<open>The debugging operations of a hardware support\<close>

record 's modac_hw_dbg =
  dbg_store :: "('s \<Rightarrow> u8 list \<Rightarrow> hw_event list \<times> int) option"
  dbg_show :: "(nat \<Rightarrow> ('s, unit) printer) option"
  dbg_res :: "(nat \<Rightarrow> int \<Rightarrow> int \<Rightarrow> ('s, unit) printer) option"
  dbg_regs :: "(nat \<Rightarrow> u32 \<Rightarrow> u32 \<Rightarrow> ('s, unit) printer) option"
  dbg_info :: "(nat \<Rightarrow> ('s, unit) printer) option"

definition hw_support_evr_dbg :: "'h modac_io_rw_plugin \<Rightarrow> modac_mngdev_des \<Rightarrow> 'h evr_state modac_hw_dbg" where
  "hw_support_evr_dbg io des = \<lparr>
     dbg_store = Some hw_support_evr_store_dbg,
     dbg_show = Some (hw_support_evr_show_dbg io),
     dbg_res = Some (hw_support_evr_dbg_res io),
     dbg_regs = Some (hw_support_evr_dbg_regs io des),
     dbg_info = Some (hw_support_evr_dbg_info io des)\<rparr>"

section \<open>Printing from a locked device\<close>

text \<open>The size of a page.\<close>

abbreviation (input) PAGE_BYTES :: nat where "PAGE_BYTES \<equiv> 4096"

definition on_hw :: "('s, 'a) printer \<Rightarrow> ('s mngdev_data, 'a) printer" where
  "on_hw f = State (\<lambda>(mg, b). case run_state f (mg_hw mg, b) of (x, hw, b) \<Rightarrow> (x, mg\<lparr>mg_hw := hw\<rparr>, b))"

definition with_lock :: "('s mngdev_data \<Rightarrow> 'r res \<times> 's mngdev_data) \<Rightarrow> 's mngdev_data \<Rightarrow> ('r res \<times> 's mngdev_data) option" where
  "with_lock f mg = (case mngdev_devref_lock mg of
     None \<Rightarrow> None
   | Some (Inl e, mg) \<Rightarrow> Some (Inl e, mg)
   | Some (Inr _, mg) \<Rightarrow> (case f mg of (r, mg) \<Rightarrow> Some (r, mngdev_devref_unlock mg)))"

definition print_text :: "('s mngdev_data, unit) printer \<Rightarrow> 's mngdev_data \<Rightarrow> string res \<times> 's mngdev_data" where
  "print_text f mg = (case printed f mg of (t, mg) \<Rightarrow> (Inr t, mg))"

section \<open>Listings of the components\<close>

text \<open>The entries of the resource manager from \<open>entry_start\<close> on.\<close>

definition modac_rm_print_info :: "'s modac_rm_data \<Rightarrow> nat \<Rightarrow> nat \<Rightarrow> nat \<Rightarrow> ('x, unit) printer" where
  "modac_rm_print_info rm cnt entry_start entry_count = for_each (\<lambda>i.
     let r = rm_res_states rm ! i in do {
       scnprintf cnt (fmt_d (int i) @ '' '');
       scnprintf cnt ([char_of (unat (rd_name (rs_hw_res_def r) ! 0))] @ '' '');
       scnprintf cnt (fmt_d (rs_array_index r) @ '' '' @ fmt_d (rs_owner r) @ [CHR 0x09])
     }) [entry_start..<min (length (rm_res_states rm)) (entry_start + entry_count)]"

text \<open>The search of a row ends at the first free entry.\<close>

fun row_lists :: "ptr \<Rightarrow> ptr option list \<Rightarrow> bool" where
  "row_lists subscriber [] = False"
| "row_lists subscriber (None # r) = False"
| "row_lists subscriber (Some x # r) = (if x = subscriber then True else row_lists subscriber r)"

definition event_dispatch_list_dbg :: "event_dispatch_list \<Rightarrow> nat \<Rightarrow> ptr \<Rightarrow> ('x, unit) printer" where
  "event_dispatch_list_dbg l cnt subscriber = do {
     scnprintf cnt ''subs['';
     for_each (\<lambda>ievent. if row_lists subscriber (l ievent) then scnprintf cnt (fmt_d (int ievent) @ '' '') else State_Monad.return ())
       [0..<EVENT_LIST_TYPE_MAX_EVENTS];
     scnprintf cnt '']''
   }"

section \<open>The files of the MNG_DEV\<close>

definition show_alloc :: "'s mngdev_data \<Rightarrow> (string res \<times> 's mngdev_data) option" where
  "show_alloc = with_lock (\<lambda>mg. print_text (modac_rm_print_info (mg_rm mg) PAGE_BYTES 0 200) mg)"

text \<open>The events that a write makes the hardware support report are processed at once.\<close>

definition store_dbg :: "'s modac_hw_dbg \<Rightarrow> u8 list \<Rightarrow> 's mngdev_data \<Rightarrow> (int res \<times> 's mngdev_data) option" where
  "store_dbg hwd buf = with_lock (\<lambda>mg. case dbg_store hwd of
     None \<Rightarrow> (Inl ENOSYS, mg)
   | Some f \<Rightarrow> (case f (mg_hw mg) buf of (events, n) \<Rightarrow> (Inr n, fold modac_mngdev_process_event events mg)))"

definition show_dbg :: "'s modac_hw_dbg \<Rightarrow> 's mngdev_data \<Rightarrow> (string res \<times> 's mngdev_data) option" where
  "show_dbg hwd = with_lock (\<lambda>mg. case dbg_show hwd of
     None \<Rightarrow> (Inl ENOSYS, mg)
   | Some f \<Rightarrow> print_text (on_hw (f PAGE_BYTES)) mg)"

text \<open>
  The kernel's \<open>sscanf (buf, "%x %d", ...)\<close>: white space in front of a number is skipped, a number has at least one digit, a
  hexadecimal one may start with 0x, a decimal one with a minus; each number that is found is cut to 32 bits.
\<close>

definition is_space :: "u8 \<Rightarrow> bool" where
  "is_space c \<longleftrightarrow> 9 \<le> c \<and> c \<le> 13 \<or> c = 32 \<or> c = 160"

definition digit_value :: "nat \<Rightarrow> u8 \<Rightarrow> nat option" where
  "digit_value base c =
     (let v = unat c; d = (if 48 \<le> v \<and> v \<le> 57 then v - 48 else if 97 \<le> v \<and> v \<le> 102 then v - 87
        else if 65 \<le> v \<and> v \<le> 70 then v - 55 else base)
      in if d < base then Some d else None)"

fun parse_integer :: "nat \<Rightarrow> nat \<Rightarrow> u8 list \<Rightarrow> nat \<times> u8 list" where
  "parse_integer base acc [] = (acc, [])"
| "parse_integer base acc (c # cs) = (case digit_value base c of
     None \<Rightarrow> (acc, c # cs)
   | Some d \<Rightarrow> parse_integer base (acc * base + d) cs)"

definition skip_0x :: "u8 list \<Rightarrow> u8 list" where
  "skip_0x s = (case s of a # b # rest \<Rightarrow> if a = 48 \<and> b \<in> {120, 88} then rest else s | _ \<Rightarrow> s)"

definition starts_number :: "nat \<Rightarrow> u8 list \<Rightarrow> bool" where
  "starts_number base s = (case s of [] \<Rightarrow> False | c # _ \<Rightarrow> digit_value base c \<noteq> None)"

definition sscanf_x :: "u8 list \<Rightarrow> (u32 \<times> u8 list) option" where
  "sscanf_x s =
     (let s = dropWhile is_space s in
      if starts_number 16 s then (case parse_integer 16 0 (skip_0x s) of (v, rest) \<Rightarrow> Some (of_nat v, rest)) else None)"

definition sscanf_d :: "u8 list \<Rightarrow> (u32 \<times> u8 list) option" where
  "sscanf_d s =
     (case dropWhile is_space s of
        [] \<Rightarrow> None
      | c # cs \<Rightarrow>
          if c = 45 then if starts_number 10 cs then (case parse_integer 10 0 cs of (v, rest) \<Rightarrow> Some (- of_nat v, rest)) else None
          else if starts_number 10 (c # cs) then (case parse_integer 10 0 (c # cs) of (v, rest) \<Rightarrow> Some (of_nat v, rest)) else None)"

definition store_hw_regs :: "u8 list \<Rightarrow> 's mngdev_data \<Rightarrow> (int res \<times> 's mngdev_data) option" where
  "store_hw_regs buf = with_lock (\<lambda>mg. (Inr (int (length buf)),
     case sscanf_x (cstr buf) of
       None \<Rightarrow> mg
     | Some (off, rest) \<Rightarrow>
         let mg = mg\<lparr>mg_regs_offset := off\<rparr> in
         (case sscanf_d rest of None \<Rightarrow> mg | Some (len, _) \<Rightarrow> mg\<lparr>mg_regs_length := len\<rparr>)))"

definition show_hw_regs :: "'s modac_hw_dbg \<Rightarrow> 's mngdev_data \<Rightarrow> (string res \<times> 's mngdev_data) option" where
  "show_hw_regs hwd = with_lock (\<lambda>mg. print_text (case dbg_regs hwd of
     Some f \<Rightarrow> on_hw (f PAGE_BYTES (mg_regs_offset mg) (mg_regs_length mg))
   | None \<Rightarrow> scnprintf PAGE_BYTES ''X'') mg)"

text \<open>One resource, as the hardware support describes it.\<close>

definition print_res :: "'s modac_hw_dbg \<Rightarrow> nat \<Rightarrow> int \<Rightarrow> int \<Rightarrow> ('s mngdev_data, unit) printer" where
  "print_res hwd cnt res_type res_index = (case dbg_res hwd of
     Some f \<Rightarrow> on_hw (f cnt res_type res_index)
   | None \<Rightarrow> scnprintf cnt ''X'')"

text \<open>\<open>underlying_info\<close> is the text that the platform gives for the device.\<close>

definition print_hw_info :: "'s modac_hw_dbg \<Rightarrow> string \<Rightarrow> 's modac_rm_data \<Rightarrow> nat \<Rightarrow> ('s mngdev_data, unit) printer" where
  "print_hw_info hwd underlying_info rm cnt = do {
     (case dbg_info hwd of
        Some f \<Rightarrow> do { on_hw (f cnt); scnprintf cnt ('', HW: '' @ underlying_info @ NL) }
      | None \<Rightarrow> scnprintf cnt (''X'' @ NL));
     for_each (\<lambda>i. do {
       scnprintf cnt (NL @ text_of (rd_name (rm_hw_res_defs rm ! nat i)) @ '':'');
       for_each (\<lambda>j. do { scnprintf cnt NL; print_res hwd cnt i j })
         [0..ret_int (modac_rm_get_res_count_for_type rm i) - 1]
     }) [0..hw_res_def_count rm - 1]
   }"

definition show_hw_info :: "'s modac_hw_dbg \<Rightarrow> string \<Rightarrow> 's mngdev_data \<Rightarrow> (string res \<times> 's mngdev_data) option" where
  "show_hw_info hwd underlying_info = with_lock (\<lambda>mg. print_text (print_hw_info hwd underlying_info (mg_rm mg) PAGE_BYTES) mg)"

definition print_events :: "(int \<Rightarrow> u32) \<Rightarrow> nat \<Rightarrow> ('x, unit) printer" where
  "print_events counters cnt = for_each (\<lambda>i. do {
     (if i mod 16 = 0 then scnprintf cnt (pad0 3 (fmt_d (int i)) @ '': '') else State_Monad.return ());
     scnprintf cnt (fmt_sd (counters (int i)) @ '' '');
     (if i mod 16 = 15 then scnprintf cnt NL else State_Monad.return ())
   }) [0..<EVENT_LIST_TYPE_MAX_EVENTS]"

definition show_events :: "'s mngdev_data \<Rightarrow> (string res \<times> 's mngdev_data) option" where
  "show_events = with_lock (\<lambda>mg. print_text (print_events (mg_event_counters mg) PAGE_BYTES) mg)"

section \<open>The file of the VIRT_DEV\<close>

definition modac_c_vdev_show_config :: "'s modac_hw_dbg \<Rightarrow> modac_vdev_des \<Rightarrow> ptr \<Rightarrow> event_dispatch_list \<Rightarrow> int \<Rightarrow> nat \<Rightarrow>
    ('s mngdev_data, unit) printer" where
  "modac_c_vdev_show_config hwd d p l res_type_count cnt = do {
     for_each (\<lambda>i. do {
       scnprintf cnt (fmt_d i @ ''['');
       for_each (\<lambda>j. do {
         scnprintf cnt (fmt_d j @ ''{'');
         print_res hwd cnt i (res_alloc_index (vdd_res_type_data d i) ! nat j);
         scnprintf cnt ''}''
       }) [0..res_alloc_count (vdd_res_type_data d i) - 1];
       scnprintf cnt '']''
     }) [0..res_type_count - 1];
     scnprintf cnt '', '';
     event_dispatch_list_dbg l cnt p;
     scnprintf cnt ('', res_set_cfg='' @ fmt_d (vdd_leave_res_set_on_last_close d))
   }"

definition show_config :: "'s modac_hw_dbg \<Rightarrow> ptr \<Rightarrow> 's mngdev_data \<Rightarrow> (string res \<times> 's mngdev_data) option" where
  "show_config hwd q = with_lock (\<lambda>mg.
     let p = des_of mg q in
     print_text (modac_c_vdev_show_config hwd (vdev_at mg p) p (mg_dispatch mg) (hw_res_def_count (mg_rm mg)) PAGE_BYTES) mg)"


section \<open>Texts fit into a page\<close>

lemma truncates_on_hw [truncates_intros]:
  assumes "truncates f"
  shows "truncates (\<lambda>cnt. on_hw (f cnt))"
proof (rule truncatesI)
  fix cnt cnt' :: nat and mg b x mg1 b1
  assume le: "cnt \<le> cnt'" and run: "run_state (on_hw (f cnt')) (mg, b) = (x, mg1, b1)"
  obtain y hw c where f: "run_state (f cnt') (mg_hw mg, b) = (y, hw, c)" by (rule prod_cases3)
  show "run_state (on_hw (f cnt)) (mg, take (cnt - 1) b) = (x, mg1, take (cnt - 1) b1) \<and> (length b \<le> cnt' - 1 \<longrightarrow> length b1 \<le> cnt' - 1)"
    using truncatesD [OF assms le f] run f by (simp add: on_hw_def)
qed

lemma truncates_rm_info [truncates_intros]: "truncates (\<lambda>cnt. modac_rm_print_info rm cnt entry_start entry_count)"
  unfolding modac_rm_print_info_def Let_def by (intro truncates_intros)

lemma truncates_list_dbg [truncates_intros]: "truncates (\<lambda>cnt. event_dispatch_list_dbg l cnt p)"
  unfolding event_dispatch_list_dbg_def by (intro truncates_intros)

lemma truncates_events [truncates_intros]: "truncates (print_events counters)"
  unfolding print_events_def by (intro truncates_intros)

text \<open>What the files rely on: the listings of a hardware support keep to their buffer and depend on its size only where they end.\<close>

locale text_hardware =
  fixes hwd :: "'s modac_hw_dbg"
  assumes show_truncates: "dbg_show hwd = Some f \<Longrightarrow> truncates f"
    and res_truncates: "dbg_res hwd = Some g \<Longrightarrow> truncates (\<lambda>cnt. g cnt res_type res_index)"
    and regs_truncates: "dbg_regs hwd = Some r \<Longrightarrow> truncates (\<lambda>cnt. r cnt regs_offset regs_length)"
    and info_truncates: "dbg_info hwd = Some f \<Longrightarrow> truncates f"
begin

lemma print_res: "truncates (\<lambda>cnt. print_res hwd cnt t i)"
  unfolding print_res_def using res_truncates by (cases "dbg_res hwd") (simp_all add: truncates_intros)

lemma hw_info: "truncates (print_hw_info hwd info rm)"
  unfolding print_hw_info_def using info_truncates
  by (cases "dbg_info hwd") (simp_all, (intro truncates_intros print_res; simp)+)

lemma config: "truncates (modac_c_vdev_show_config hwd d p l n)"
  unfolding modac_c_vdev_show_config_def by (intro truncates_intros print_res)

end

interpretation evr_text: text_hardware "hw_support_evr_dbg io des"
  by unfold_locales (auto simp: hw_support_evr_dbg_def truncates_show_dbg truncates_dbg_res truncates_dbg_regs truncates_dbg_info)

definition text_fits :: "(string res \<times> 's mngdev_data) option \<Rightarrow> bool" where
  "text_fits r = (case r of Some (Inr t, _) \<Rightarrow> length t < PAGE_BYTES | _ \<Rightarrow> True)"

lemma text_fits_print:
  assumes "\<And>mg. truncates (f mg)"
  shows "text_fits (with_lock (\<lambda>mg. print_text (f mg PAGE_BYTES) mg) mg)"
proof -
  have "length (fst (printed (f mg PAGE_BYTES) mg)) < PAGE_BYTES" for mg
    using truncates_length [OF assms [of mg], of PAGE_BYTES mg] by simp
  then show ?thesis
    by (auto simp: text_fits_def with_lock_def print_text_def case_prod_unfold split: option.split sum.split)
qed

lemma sysfs_texts_fit:
  "text_fits (show_alloc mg)"
  "text_fits (show_dbg (hw_support_evr_dbg io des) mg0)"
  "text_fits (show_hw_regs (hw_support_evr_dbg io des) mg0)"
  "text_fits (show_hw_info (hw_support_evr_dbg io des) info mg0)"
  "text_fits (show_events mg)"
  "text_fits (show_config (hw_support_evr_dbg io des) q mg0)"
  unfolding show_alloc_def show_dbg_def show_hw_regs_def show_hw_info_def show_events_def show_config_def Let_def
  by (simp_all add: hw_support_evr_dbg_def [of io des, THEN arg_cong [of _ _ dbg_show]] hw_support_evr_dbg_def [of io des, THEN arg_cong [of _ _ dbg_regs]])
    (rule text_fits_print; intro truncates_intros evr_text.hw_info evr_text.config truncates_show_dbg truncates_dbg_regs)+

section \<open>The subscriptions in the file \<open>config\<close>\<close>

lemma row_lists_subs: "row_lists p r \<longleftrightarrow> p \<in> set (row_subs r)"
  by (induction p r rule: row_lists.induct) auto

text \<open>A text in a buffer that takes \<open>k\<close> characters, after what is already there.\<close>

definition filled :: "nat \<Rightarrow> string \<Rightarrow> string \<Rightarrow> string" where
  "filled k b t = b @ take (k - length b) t"

lemma filled_on [simp]: "filled k (filled k b t1) t2 = filled k b (t1 @ t2)"
  by (simp add: filled_def take_append min_def)

lemma filled_Nil [simp]: "filled k b [] = b"
  by (simp add: filled_def)

lemma run_scnprintf: "run_state (scnprintf cnt t) (s, b) = ((), s, filled (cnt - 1) b t)"
  by (simp add: scnprintf_def filled_def)

lemma run_print_each:
  "run_state (for_each (\<lambda>x. if P x then scnprintf cnt (g x) else State_Monad.return ()) xs) (s, b)
     = ((), s, filled (cnt - 1) b (concat (map g (filter P xs))))"
  by (induction xs arbitrary: b) (simp_all add: run_scnprintf)

lemma map_int_range: "map int [0..<n] = [0..int n - 1]"
  by (induction n) (simp_all add: upto_rec2)

text \<open>
  C31: The part of a VIRT_DEV's \<open>config\<close> that lists its subscriptions, which scans the rows of the dispatch table up to their first free
  entry, prints exactly the events that an interrupt delivers to it, in ascending order, cut at the end of the page, and changes nothing.
\<close>

theorem config_lists_subscriptions:
  "run_state (event_dispatch_list_dbg l cnt p) (s, b) = ((), s, filled (cnt - 1) b
     (''subs['' @ concat (map (\<lambda>e. fmt_d e @ '' '') (filter (\<lambda>e. p \<in> set (subscribers l e)) [0..511])) @ '']''))"
proof -
  have "filter (\<lambda>e. p \<in> set (subscribers l e)) (map int [0..<512]) = map int (filter (\<lambda>i. row_lists p (l i)) [0..<512])"
    unfolding filter_map by (intro arg_cong [of _ _ "map int"] filter_cong) (auto simp: row_lists_subs subscribers_eq event_ok_def)
  moreover have "map int [0..<512] = [0..511]" using map_int_range [of 512] by simp
  ultimately have "concat (map (\<lambda>i. fmt_d (int i) @ '' '') (filter (\<lambda>i. row_lists p (l i)) [0..<512]))
      = concat (map (\<lambda>e. fmt_d e @ '' '') (filter (\<lambda>e. p \<in> set (subscribers l e)) [0..511]))"
    by (simp add: comp_def)
  then show ?thesis
    by (simp only: event_dispatch_list_dbg_def run_state_bind run_print_each run_scnprintf prod.case filled_on append_assoc)
qed


section \<open>Commands written to the files\<close>

lemma with_lock_run: "mngdev_devref_lock mg = Some (Inr v, mg1) \<Longrightarrow> f mg1 = (r, mg2) \<Longrightarrow> with_lock f mg = Some (r, mngdev_devref_unlock mg2)"
  by (simp add: with_lock_def)

text \<open>
  C30: Writing \<open>i\<close>, an event code and up to 16 data bytes in hexadecimal digits to the \<open>dbg\<close> file of a simulated EVR acts exactly as an interrupt with
  that event and those bytes would: the event is counted and given to every VIRT_DEV that subscribed to it. With more than the 12 bytes that an
  entry of the packet queue takes, though the comment of \<open>evr_sim_dbg\<close> allows 16, no VIRT_DEV changes: the event is lost and the write still
  reports success.
\<close>

theorem sim_write_acts_as_interrupt:
  assumes "mngdev_devref_lock mg = Some (Inr v, mg1)" and "sim (ev_hw (mg_hw mg1)) \<noteq> None"
    and "code < 256" and "length bs \<le> 16" and "L \<in> {65, 97}" and "length bs < 16 \<Longrightarrow> no_hex rest"
  shows "store_dbg (hw_support_evr_dbg io des) (ascii (''i'' @ hex2 L code @ concat (map (\<lambda>b. hex2 L (unat b)) bs)) @ rest) mg
      = Some (Inr (int (3 + 2 * length bs + length rest)), mngdev_devref_unlock (modac_mngdev_process_event (Put_Event (int code) bs) mg1))
    \<and> (12 < length bs \<longrightarrow> (\<forall>vd. deliver (Put_Event (int code) bs) vd = vd))"
proof
  show "store_dbg (hw_support_evr_dbg io des) (ascii (''i'' @ hex2 L code @ concat (map (\<lambda>b. hex2 L (unat b)) bs)) @ rest) mg
      = Some (Inr (int (3 + 2 * length bs + length rest)), mngdev_devref_unlock (modac_mngdev_process_event (Put_Event (int code) bs) mg1))"
    unfolding store_dbg_def using assms(2) sim_command_roundtrip [OF assms(3-6)]
    by (intro with_lock_run [OF assms(1)]) (simp add: hw_support_evr_dbg_def hw_support_evr_store_dbg_def)
  show "12 < length bs \<longrightarrow> (\<forall>vd. deliver (Put_Event (int code) bs) vd = vd)"
    by (simp add: deliver_def modac_vdev_put_cb_def modac_cb_put_def)
qed

text \<open>A simulated EVR as a MNG_DEV.\<close>

definition sim_data_ex :: evr_sim_data where
  "sim_data_ex = \<lparr>sim_prescaler_lengths = replicate 16 0, sim_pulsegen_params = [], sim_output_src = replicate 10 0\<rparr>"

definition mg_sim :: "bus_op list evr_state mngdev_data" where
  "mg_sim = mngdev_init_dev mdes_ex (evr_cpci\<lparr>ev_hw := (ev_hw evr_cpci)\<lparr>sim := Some sim_data_ex\<rparr>\<rparr>)
     \<lparr>rm_hw_res_defs = [], rm_res_states = [], rm_resource_type_data = []\<rparr> vs_ex"

definition mg_sim_locked :: "bus_op list evr_state mngdev_data" where
  "mg_sim_locked = mg_sim\<lparr>mg_ref := (mg_ref mg_sim)\<lparr>ref_mtx := True\<rparr>\<rparr>"

lemma mg_sim_lock: "mngdev_devref_lock mg_sim = Some (Inr 0, mg_sim_locked)" "sim (ev_hw (mg_hw mg_sim_locked)) \<noteq> None"
  by (simp_all add: mg_sim_locked_def mg_sim_def mngdev_init_dev_def mngdev_devref_lock_def devref_lock_def devref_init_def)

definition still_bus :: "bus_op list modac_io_rw_plugin" where
  "still_bus = bus_plugin (\<lambda>_ _. 0) (\<lambda>_ _. 0)"

lemma sim_write_acts_as_interrupt_witness:
  "store_dbg (hw_support_evr_dbg still_bus mdes_ex) (ascii ''i2a01'' @ [10]) mg_sim
     = Some (Inr 6, mngdev_devref_unlock (modac_mngdev_process_event (Put_Event 42 [1]) mg_sim_locked))"
proof -
  have t: "''i'' @ hex2 97 42 @ concat (map (\<lambda>b. hex2 97 (unat b)) [1 :: u8]) = ''i2a01''"
    by code_simp
  have "length [1 :: u8] < 16 \<Longrightarrow> no_hex [10]" by (simp add: no_hex_def extract_hex4_def)
  then show ?thesis
    using sim_write_acts_as_interrupt [OF mg_sim_lock, of 42 "[1]" 97 "[10]" still_bus mdes_ex] unfolding t by simp
qed

subsection \<open>The range of registers\<close>

text \<open>Characters that are digits are read off one by one.\<close>

definition all_digits :: "nat \<Rightarrow> u8 list \<Rightarrow> bool" where
  "all_digits base xs \<longleftrightarrow> (\<forall>c\<in>set xs. digit_value base c \<noteq> None)"

definition digits_value :: "nat \<Rightarrow> nat \<Rightarrow> u8 list \<Rightarrow> nat" where
  "digits_value base acc xs = foldl (\<lambda>a c. a * base + the (digit_value base c)) acc xs"

lemma parse_digits: "all_digits base xs \<Longrightarrow> parse_integer base acc (xs @ ys) = parse_integer base (digits_value base acc xs) ys"
  by (induction xs arbitrary: acc) (auto simp: all_digits_def digits_value_def)

lemma parse_stop: "digit_value base c = None \<Longrightarrow> parse_integer base acc (c # cs) = (acc, c # cs)"
  by simp

lemma digit_value_hex: "n < 16 \<Longrightarrow> digit_value 16 (of_nat (of_char (hex_digit 97 n))) = Some n"
  using nat_lt_16 [of n] by (auto simp: digit_value_def hex_digit_def digit_def)

lemma digit_value_dec: "n < 10 \<Longrightarrow> digit_value 10 (of_nat (of_char (digit n))) = Some n"
  using nat_lt_16 [of n] by (auto simp: digit_value_def digit_def)

lemma hex_digits_value: "all_digits 16 (ascii (hex_digits 97 n)) \<and> digits_value 16 0 (ascii (hex_digits 97 n)) = n"
proof (induction n rule: less_induct)
  case (less n)
  show ?case
  proof (cases "n < 16")
    case True
    then show ?thesis
      by (subst (1 2) hex_digits.simps) (simp add: ascii_def all_digits_def digits_value_def digit_value_hex)
  next
    case False
    then have "n div 16 < n" by simp
    from less.IH [OF this] False show ?thesis
      by (subst (1 2) hex_digits.simps) (simp add: ascii_def all_digits_def digits_value_def digit_value_hex mult.commute)
  qed
qed

lemma dec_digits_value: "all_digits 10 (ascii (dec_digits n)) \<and> digits_value 10 0 (ascii (dec_digits n)) = n"
proof (induction n rule: less_induct)
  case (less n)
  show ?case
  proof (cases "n < 10")
    case True
    then show ?thesis
      by (subst (1 2) dec_digits.simps) (simp add: ascii_def all_digits_def digits_value_def digit_value_dec)
  next
    case False
    then have "n div 10 < n" by simp
    from less.IH [OF this] False show ?thesis
      by (subst (1 2) dec_digits.simps) (simp add: ascii_def all_digits_def digits_value_def digit_value_dec mult.commute)
  qed
qed

lemma digits_not_empty: "hex_digits L n \<noteq> []" "dec_digits n \<noteq> []"
  by (subst hex_digits.simps, simp) (subst dec_digits.simps, simp)

text \<open>A digit is no white space, no minus, no x and no NUL.\<close>

lemma digit_value_not:
  assumes "digit_value base c \<noteq> None"
  shows "\<not> is_space c \<and> c \<noteq> 45 \<and> c \<noteq> 120 \<and> c \<noteq> 88 \<and> c \<noteq> 0"
  using assms by (auto simp: digit_value_def is_space_def Let_def word_le_nat_alt split: if_splits)

lemma no_digits [simp]: "digit_value 16 120 = None" "digit_value 16 88 = None" "digit_value 10 45 = None" "digit_value 16 32 = None" "digit_value 10 10 = None"
  by (simp_all add: digit_value_def)

lemma skip_no_prefix: "all_digits 16 xs \<Longrightarrow> xs \<noteq> [] \<Longrightarrow> skip_0x (xs @ 32 # ys) = xs @ 32 # ys"
  by (cases xs; cases "tl xs") (auto simp: skip_0x_def all_digits_def)

lemma starts_digits: "all_digits base xs \<Longrightarrow> xs \<noteq> [] \<Longrightarrow> starts_number base (xs @ ys)"
  by (cases xs) (auto simp: starts_number_def all_digits_def)

lemma drop_space_digits: "all_digits base xs \<Longrightarrow> xs \<noteq> [] \<Longrightarrow> dropWhile is_space (xs @ ys) = xs @ ys"
  using digit_value_not [of base "hd xs"] by (cases xs) (auto simp: all_digits_def)

lemma scan_hex:
  assumes "pre \<in> {[], [48, 120]}" and "xs = ascii (fmt_x w)"
  shows "sscanf_x (pre @ xs @ 32 # ys) = Some (w, 32 # ys)"
proof -
  have xs: "all_digits 16 xs" "digits_value 16 0 xs = unat w" "xs \<noteq> []"
    using assms(2) hex_digits_value [of "unat w"] digits_not_empty by (simp_all add: fmt_x_def ascii_def)
  have "dropWhile is_space (pre @ xs @ 32 # ys) = pre @ xs @ 32 # ys"
    using assms(1) drop_space_digits [OF xs(1,3)] by (auto simp: is_space_def)
  moreover have "starts_number 16 (pre @ xs @ 32 # ys)"
    using assms(1) starts_digits [OF xs(1,3)] by (auto simp: starts_number_def digit_value_def)
  moreover have "skip_0x (pre @ xs @ 32 # ys) = xs @ 32 # ys"
    using assms(1) skip_no_prefix [OF xs(1,3)] by (cases "pre = []") (simp, simp add: skip_0x_def)
  moreover have "parse_integer 16 0 (xs @ 32 # ys) = (unat w, 32 # ys)"
    using xs(2) by (simp add: parse_digits [OF xs(1)] digit_value_def)
  ultimately show ?thesis by (simp add: sscanf_x_def)
qed

lemma scan_dec:
  assumes "xs = ascii (dec_digits n)"
  shows "sscanf_d (32 # xs @ [10]) = Some (of_nat n, [10])"
proof -
  have xs: "all_digits 10 xs" "digits_value 10 0 xs = n" "xs \<noteq> []"
    using assms dec_digits_value [of n] digits_not_empty by (simp_all add: ascii_def)
  then obtain c cs where c: "xs = c # cs" by (cases xs) auto
  then have "c \<noteq> 45" using xs(1) by (auto simp: all_digits_def)
  moreover have "dropWhile is_space (32 # xs @ [10]) = c # cs @ [10]"
    using drop_space_digits [OF xs(1,3), of "[10]"] c by (simp add: is_space_def)
  moreover have "starts_number 10 (c # cs @ [10])" using starts_digits [OF xs(1,3), of "[10]"] c by simp
  moreover have "parse_integer 10 0 (c # cs @ [10]) = (n, [10])"
    using parse_digits [OF xs(1), of 0 "[10]"] xs(2) c by (simp add: digit_value_def)
  ultimately show ?thesis by (simp add: sscanf_d_def)
qed

lemma digits_no_NUL: "all_digits base xs \<Longrightarrow> 0 \<notin> set xs"
  using digit_value_not [of base 0] by (auto simp: all_digits_def)

lemma cstr_whole: "0 \<notin> set xs \<Longrightarrow> cstr xs = xs"
  by (auto simp: cstr_def takeWhile_eq_all_conv)

text \<open>
  What the comment of the file \<open>regs\<close> promises: writing an address in hexadecimal digits, with or without 0x, and a length in decimal
  digits, as \<open>echo\<close> does, sets exactly this range, for every address and every length of 32 bits; reading the file of an EVR afterwards prints the
  registers of this range, or why it is refused.
\<close>

theorem regs_range_roundtrip:
  assumes "mngdev_devref_lock mg = Some (Inr v, mg1)" and "pre \<in> {[], ''0x''}"
    and "buf = ascii (pre @ fmt_x off @ '' '' @ dec_digits (unat len)) @ [10]"
  shows "\<exists>mg2. store_hw_regs buf mg = Some (Inr (int (length buf)), mg2)
    \<and> mg2 = mngdev_devref_unlock (mg1\<lparr>mg_regs_offset := off, mg_regs_length := len\<rparr>)
    \<and> show_hw_regs (hw_support_evr_dbg io des) mg2
      = with_lock (\<lambda>mg. print_text (on_hw (hw_support_evr_dbg_regs io des PAGE_BYTES off len)) mg) mg2"
proof -
  let ?x = "ascii (fmt_x off)" and ?d = "ascii (dec_digits (unat len))" and ?p = "ascii pre"
  have buf: "buf = ?p @ ?x @ 32 # ?d @ [10]" by (simp add: assms(3) ascii_def)
  have p: "?p \<in> {[], [48, 120]}" using assms(2) by (auto simp: ascii_def)
  have "0 \<notin> set ?x" "0 \<notin> set ?d"
    using hex_digits_value [of "unat off"] dec_digits_value [of "unat len"] by (auto simp: fmt_x_def dest!: digits_no_NUL)
  then have "cstr buf = buf" using p unfolding buf by (intro cstr_whole) auto
  then have "sscanf_x (cstr buf) = Some (off, 32 # ?d @ [10])" using scan_hex [OF p refl] buf by simp
  moreover have "sscanf_d (32 # ?d @ [10]) = Some (len, [10])" using scan_dec [OF refl, of "unat len"] by simp
  ultimately have st: "store_hw_regs buf mg
      = Some (Inr (int (length buf)), mngdev_devref_unlock (mg1\<lparr>mg_regs_offset := off, mg_regs_length := len\<rparr>))"
    unfolding store_hw_regs_def by (intro with_lock_run [OF assms(1)]) simp
  have "show_hw_regs (hw_support_evr_dbg io des) mg2
      = with_lock (\<lambda>mg. print_text (on_hw (hw_support_evr_dbg_regs io des PAGE_BYTES off len)) mg) mg2"
    if "mg2 = mngdev_devref_unlock (mg1\<lparr>mg_regs_offset := off, mg_regs_length := len\<rparr>)" for mg2
    using that unfolding show_hw_regs_def with_lock_def
    by (simp add: hw_support_evr_dbg_def mngdev_devref_lock_def mngdev_devref_unlock_def split: option.split)
  with st show ?thesis by blast
qed
lemma regs_range_roundtrip_witness:
  "\<exists>mg2. store_hw_regs (ascii ''0x78 8'' @ [10]) mg_sim = Some (Inr 7, mg2) \<and> mg_regs_offset mg2 = 0x78 \<and> mg_regs_length mg2 = 8"
proof -
  have t: "''0x'' @ fmt_x 0x78 @ '' '' @ dec_digits (unat (8 :: u32)) = ''0x78 8''"
    by code_simp
  show ?thesis
    using regs_range_roundtrip [OF mg_sim_lock(1), of "''0x''" _ "0x78" 8] unfolding t
    by (auto simp: mngdev_devref_unlock_def)
qed

end
