(* ===== verification/Spec2Isabelle.thy ===== *)
theory Spec2Isabelle
  imports Delivery Queue_Concurrent Evr_Types Pci_Irq Mng_Driver Drv_Start Mng_Sysfs
begin

text \<open>
  A verification development of the evrmaDriver Linux kernel module (src/src/), the driver of the Micro Research
  Finland event receivers (EVR): PCI cards that receive timed events over a fibre and drive pulse generators and
  outputs.

  \<^bold>\<open>The program.\<close> A card gets a management device, the MNG_DEV (mng-dev.c). A manager process opens it, creates
  virtual devices, the VIRT_DEVs (virt-dev.c), and gives each of them resources of the card (pulse generators and
  outputs), which the resource manager (rm.c) counts. Applications open VIRT_DEVs, use the resources by numbers that are relative to
  the VIRT_DEV, subscribe to event codes and read the events. What is special to the EVR sits behind a table
  of functions, the hardware support (hw-support.h): evr.c, the interrupt in evr-irq-events.c, the text files in
  evr-dbg.c and a simulation without a card in evr-sim.c. The cards are found by pci-evr.c with the PLX bridge in
  plx.c; main_evrma.c loads and unloads the module. An interrupt of a card goes from pci-evr.c to the MNG_DEV, which
  calls the hardware support; that reads the event FIFO of the card and reports each event to the MNG_DEV, which
  looks up the subscribers in the dispatch table (event-list.c) and puts the event into the queue
  (packet-queue.c) of each of them, where a sleeping reader finds it. Objects that a hot unplug can take away while
  files are open are kept by a device reference (devref.h).

  \<^bold>\<open>The theories.\<close>
  \<^item> \<open>Modac_Prelude\<close>: machine integers, error numbers, results (\<open>Inl\<close> an error, \<open>Inr\<close> the value), byte order, C strings.
  \<^item> \<open>Packet_Queue\<close> (packet-queue.c): the ring \<open>modac_circ_buf\<close> with \<open>modac_cb_init\<close>, \<open>_put\<close>, \<open>_get\<close>, \<open>_available\<close>.
    Interfaces \<open>packet_source\<close> and \<open>packet_fifo\<close>: a queue whose histories are those of a list. \<open>Queue_Concurrent\<close>: the same
    calls as interleaved accesses of a writer and a reader to the ring.
  \<^item> \<open>Event_List\<close> (event-list.c): the 512-bit masks and the dispatch table, 512 rows of 31 pointers. Interface
    \<open>event_dispatch\<close>: a relation of events and subscribers.
  \<^item> \<open>Devref\<close> (devref.h): the reference, its mutex and its inodes.
  \<^item> \<open>Rm\<close> (rm.c): the table of resources and their owners. Its interface gives the ownership as a function that only
    allocation and release change.
  \<^item> \<open>Hw_Support\<close> (linux-modac.h, hw-support.h, mng-dev.h): user memory, argument structures, \<open>ioctl\<close> numbers and
    the record of the functions of a hardware support.
  \<^item> \<open>Virt_Dev\<close>, \<open>Vdev_Files\<close> (virt-dev.c): the objects and the table of the VIRT_DEVs, delivery and the read loop; the
    file operations open, release, ioctl, mmap and the file config.
  \<^item> \<open>Mng_Dev\<close> (mng-dev.c): the state \<open>mngdev_data\<close> of one MNG_DEV and its operations; \<open>Mng_Invariants\<close> its invariant \<open>mg_ok\<close>;
    \<open>Mng_System\<close> the step relation \<open>mng_step\<close> and what every reachable state satisfies; \<open>Mng_Properties\<close> the single operations in
    these states; \<open>Mng_Driver\<close> all MNG_DEVs, their creation, opening and hot unplug.
  \<^item> \<open>Evr_Regs\<close>, \<open>Evr_Map_Ram\<close>, \<open>Evr_Core\<close>, \<open>Evr_Ioctl\<close> (evr.c, evr-sim.c, evr-internal.h, linux-evrma.h, linux-evr-regs.h): an
    operation is a computation in the state monad over the private data \<open>evr_hw_data\<close> and the device \<open>'h\<close> behind the register
    access \<open>modac_io_rw_plugin\<close>. \<open>Evr_Irq\<close> (evr-irq-events.c): the handler and the change of subscriptions. \<open>Evr_Types\<close>: the
    type invariant of the private data over all operations.
  \<^item> \<open>Evr_System\<close>, \<open>Delivery\<close>: the EVR as the hardware of a MNG_DEV. Interface \<open>subscribed_hardware\<close>: a hardware that saves
    what is subscribed; the way of an event from the FIFO of the card to the buffer of a reader.
  \<^item> \<open>Pci_Evr\<close>, \<open>Pci_Irq\<close> (pci-evr.c, plx.c, evrma-core-api.h): probing and removing, with the kernel's resources as state; the handler against a removal
    as interleaved steps on the counter \<open>activity\<close>.
  \<^item> \<open>Text_Out\<close>, \<open>Evr_Text\<close>, \<open>Mng_Sysfs\<close> (evr-dbg.c, evr-sim.c, and the sysfs parts of mng-dev.c, rm.c and event-list.c): the files of
    sysfs as printers. Interface \<open>text_hardware\<close>: listings that only read the hardware.
  \<^item> \<open>Drv_Start\<close> (main_evrma.c and the starts of mng-dev.c, virt-dev.c and pci-evr.c): what loading and unloading obtain and give back.
\<close>

text \<open>
  \<^bold>\<open>What is shown.\<close> For a MNG_DEV with any hardware support, in every state that any sequence of calls reaches: at
  most 31 VIRT_DEVs with distinct ids and names, resources with one owner each, no ownership and no subscription
  without its VIRT_DEV; a hardware call reaches the hardware only with resources of the caller; creation,
  allocation, destruction, closing and subscribing on all their branches; an event reaches exactly its subscribers. For
  the EVR: the card saves an event exactly when somebody is subscribed to it; the handler reports what
  the FIFO holds in order; a reader gets the bytes of the subscribed events in order (the property of \<open>Delivery\<close>);
  Map RAM changes go to the inactive bank; parameters that do not fit are refused; what is set is read back
  (or, for the properties of a pulse, what is read back instead). For the platform: the handler never runs on
  a destroyed device, a removal ends, what a probe, a creation and the loading of the module obtain is given back. For the
  text files: listings only read, what is written by the simulation's commands is what an interrupt would deliver. For the
  queue: an interrupt and a reader that run at the same time never access the same slot, and nothing is lost or reordered.
  The reference, the queue, the dispatch table and the resource manager refine abstract specifications.

  \<^bold>\<open>Bounds.\<close> They are those of the code: 256 events of the FIFO in one interrupt (\<open>EVR_FIFO_EVENT_LIMIT\<close>, the only counter that ends
  a loop over the device; the recursion of \<open>read_fifo\<close> is on it), 1024 slots with 12 bytes of data in the queue, of
  which 1022 take packets, 512 event codes, 31 VIRT_DEVs of a MNG_DEV, 32 resources of a type in a VIRT_DEV, 16 resource types, 7
  PCI slots and 8 MNG_DEVs, 512 words in the slot of the DataBuf, a page of 4096 bytes for a text. No fuel is used: the read loop of a
  VIRT_DEV recurses on the sleeps it is given and the room in the buffer; the waiting of a removal is a step relation.

  \<^bold>\<open>How the environment is modelled.\<close> The module is built for x86_64. User memory is a partial map from offsets, a fault
  is an unmapped one. What the kernel decides (an allocation, \<open>device_create\<close>, \<open>cdev_add\<close>, \<open>request_irq\<close>, the address of a new
  object, a signal during a sleep, what is on the stack) is an argument of the operation. Operations under a spin lock or under the mutex of the
  reference are one step; taking a mutex that is held is \<open>None\<close>. Between them all orders are steps of the systems. The two sides of a
  queue are under different locks: \<open>Queue_Concurrent\<close> has every access of theirs as a step and any interleaving of them, with the
  accesses of a side in the order of its program, as the barriers of packet-queue.c have it. A
  card is any device with register access; the properties of the interrupt assume of it what the FIFO's registers
  do (\<open>event_fifo\<close>), instantiated by \<open>fifo_device\<close>. The text that the platform adds to hw_info is a parameter.

  \<^bold>\<open>Not modelled.\<close> \<open>printk\<close> and the time measurement of debug builds (\<open>DBG_MEASURE_TIME_FROM_IRQ_TO_USER\<close>); the code under
  \<open>DEBUG_EMCOR_CARD\<close>, which is not defined (pci-evr.c 430--479); the freeing of memory by itself (the cleanups of rm.c and
  evr.c; where an order of releases can be wrong, in the starts and in pci-evr.c, it is); the empty operations of memory areas, the tables of file operations and of
  sysfs attributes, which only name functions; a memory that is weaker than the order the barriers give. The
  build files and the scripts that load the module contain no part of the driver.
\<close>

end
